theory Spec2Isabelle
  imports Main "HOL-Library.AList"
begin

section \<open>Errors\<close>

text \<open>
  Every \<^verbatim>\<open>raise\<close> of the Python source is a value of this type; the string is the
  fixed part of the message.  \<^verbatim>\<open>KeyError\<close> and \<^verbatim>\<open>IndexError\<close> are the errors of an
  unguarded dictionary lookup and of \<^verbatim>\<open>pop\<close> on an empty list.  An operation returns the
  pair of its outcome and of the state it leaves behind, because a Python exception does not
  undo the assignments made before it.
\<close>

datatype error =
    ValueError string
  | TypeError string
  | RuntimeError string
  | KeyError string
  | IndexError string
  | NotImplementedError string

section \<open>Nodes and tensors\<close>

text \<open>
  The classes \<^verbatim>\<open>Node\<close> and \<^verbatim>\<open>Tensor\<close> are not part of the two source files.
  Modelled from the spec: a node owns its name, its operation type, a device string, an
  attribute mapping, an ordered list of data-input tensors, an ordered list of control-input
  nodes and an ordered list of outputs, each with a data type and a shape; a tensor is the
  pair of its producing node and an output index.  Nodes are held in their graph and named
  by their (unique) name, so a reference to a node is its name.
\<close>

datatype attr_value = AttrS string | AttrList "string list" | AttrI int | AttrB bool

type_synonym tensor = "string \<times> nat"

record node =
  id_in_graph :: int
  node_name :: string
  op_type :: string
  device :: string
  attrs :: "(string \<times> attr_value) list"
  inputs :: "tensor list"
  control_inputs :: "string list"
  outputs :: "(string \<times> int list) list"

text \<open>\<^verbatim>\<open>node.Node(g, id, name=name, op_name=op_name)\<close>: a new, empty node.\<close>

definition Node :: "int \<Rightarrow> string \<Rightarrow> string \<Rightarrow> node" where
  "Node i name op_name =
     \<lparr>id_in_graph = i, node_name = name, op_type = op_name, device = [],
      attrs = [], inputs = [], control_inputs = [], outputs = []\<rparr>"

text \<open>The output tensors of a node, in order.\<close>

definition node_outputs :: "node \<Rightarrow> tensor list" where
  "node_outputs n = map (\<lambda>i. (node_name n, i)) [0..<length (outputs n)]"

text \<open>
  Across graphs a node is referred to by the identity of its graph and its name, and a
  tensor by its node and an output index.  A member of a collection, and what a caller
  may hand to a lookup function, is a node, a tensor, a plain string or anything else.
\<close>

type_synonym node_ref = "nat \<times> string"

type_synonym tensor_ref = "node_ref \<times> nat"

datatype elem = ElemNode node_ref | ElemTensor tensor_ref | ElemStr string | ElemOther

section \<open>The graph (pge/graph.py)\<close>

text \<open>
  A frame name on the stack of the frame analysis is the value of a \<^verbatim>\<open>frame_name\<close>
  attribute, or Python's \<^verbatim>\<open>None\<close> for the root frame.
\<close>

type_synonym frame_name = "attr_value option"

record graph =
  version :: int
  frozen :: bool
  next_id :: int
  node_name_to_node :: "(string \<times> node) list"
  node_to_frame_names_cache :: "(string \<times> frame_name list) list option"
  frame_name_to_nodes_cache :: "(frame_name \<times> string list) list option"
  collections :: "(string \<times> elem list) list"

text \<open>\<^verbatim>\<open>Graph()\<close> on an empty GraphDef.\<close>

definition empty_graph :: graph where
  "empty_graph =
     \<lparr>version = 0, frozen = False, next_id = 1, node_name_to_node = [],
      node_to_frame_names_cache = None, frame_name_to_nodes_cache = None,
      collections = []\<rparr>"

subsection \<open>Strings\<close>

text \<open>
  A Python string is modelled by the list of the bytes of its UTF-8 encoding.  Equality,
  concatenation and the test for a prefix are on the bytes what they are on the characters.
\<close>

text \<open>The decimal digits of a natural number, as \<^verbatim>\<open>"{}".format(i)\<close> writes them.\<close>

fun str_of_nat :: "nat \<Rightarrow> string" where
  "str_of_nat n =
     (if n < 10 then [char_of (48 + n)]
      else str_of_nat (n div 10) @ [char_of (48 + n mod 10)])"

declare str_of_nat.simps [simp del]

text \<open>\<^verbatim>\<open>"{}_{}".format(name, i)\<close>\<close>

definition format_name :: "string \<Rightarrow> nat \<Rightarrow> string" where
  "format_name name i = name @ ''_'' @ str_of_nat i"

definition nat_of_str :: "string \<Rightarrow> nat" where
  "nat_of_str s = foldl (\<lambda>a c. 10 * a + (of_char c - 48)) 0 s"

lemma nat_of_str_snoc: "nat_of_str (s @ [c]) = 10 * nat_of_str s + (of_char c - 48)"
  by (simp add: nat_of_str_def)

lemma nat_of_str_of_nat: "nat_of_str (str_of_nat n) = n"
proof (induction n rule: str_of_nat.induct)
  case (1 n)
  show ?case
  proof (cases "n < 10")
    case True
    then show ?thesis
      by (subst str_of_nat.simps) (simp add: nat_of_str_def)
  next
    case False
    have "of_char (char_of (48 + n mod 10)) = (48 + n mod 10 :: nat)"
      by simp
    with False 1 show ?thesis
      by (subst str_of_nat.simps) (simp add: nat_of_str_snoc)
  qed
qed

lemma str_of_nat_inj: "str_of_nat m = str_of_nat n \<Longrightarrow> m = n"
  by (metis nat_of_str_of_nat)

lemma format_name_inj: "format_name name i = format_name name j \<Longrightarrow> i = j"
  by (simp add: format_name_def str_of_nat_inj)

text \<open>
  \<^verbatim>\<open>s[n:]\<close>, the string without its first \<open>n\<close> characters: a character is a byte
  together with the continuation bytes (from 128 to 191) that follow it.
\<close>

definition is_continuation :: "char \<Rightarrow> bool" where
  "is_continuation c = (128 \<le> (of_char c :: nat) \<and> (of_char c :: nat) < 192)"

fun drop_chars :: "nat \<Rightarrow> string \<Rightarrow> string" where
  "drop_chars 0 s = s"
| "drop_chars (Suc n) [] = []"
| "drop_chars (Suc n) (c # s) = drop_chars n (dropWhile is_continuation s)"

text \<open>
  \<^verbatim>\<open>str.lower()\<close> is a builtin of the interpreter.  It follows the case tables of Unicode
  and is not a function of the single characters (a capital sigma is lowered by its
  context, a dotted capital I to two characters).  The model does not look into it: the
  lowering is a parameter \<open>lw\<close> of every function that compares names, and it ranges over
  all functions on strings that keep the candidates \<^verbatim>\<open>name_1\<close>, \<^verbatim>\<open>name_2\<close>, ... of one
  name apart.  \<^verbatim>\<open>str.lower()\<close> is one of them: it leaves the underscore and the decimal
  digits as they are, and what it makes of \<^verbatim>\<open>name\<close> does not depend on the digits that
  follow the underscore.  Nothing else about it is used.
\<close>

typedef lowering =
  "{f :: string \<Rightarrow> string.
      \<forall>name i j. f (format_name name i) = f (format_name name j) \<longrightarrow> i = j}"
  morphisms lower_of Abs_lowering
proof
  show "(\<lambda>s. s) \<in> {f :: string \<Rightarrow> string.
      \<forall>name i j. f (format_name name i) = f (format_name name j) \<longrightarrow> i = j}"
    by (simp add: format_name_inj)
qed

setup_lifting type_definition_lowering

lemma lower_format_name_inj:
  "lower_of lw (format_name name i) = lower_of lw (format_name name j) \<Longrightarrow> i = j"
  using lower_of [of lw] by blast

subsection \<open>Lookup\<close>

definition contains_node :: "graph \<Rightarrow> string \<Rightarrow> bool" where
  "contains_node g name = (name \<in> set (map fst (node_name_to_node g)))"

definition getitem :: "graph \<Rightarrow> string \<Rightarrow> error + node" where
  "getitem g name =
     (case map_of (node_name_to_node g) name of
        Some n \<Rightarrow> Inr n
      | None \<Rightarrow> Inl (ValueError ''No node found in graph''))"

definition nodes :: "graph \<Rightarrow> node list" where
  "nodes g = map snd (node_name_to_node g)"

text \<open>\<^verbatim>\<open>name.lower() in [k.lower() for k in self._node_name_to_node.keys()]\<close>\<close>

definition name_in_use :: "lowering \<Rightarrow> graph \<Rightarrow> string \<Rightarrow> bool" where
  "name_in_use lw g name =
     (lower_of lw name \<in> set (map (lower_of lw) (map fst (node_name_to_node g))))"

subsection \<open>Unique names\<close>

text \<open>
  The candidates \<^verbatim>\<open>name_1\<close>, \<^verbatim>\<open>name_2\<close>, ... differ pairwise after lowering, so only
  finitely many of them are in use.  This is what makes the loop of \<^verbatim>\<open>unique_name\<close> stop.
\<close>

lemma finite_names_in_use: "finite {j. name_in_use lw g (format_name name j)}"
proof -
  have "{j. name_in_use lw g (format_name name j)}
        = (\<lambda>j. lower_of lw (format_name name j))
            -` set (map (lower_of lw) (map fst (node_name_to_node g)))"
    by (auto simp: name_in_use_def)
  moreover have "inj (\<lambda>j. lower_of lw (format_name name j))"
    by (rule injI) (rule lower_format_name_inj)
  ultimately show ?thesis
    by (simp add: finite_vimageI)
qed

text \<open>
  The loop of \<^verbatim>\<open>unique_name\<close>:
  \<^verbatim>\<open>while self._name_in_use(new_name): i = i + 1; new_name = "{}_{}".format(name, i)\<close>
\<close>

function unique_name_loop :: "lowering \<Rightarrow> graph \<Rightarrow> string \<Rightarrow> nat \<Rightarrow> string" where
  "unique_name_loop lw g name i =
     (if name_in_use lw g (format_name name i) then unique_name_loop lw g name (i + 1)
      else format_name name i)"
  by pat_completeness auto
termination
proof (relation
    "measure (\<lambda>(lw, g, name, i). card {j. i \<le> j \<and> name_in_use lw g (format_name name j)})")
  show "wf (measure
    (\<lambda>(lw, g, name, i). card {j. i \<le> j \<and> name_in_use lw g (format_name name j)}))"
    by simp
next
  fix lw g name i
  assume u: "name_in_use lw g (format_name name i)"
  let ?S = "\<lambda>k. {j. k \<le> j \<and> name_in_use lw g (format_name name j)}"
  have fin: "finite (?S i)"
    by (rule finite_subset [OF _ finite_names_in_use [of lw g name]]) auto
  have "i \<in> ?S i" "i \<notin> ?S (i + 1)" "?S (i + 1) \<subseteq> ?S i"
    using u by auto
  then have "?S (i + 1) \<subset> ?S i"
    by blast
  then have "card (?S (i + 1)) < card (?S i)"
    using fin by (simp add: psubset_card_mono)
  then show "((lw, g, name, i + 1), (lw, g, name, i))
        \<in> measure
            (\<lambda>(lw, g, name, i). card {j. i \<le> j \<and> name_in_use lw g (format_name name j)})"
    by simp
qed

declare unique_name_loop.simps [simp del]

text \<open>
  \<^verbatim>\<open>unique_name\<close>: the name itself when it is free, else the first free candidate from
  \<^verbatim>\<open>name_1\<close> on.
\<close>

definition unique_name :: "lowering \<Rightarrow> graph \<Rightarrow> string \<Rightarrow> string" where
  "unique_name lw g name =
     (if \<not> name_in_use lw g name then name else unique_name_loop lw g name 1)"

subsection \<open>Version counter, freezing, identities\<close>

definition set_frozen :: "graph \<Rightarrow> bool \<Rightarrow> graph" where
  "set_frozen g v = g\<lparr>frozen := v\<rparr>"

definition increment_version_counter :: "graph \<Rightarrow> (error + unit) \<times> graph" where
  "increment_version_counter g =
     (if frozen g then (Inl (RuntimeError ''Detected a change to a frozen graph''), g)
      else (Inr (),
            g\<lparr>version := version g + 1,
              node_to_frame_names_cache := None,
              frame_name_to_nodes_cache := None\<rparr>))"

definition get_next_id :: "graph \<Rightarrow> int \<times> graph" where
  "get_next_id g = (next_id g, g\<lparr>next_id := next_id g + 1\<rparr>)"

definition get_collection :: "graph \<Rightarrow> string \<Rightarrow> error + elem list" where
  "get_collection g name =
     (case map_of (collections g) name of
        Some c \<Rightarrow> Inr c
      | None \<Rightarrow> Inl (KeyError name))"

definition get_all_collection_keys :: "graph \<Rightarrow> string list" where
  "get_all_collection_keys g = map fst (collections g)"

subsection \<open>Adding nodes\<close>

text \<open>
  \<^verbatim>\<open>add_node\<close> picks the name (or raises on a collision when \<^verbatim>\<open>uniquify_name\<close> is
  false), takes the next identity, registers the node and only then increments the version
  counter, which is where a frozen graph raises.
\<close>

definition add_node ::
  "lowering \<Rightarrow> graph \<Rightarrow> string \<Rightarrow> string \<Rightarrow> bool \<Rightarrow> (error + node) \<times> graph" where
  "add_node lw g name op_name uniquify_name =
     (case (if uniquify_name then Inr (unique_name lw g name)
            else if name_in_use lw g name
              then Inl (ValueError ''Graph already contains a node with name'')
              else Inr name) of
        Inl e \<Rightarrow> (Inl e, g)
      | Inr name' \<Rightarrow>
          (case get_next_id g of
             (i, g1) \<Rightarrow>
               (let ret = Node i name' op_name;
                    g2 = g1\<lparr>node_name_to_node :=
                              AList.update name' ret (node_name_to_node g1)\<rparr>
                in case increment_version_counter g2 of
                     (Inl e, g3) \<Rightarrow> (Inl e, g3)
                   | (Inr u, g3) \<Rightarrow> (Inr ret, g3))))"

text \<open>
  \<^verbatim>\<open>add_node_from_node_def\<close> (the second definition of that name in the class, which is
  the one Python keeps).  A \<^verbatim>\<open>NodeDef\<close> carries a name, an operation type, a device, the
  attributes and the input strings.  \<^verbatim>\<open>Node.set_inputs_from_strings\<close> is not part of the
  source files and is a parameter; the node is changed where it is registered.
\<close>

record node_def =
  nd_name :: string
  nd_op :: string
  nd_device :: string
  nd_attr :: "(string \<times> attr_value) list"
  nd_input :: "string list"

definition update_node :: "graph \<Rightarrow> string \<Rightarrow> (node \<Rightarrow> node) \<Rightarrow> graph" where
  "update_node g name f =
     (case map_of (node_name_to_node g) name of
        None \<Rightarrow> g
      | Some n \<Rightarrow> g\<lparr>node_name_to_node := AList.update name (f n) (node_name_to_node g)\<rparr>)"

definition add_node_from_node_def ::
  "lowering \<Rightarrow> (graph \<Rightarrow> string \<Rightarrow> string list \<Rightarrow> bool \<Rightarrow> (error + unit) \<times> graph) \<Rightarrow>
   graph \<Rightarrow> node_def \<Rightarrow> bool \<Rightarrow> bool \<Rightarrow> (error + node) \<times> graph" where
  "add_node_from_node_def lw set_inputs_from_strings g nd set_inputs set_control_inputs =
     (if set_control_inputs \<and> \<not> set_inputs
      then (Inl (ValueError ''set_inputs must be True if set_control_inputs is True''), g)
      else
        (case add_node lw g (nd_name nd) (nd_op nd) True of
           (Inl e, g1) \<Rightarrow> (Inl e, g1)
         | (Inr ret, g1) \<Rightarrow>
             (case (if set_inputs
                    then set_inputs_from_strings g1 (node_name ret) (nd_input nd)
                           set_control_inputs
                    else (Inr (), g1)) of
                (Inl e, g2) \<Rightarrow> (Inl e, g2)
              | (Inr u, g2) \<Rightarrow>
                  (let g3 = update_node g2 (node_name ret)
                              (\<lambda>n. n\<lparr>device := nd_device nd, attrs := nd_attr nd\<rparr>)
                   in (case map_of (node_name_to_node g3) (node_name ret) of
                         Some n \<Rightarrow> (Inr n, g3)
                       | None \<Rightarrow> (Inr (ret\<lparr>device := nd_device nd, attrs := nd_attr nd\<rparr>), g3))))))"

subsection \<open>Control-flow frame analysis\<close>

definition FRAME_NAME_ATTR :: string where
  "FRAME_NAME_ATTR = ''frame_name''"

text \<open>
  Modelled from the spec: \<^verbatim>\<open>Tensor.consumers()\<close> scans the input lists of all nodes of the
  owning graph for a reference to the tensor.
\<close>

definition consumers :: "graph \<Rightarrow> tensor \<Rightarrow> node list" where
  "consumers g t = filter (\<lambda>n. t \<in> set (inputs n)) (nodes g)"

text \<open>
  The first half of the loop body: \<^verbatim>\<open>Enter\<close> pushes its frame name (and raises without
  one), \<^verbatim>\<open>Exit\<close> pops (and \<^verbatim>\<open>pop\<close> raises on an empty stack); both refresh the tuple.
  Any other node leaves stack and tuple alone.
\<close>

definition update_frame_stack ::
  "node \<Rightarrow> frame_name list \<Rightarrow> frame_name list \<Rightarrow> error + (frame_name list \<times> frame_name list)" where
  "update_frame_stack cur_node frame_name_stack frame_name_tuple =
     (if op_type cur_node \<in> set [''Enter'', ''RefEnter''] then
        (if FRAME_NAME_ATTR \<notin> set (map fst (attrs cur_node))
         then Inl (ValueError ''Enter node does not have a value for its frame_name attribute'')
         else (let st = frame_name_stack @ [map_of (attrs cur_node) FRAME_NAME_ATTR]
               in Inr (st, st)))
      else if op_type cur_node \<in> set [''Exit'', ''RefExit''] then
        (if frame_name_stack = [] then Inl (IndexError ''pop from empty list'')
         else Inr (butlast frame_name_stack, butlast frame_name_stack))
      else Inr (frame_name_stack, frame_name_tuple))"

text \<open>\<^verbatim>\<open>d.setdefault(k, []).append(v)\<close>\<close>

definition setdefault_append :: "'k \<Rightarrow> 'v \<Rightarrow> ('k \<times> 'v list) list \<Rightarrow> ('k \<times> 'v list) list" where
  "setdefault_append k v d =
     AList.update k ((case map_of d k of None \<Rightarrow> [] | Some l \<Rightarrow> l) @ [v]) d"

text \<open>
  The last part of the loop body: every consumer of every output tensor that was not
  enqueued before is appended to the queue and marked.
\<close>

definition successors :: "graph \<Rightarrow> node \<Rightarrow> node list" where
  "successors g cur_node = concat (map (consumers g) (node_outputs cur_node))"

definition enqueue :: "node \<Rightarrow> node list \<times> string set \<Rightarrow> node list \<times> string set" where
  "enqueue out_node qv =
     (case qv of (queue, visited) \<Rightarrow>
        if node_name out_node \<in> visited then (queue, visited)
        else (queue @ [out_node], insert (node_name out_node) visited))"

lemma successors_subset: "set (successors g n) \<subseteq> set (nodes g)"
  by (auto simp: successors_def consumers_def)

lemma fold_enqueue_measure:
  "finite N \<Longrightarrow> node_name ` set xs \<subseteq> N \<Longrightarrow> fold enqueue xs (q, v) = (q', v') \<Longrightarrow>
   length q' + card (N - v') = length q + card (N - v)"
proof (induction xs arbitrary: q v)
  case Nil
  then show ?case by simp
next
  case (Cons x xs)
  show ?case
  proof (cases "node_name x \<in> v")
    case True
    then have "enqueue x (q, v) = (q, v)"
      by (simp add: enqueue_def)
    with Cons.prems have "fold enqueue xs (q, v) = (q', v')"
      by simp
    with Cons show ?thesis by simp
  next
    case False
    then have "enqueue x (q, v) = (q @ [x], insert (node_name x) v)"
      by (simp add: enqueue_def)
    with Cons.prems have f: "fold enqueue xs (q @ [x], insert (node_name x) v) = (q', v')"
      by simp
    have "length q' + card (N - v') = length (q @ [x]) + card (N - insert (node_name x) v)"
      using Cons.IH [OF Cons.prems(1) _ f] Cons.prems(2) by simp
    moreover have "node_name x \<in> N - v"
      using False Cons.prems(2) by simp
    then have "card (N - insert (node_name x) v) + 1 = card (N - v)"
      using Cons.prems(1)
      by (metis Diff_insert Suc_eq_plus1 card_Suc_Diff1 finite_Diff)
    ultimately show ?thesis by simp
  qed
qed

lemma bfs_measure:
  assumes "(queue', visited') = fold enqueue (successors g cur_node) (queue, visited)"
  shows "length queue' + card (node_name ` set (nodes g) - visited')
         < Suc (length queue + card (node_name ` set (nodes g) - visited))"
proof -
  have f: "fold enqueue (successors g cur_node) (queue, visited) = (queue', visited')"
    using assms by simp
  have "length queue' + card (node_name ` set (nodes g) - visited')
        = length queue + card (node_name ` set (nodes g) - visited)"
    by (rule fold_enqueue_measure [OF _ _ f]) (use successors_subset in auto)
  then show ?thesis by simp
qed

text \<open>
  The breadth-first loop \<^verbatim>\<open>while len(queue) > 0\<close>, with its six variables as arguments.
  It stops because a node enters the queue at most once.
\<close>

function bfs ::
  "graph \<Rightarrow> node list \<Rightarrow> string set \<Rightarrow> frame_name list \<Rightarrow> frame_name list \<Rightarrow>
   (string \<times> frame_name list) list \<Rightarrow> (frame_name \<times> string list) list \<Rightarrow>
   error + ((string \<times> frame_name list) list \<times> (frame_name \<times> string list) list)" where
  "bfs g [] visited frame_name_stack frame_name_tuple n2f f2n = Inr (n2f, f2n)"
| "bfs g (cur_node # queue) visited frame_name_stack frame_name_tuple n2f f2n =
     (case update_frame_stack cur_node frame_name_stack frame_name_tuple of
        Inl e \<Rightarrow> Inl e
      | Inr (st, tp) \<Rightarrow>
          (case fold enqueue (successors g cur_node) (queue, visited) of
             (queue', visited') \<Rightarrow>
               bfs g queue' visited' st tp
                 (AList.update (node_name cur_node) tp n2f)
                 (fold (\<lambda>frame_name. setdefault_append frame_name (node_name cur_node)) st f2n)))"
  by pat_completeness auto
termination
  by (relation "measure (\<lambda>(g, queue, visited, st, tp, n2f, f2n).
          length queue + card (node_name ` set (nodes g) - visited))")
     (simp_all add: bfs_measure)

declare bfs.simps [simp del]

text \<open>
  \<^verbatim>\<open>_generate_node_to_frame_name\<close>: the queue starts with the nodes that have no data
  input, the stack with \<^verbatim>\<open>None\<close>, the tuple empty; the tables are stored only when the
  loop ends without an error.
\<close>

definition frame_analysis ::
  "graph \<Rightarrow> error + ((string \<times> frame_name list) list \<times> (frame_name \<times> string list) list)" where
  "frame_analysis g =
     (let queue = filter (\<lambda>n. 0 = length (inputs n)) (nodes g)
      in bfs g queue (set (map node_name queue)) [None] [] [] [])"

definition generate_node_to_frame_name :: "graph \<Rightarrow> (error + unit) \<times> graph" where
  "generate_node_to_frame_name g =
     (case frame_analysis g of
        Inl e \<Rightarrow> (Inl e, g)
      | Inr (n2f, f2n) \<Rightarrow>
          (Inr (), g\<lparr>node_to_frame_names_cache := Some n2f,
                     frame_name_to_nodes_cache := Some f2n\<rparr>))"

text \<open>
  The three readers share their first two lines:
  \<^verbatim>\<open>if self._node_to_frame_names is None: self._generate_node_to_frame_name()\<close>.
  The lookups that follow are plain subscripts, so a missing key raises \<^verbatim>\<open>KeyError\<close>.
\<close>

definition ensure_frame_tables :: "graph \<Rightarrow> (error + unit) \<times> graph" where
  "ensure_frame_tables g =
     (if node_to_frame_names_cache g = None then generate_node_to_frame_name g
      else (Inr (), g))"

definition node_to_frame_names :: "graph \<Rightarrow> node \<Rightarrow> (error + frame_name list) \<times> graph" where
  "node_to_frame_names g n =
     (case ensure_frame_tables g of
        (Inl e, g') \<Rightarrow> (Inl e, g')
      | (Inr u, g') \<Rightarrow>
          (case node_to_frame_names_cache g' of
             None \<Rightarrow> (Inl (TypeError ''NoneType object is not subscriptable''), g')
           | Some tbl \<Rightarrow>
               (case map_of tbl (node_name n) of
                  None \<Rightarrow> (Inl (KeyError (node_name n)), g')
                | Some names \<Rightarrow> (Inr names, g'))))"

definition frame_name_to_nodes :: "graph \<Rightarrow> frame_name \<Rightarrow> (error + string list) \<times> graph" where
  "frame_name_to_nodes g frame_name =
     (case ensure_frame_tables g of
        (Inl e, g') \<Rightarrow> (Inl e, g')
      | (Inr u, g') \<Rightarrow>
          (case frame_name_to_nodes_cache g' of
             None \<Rightarrow> (Inl (TypeError ''NoneType object is not subscriptable''), g')
           | Some tbl \<Rightarrow>
               (case map_of tbl frame_name of
                  None \<Rightarrow> (Inl (KeyError ''frame_name''), g')
                | Some ns \<Rightarrow> (Inr ns, g'))))"

definition get_frame_names :: "graph \<Rightarrow> (error + frame_name list) \<times> graph" where
  "get_frame_names g =
     (case ensure_frame_tables g of
        (Inl e, g') \<Rightarrow> (Inl e, g')
      | (Inr u, g') \<Rightarrow>
          (case frame_name_to_nodes_cache g' of
             None \<Rightarrow> (Inl (TypeError ''NoneType object has no attribute keys''), g')
           | Some tbl \<Rightarrow> (Inr (map fst tbl), g')))"

text \<open>
  The nodes the traversal can reach: those without data input, and every consumer of an
  output tensor of a node that can be reached.
\<close>

inductive reachable :: "graph \<Rightarrow> string \<Rightarrow> bool" for g :: graph where
  root: "n \<in> set (nodes g) \<Longrightarrow> inputs n = [] \<Longrightarrow> reachable g (node_name n)"
| step: "m \<in> set (nodes g) \<Longrightarrow> reachable g (node_name m) \<Longrightarrow> t \<in> set (node_outputs m) \<Longrightarrow>
         n \<in> set (consumers g t) \<Longrightarrow> reachable g (node_name n)"

section \<open>Transformation results (graph_def_editor/transform.py)\<close>

text \<open>
  The transformer works on graph objects, and it matters whether two of them are the same
  object.  A store holds the graphs under their identities; a reference to a node names its graph
  by that identity, and a tensor is its node and an output index, which is the value-based
  identity the specification gives to tensors.  The class \<^verbatim>\<open>Graph\<close> that
  transform.py imports is not among the source files; the model uses the one of
  pge/graph.py.
\<close>

type_synonym store = "(nat \<times> graph) list"

text \<open>
  \<^verbatim>\<open>elem.name\<close>: the name of a node; for a tensor, the name of its node and its index
  (modelled from the wire format \<^verbatim>\<open>name:index\<close> of the specification).
\<close>

definition elem_name :: "elem \<Rightarrow> string" where
  "elem_name x =
     (case x of
        ElemNode r \<Rightarrow> snd r
      | ElemTensor t \<Rightarrow> snd (fst t) @ '':'' @ str_of_nat (snd t)
      | ElemStr s \<Rightarrow> s
      | ElemOther \<Rightarrow> [])"

record transformer_info =
  ti_graph :: nat
  ti_scope :: string
  ti_graph_dst :: nat
  ti_scope_dst :: string
  ti_transformed_ops :: "(node_ref \<times> node_ref) list"
  ti_transformed_ts :: "(tensor_ref \<times> tensor_ref) list"

text \<open>
  \<^verbatim>\<open>_get_transformed_map\<close>: the container for a node, the container for a tensor, and a
  \<^verbatim>\<open>TypeError\<close> for everything else, a string included.
\<close>

definition get_transformed_map :: "transformer_info \<Rightarrow> elem \<Rightarrow> error + (elem \<times> elem) list" where
  "get_transformed_map self elem_top =
     (case elem_top of
        ElemNode r \<Rightarrow> Inr (map (\<lambda>(a, b). (ElemNode a, ElemNode b)) (ti_transformed_ops self))
      | ElemTensor t \<Rightarrow> Inr (map (\<lambda>(a, b). (ElemTensor a, ElemTensor b)) (ti_transformed_ts self))
      | _ \<Rightarrow> Inl (TypeError ''Expected a gde.Tensor or a gde.Node''))"

definition is_string :: "elem \<Rightarrow> bool" where
  "is_string x = (case x of ElemStr s \<Rightarrow> True | _ \<Rightarrow> False)"

text \<open>
  \<^verbatim>\<open>return None if missing_fn is None else missing_fn(top)\<close>; the result \<open>None\<close> is
  Python's \<^verbatim>\<open>None\<close>.
\<close>

definition missing :: "(elem \<Rightarrow> elem) option \<Rightarrow> elem \<Rightarrow> elem option" where
  "missing missing_fn elem_top =
     (case missing_fn of None \<Rightarrow> None | Some f \<Rightarrow> Some (f elem_top))"

text \<open>
  \<^verbatim>\<open>_transformed_elem\<close>.  The container is fetched first; then a string is looked up by
  name in a scan of the items, and anything else by key.
\<close>

definition transformed_elem ::
  "transformer_info \<Rightarrow> elem \<Rightarrow> (elem \<Rightarrow> elem) option \<Rightarrow> error + elem option" where
  "transformed_elem self original_top missing_fn =
     (case get_transformed_map self original_top of
        Inl e \<Rightarrow> Inl e
      | Inr transformed_map \<Rightarrow>
          (if is_string original_top then
             (case find (\<lambda>(original, transformed). ElemStr (elem_name original) = original_top)
                     transformed_map of
                Some (original, transformed) \<Rightarrow> Inr (Some transformed)
              | None \<Rightarrow> Inr (missing missing_fn original_top))
           else
             (case map_of transformed_map original_top of
                None \<Rightarrow> Inr (missing missing_fn original_top)
              | Some transformed \<Rightarrow> Inr (Some transformed))))"

text \<open>\<^verbatim>\<open>_original_elem\<close>: one scan of the items, by name for a string, by equality else.\<close>

definition original_elem ::
  "transformer_info \<Rightarrow> elem \<Rightarrow> (elem \<Rightarrow> elem) option \<Rightarrow> error + elem option" where
  "original_elem self transformed_top missing_fn =
     (case get_transformed_map self transformed_top of
        Inl e \<Rightarrow> Inl e
      | Inr transformed_map \<Rightarrow>
          (let check_name = is_string transformed_top
           in case find (\<lambda>(original, transformed).
                      (check_name \<and> ElemStr (elem_name transformed) = transformed_top) \<or>
                      (\<not> check_name \<and> transformed = transformed_top)) transformed_map of
                Some (original, transformed) \<Rightarrow> Inr (Some original)
              | None \<Rightarrow> Inr (missing missing_fn transformed_top)))"

subsection \<open>Trees of arguments\<close>

text \<open>
  Modelled from the spec: \<^verbatim>\<open>util.transform_tree\<close> applies a function to every leaf of an
  arbitrarily nested structure of sequences and mappings and keeps the shape;
  \<^verbatim>\<open>_flatten_tree\<close> collects the leaves in order.  The first error of a leaf is the error
  of the whole.
\<close>

datatype 'a tree = Leaf 'a | Seq "'a tree list" | Dict "(string \<times> 'a tree) list"

fun flatten_tree :: "'a tree \<Rightarrow> 'a list" where
  "flatten_tree (Leaf x) = [x]"
| "flatten_tree (Seq ts) = concat (map flatten_tree ts)"
| "flatten_tree (Dict kvs) = concat (map (\<lambda>kv. flatten_tree (snd kv)) kvs)"

fun transform_tree :: "('a \<Rightarrow> error + 'b) \<Rightarrow> 'a tree \<Rightarrow> error + 'b tree"
  and transform_trees :: "('a \<Rightarrow> error + 'b) \<Rightarrow> 'a tree list \<Rightarrow> error + 'b tree list"
  and transform_items ::
    "('a \<Rightarrow> error + 'b) \<Rightarrow> (string \<times> 'a tree) list \<Rightarrow> error + (string \<times> 'b tree) list" where
  "transform_tree fn (Leaf x) = (case fn x of Inl e \<Rightarrow> Inl e | Inr y \<Rightarrow> Inr (Leaf y))"
| "transform_tree fn (Seq ts) =
     (case transform_trees fn ts of Inl e \<Rightarrow> Inl e | Inr ts' \<Rightarrow> Inr (Seq ts'))"
| "transform_tree fn (Dict kvs) =
     (case transform_items fn kvs of Inl e \<Rightarrow> Inl e | Inr kvs' \<Rightarrow> Inr (Dict kvs'))"
| "transform_trees fn [] = Inr []"
| "transform_trees fn (t # ts) =
     (case transform_tree fn t of
        Inl e \<Rightarrow> Inl e
      | Inr t' \<Rightarrow> (case transform_trees fn ts of Inl e \<Rightarrow> Inl e | Inr ts' \<Rightarrow> Inr (t' # ts')))"
| "transform_items fn [] = Inr []"
| "transform_items fn ((k, t) # kvs) =
     (case transform_tree fn t of
        Inl e \<Rightarrow> Inl e
      | Inr t' \<Rightarrow>
          (case transform_items fn kvs of Inl e \<Rightarrow> Inl e | Inr kvs' \<Rightarrow> Inr ((k, t') # kvs')))"

text \<open>\<^verbatim>\<open>TransformerInfo.transformed\<close> and \<^verbatim>\<open>TransformerInfo.original\<close>\<close>

definition transformed ::
  "transformer_info \<Rightarrow> elem tree \<Rightarrow> (elem \<Rightarrow> elem) option \<Rightarrow> error + elem option tree" where
  "transformed self original_tree missing_fn =
     transform_tree (\<lambda>leaf. transformed_elem self leaf missing_fn) original_tree"

definition original ::
  "transformer_info \<Rightarrow> elem tree \<Rightarrow> (elem \<Rightarrow> elem) option \<Rightarrow> error + elem option tree" where
  "original self transformed_tree missing_fn =
     transform_tree (\<lambda>leaf. original_elem self leaf missing_fn) transformed_tree"

section \<open>The transformer\<close>

subsection \<open>Reading the store\<close>

text \<open>
  A reference held by a Python object always names a live object; on a reference that
  names nothing the readers give the empty graph and an empty node of that name.
\<close>

definition graph_of :: "store \<Rightarrow> nat \<Rightarrow> graph" where
  "graph_of st gid = (case map_of st gid of Some g \<Rightarrow> g | None \<Rightarrow> empty_graph)"

definition put_graph :: "store \<Rightarrow> nat \<Rightarrow> graph \<Rightarrow> store" where
  "put_graph st gid g = AList.update gid g st"

definition node_of :: "store \<Rightarrow> node_ref \<Rightarrow> node" where
  "node_of st r =
     (case map_of (node_name_to_node (graph_of st (fst r))) (snd r) of
        Some n \<Rightarrow> n
      | None \<Rightarrow> Node 0 (snd r) [])"

definition op_inputs :: "store \<Rightarrow> node_ref \<Rightarrow> tensor_ref list" where
  "op_inputs st r = map (\<lambda>t. ((fst r, fst t), snd t)) (inputs (node_of st r))"

definition op_outputs :: "store \<Rightarrow> node_ref \<Rightarrow> tensor_ref list" where
  "op_outputs st r = map (\<lambda>i. (r, i)) [0..<length (outputs (node_of st r))]"

definition op_control_inputs :: "store \<Rightarrow> node_ref \<Rightarrow> node_ref list" where
  "op_control_inputs st r = map (\<lambda>n. (fst r, n)) (control_inputs (node_of st r))"

subsection \<open>Sequencing\<close>

text \<open>
  A statement of the source runs on a state and either raises, leaving the state as it
  is then, or returns a value.  \<open>bind_action\<close> is the semicolon, \<open>map_action\<close> a list
  comprehension and \<open>for_action\<close> a \<^verbatim>\<open>for\<close> loop whose body may raise.
\<close>

definition bind_action ::
  "('s \<Rightarrow> (error + 'a) \<times> 's) \<Rightarrow> ('a \<Rightarrow> 's \<Rightarrow> (error + 'b) \<times> 's) \<Rightarrow> 's \<Rightarrow> (error + 'b) \<times> 's" where
  "bind_action m f s = (case m s of (Inl e, s') \<Rightarrow> (Inl e, s') | (Inr x, s') \<Rightarrow> f x s')"

fun map_action ::
  "('a \<Rightarrow> 's \<Rightarrow> (error + 'b) \<times> 's) \<Rightarrow> 'a list \<Rightarrow> 's \<Rightarrow> (error + 'b list) \<times> 's" where
  "map_action f [] s = (Inr [], s)"
| "map_action f (x # xs) s =
     (case f x s of
        (Inl e, s') \<Rightarrow> (Inl e, s')
      | (Inr y, s') \<Rightarrow>
          (case map_action f xs s' of
             (Inl e, s'') \<Rightarrow> (Inl e, s'')
           | (Inr ys, s'') \<Rightarrow> (Inr (y # ys), s'')))"

fun for_action ::
  "('a \<Rightarrow> 's \<Rightarrow> (error + unit) \<times> 's) \<Rightarrow> 'a list \<Rightarrow> 's \<Rightarrow> (error + unit) \<times> 's" where
  "for_action f [] s = (Inr (), s)"
| "for_action f (x # xs) s =
     (case f x s of
        (Inl e, s') \<Rightarrow> (Inl e, s')
      | (Inr u, s') \<Rightarrow> for_action f xs s')"

subsection \<open>What the source files do not hold\<close>

text \<open>
  A sub-graph view: its graph, its interior nodes and its ordered boundary tensors.
\<close>

record sub_graph_view =
  sgv_graph :: nat
  sgv_ops :: "node_ref list"
  sgv_inputs :: "tensor_ref list"
  sgv_outputs :: "tensor_ref list"

text \<open>
  The methods of \<^verbatim>\<open>Node\<close>, \<^verbatim>\<open>Tensor\<close> and \<^verbatim>\<open>SubGraphView\<close> and the functions of
  \<^verbatim>\<open>util\<close> and \<^verbatim>\<open>select\<close> that transform.py calls are not among the source files.  They
  are parameters of the model, collected in one record; each may change the graphs of the
  store and may raise.  The record also carries the lowering of strings that the graphs
  compare names with.
\<close>

record env =
  str_lower :: lowering
  to_node_def :: "node \<Rightarrow> node_def"
  set_inputs :: "node_ref \<Rightarrow> tensor_ref list \<Rightarrow> store \<Rightarrow> (error + unit) \<times> store"
  set_outputs_from_pairs ::
    "node_ref \<Rightarrow> (string \<times> int list) list \<Rightarrow> store \<Rightarrow> (error + unit) \<times> store"
  infer_outputs :: "node_ref \<Rightarrow> store \<Rightarrow> (error + unit) \<times> store"
  set_control_inputs :: "node_ref \<Rightarrow> node_ref list \<Rightarrow> store \<Rightarrow> (error + unit) \<times> store"
  replace_input :: "node_ref \<Rightarrow> nat \<Rightarrow> tensor_ref \<Rightarrow> store \<Rightarrow> (error + unit) \<times> store"
  add_to_collection :: "elem \<Rightarrow> string \<Rightarrow> store \<Rightarrow> (error + unit) \<times> store"
  make_placeholder_from_tensor ::
    "nat \<Rightarrow> tensor_ref \<Rightarrow> string \<Rightarrow> string option \<Rightarrow> store \<Rightarrow> (error + tensor_ref) \<times> store"
  set_inputs_from_strings :: "graph \<Rightarrow> string \<Rightarrow> string list \<Rightarrow> bool \<Rightarrow> (error + unit) \<times> graph"
  get_predefined_collection_names :: "string list"
  make_view :: "node_ref list \<Rightarrow> store \<Rightarrow> error + sub_graph_view"
  remap :: "sub_graph_view \<Rightarrow> nat list \<Rightarrow> nat list \<Rightarrow> error + sub_graph_view"
  get_walks_intersection_ops ::
    "tensor_ref list \<Rightarrow> tensor_ref list \<Rightarrow> store \<Rightarrow> error + node_ref list"
  colocation_groups :: "graph \<Rightarrow> string list list"

text \<open>
  Modelled from the spec: \<^verbatim>\<open>util.scope_finalize\<close> returns the scope ending in a single
  separator unless it is empty.
\<close>

definition scope_finalize :: "string \<Rightarrow> string" where
  "scope_finalize scope =
     (if scope \<noteq> [] \<and> last scope \<noteq> CHR ''/'' then scope @ ''/'' else scope)"

subsection \<open>The temporary data of one call\<close>

text \<open>
  \<^verbatim>\<open>_TmpInfo\<close>.  The fields \<^verbatim>\<open>graph\<close>, \<^verbatim>\<open>scope\<close>, \<^verbatim>\<open>graph_\<close> and \<^verbatim>\<open>scope_\<close> of the
  source are \<open>info_graph\<close>, \<open>info_scope\<close>, \<open>info_graph_dst\<close> and \<open>info_scope_dst\<close>;
  throughout, a name of the source that ends in an underscore ends in a prime here.
  The fields \<^verbatim>\<open>control_outputs\<close>, \<^verbatim>\<open>cyclic_ops\<close> and
  \<^verbatim>\<open>transform_original_op_handler\<close> are never read and are left out; the collections
  are those of the source graph when the call starts.
\<close>

record tmp_info =
  info_sgv :: sub_graph_view
  sgv_inputs_set :: "tensor_ref set"
  info_ops :: "node_ref set"
  info_graph :: nat
  info_scope :: string
  info_graph_dst :: nat
  info_scope_dst :: string
  transformed_ops :: "(node_ref \<times> node_ref) list"
  transformed_ts :: "(tensor_ref \<times> tensor_ref) list"
  info_collections :: "(string \<times> elem list) list"
  tmp_cyclic_ts :: "(tensor_ref \<times> tensor_ref \<times> node_ref) list"

definition TmpInfo :: "sub_graph_view \<Rightarrow> nat \<Rightarrow> string \<Rightarrow> string \<Rightarrow> store \<Rightarrow> tmp_info" where
  "TmpInfo sgv dst_graph dst_scope src_scope st =
     \<lparr>info_sgv = sgv,
      sgv_inputs_set = set (sgv_inputs sgv),
      info_ops = set (sgv_ops sgv),
      info_graph = sgv_graph sgv,
      info_scope = src_scope,
      info_graph_dst = dst_graph,
      info_scope_dst = dst_scope,
      transformed_ops = [],
      transformed_ts = [],
      info_collections = collections (graph_of st (sgv_graph sgv)),
      tmp_cyclic_ts = []\<rparr>"

definition TransformerInfo :: "tmp_info \<Rightarrow> transformer_info" where
  "TransformerInfo info =
     \<lparr>ti_graph = info_graph info, ti_scope = info_scope info,
      ti_graph_dst = info_graph_dst info, ti_scope_dst = info_scope_dst info,
      ti_transformed_ops = transformed_ops info, ti_transformed_ts = transformed_ts info\<rparr>"

text \<open>\<^verbatim>\<open>_TmpInfo.new_name\<close>\<close>

definition new_name :: "tmp_info \<Rightarrow> string \<Rightarrow> error + string" where
  "new_name info name =
     (let scope = info_scope info
      in if take (length scope) name \<noteq> scope
         then Inl (ValueError ''name does not belong to source scope'')
         else (let rel_name = drop (length scope) name
               in Inr (info_scope_dst info @ rel_name)))"

subsection \<open>The handlers\<close>

record transformer =
  transform_op_handler ::
    "tmp_info \<Rightarrow> node_ref \<Rightarrow> tensor_ref list \<Rightarrow> store \<Rightarrow>
     (error + node_ref \<times> tensor_ref list) \<times> store"
  transform_control_input_handler ::
    "tmp_info \<Rightarrow> node_ref \<Rightarrow> store \<Rightarrow> (error + node_ref option) \<times> store"
  assign_collections_handler ::
    "tmp_info \<Rightarrow> elem \<Rightarrow> elem \<Rightarrow> store \<Rightarrow> (error + unit) \<times> store"
  transform_external_input_handler ::
    "tmp_info \<Rightarrow> tensor_ref \<Rightarrow> store \<Rightarrow> (error + tensor_ref) \<times> store"
  transform_external_hidden_input_handler ::
    "tmp_info \<Rightarrow> tensor_ref \<Rightarrow> store \<Rightarrow> (error + tensor_ref) \<times> store"
  transform_original_op_handler ::
    "tmp_info \<Rightarrow> node_ref \<Rightarrow> store \<Rightarrow> (error + node_ref option) \<times> store"

definition replace_t_with_placeholder_handler ::
  "env \<Rightarrow> tmp_info \<Rightarrow> tensor_ref \<Rightarrow> store \<Rightarrow> (error + tensor_ref) \<times> store" where
  "replace_t_with_placeholder_handler env info t =
     make_placeholder_from_tensor env (info_graph_dst info) t (info_scope_dst info) None"

definition keep_t_if_possible_handler ::
  "env \<Rightarrow> tmp_info \<Rightarrow> tensor_ref \<Rightarrow> store \<Rightarrow> (error + tensor_ref) \<times> store" where
  "keep_t_if_possible_handler env info t st =
     (if info_graph info = info_graph_dst info then (Inr t, st)
      else replace_t_with_placeholder_handler env info t st)"

definition assign_renamed_collections_handler ::
  "env \<Rightarrow> tmp_info \<Rightarrow> elem \<Rightarrow> elem \<Rightarrow> store \<Rightarrow> (error + unit) \<times> store" where
  "assign_renamed_collections_handler env info el el' =
     for_action
       (\<lambda>(name, collection) st.
          if el \<notin> set collection then (Inr (), st)
          else
            (case (if name \<in> set (get_predefined_collection_names env) then Inr name
                   else new_name info name) of
               Inl e \<Rightarrow> (Inl e, st)
             | Inr transformed_name \<Rightarrow>
                 (case el' of
                    ElemNode r \<Rightarrow> add_to_collection env el' transformed_name st
                  | ElemTensor t \<Rightarrow> add_to_collection env el' transformed_name st
                  | _ \<Rightarrow> (Inl (NotImplementedError
                             ''Do not know how to add name to target graph''), st))))
       (info_collections info)"

definition transform_op_if_inside_handler ::
  "bool \<Rightarrow> tmp_info \<Rightarrow> node_ref \<Rightarrow> store \<Rightarrow> (error + node_ref option) \<times> store" where
  "transform_op_if_inside_handler keep_if_possible info op st =
     (if op \<in> set (sgv_ops (info_sgv info)) then
        (case map_of (transformed_ops info) op of
           None \<Rightarrow> (Inl (KeyError (snd op)), st)
         | Some op' \<Rightarrow> (Inr (Some op'), st))
      else if keep_if_possible \<and> info_graph info = info_graph_dst info then (Inr (Some op), st)
      else (Inr None, st))"

subsection \<open>Copying one node\<close>

definition COLOCATION_ATTR_NAME :: string where
  "COLOCATION_ATTR_NAME = ''_class''"

definition COLOCATION_PREFIX :: string where
  "COLOCATION_PREFIX = ''loc:@''"

text \<open>
  \<^verbatim>\<open>cg_attr.list.s\<close>: the strings of a list attribute, and no string for an attribute of
  another kind (a repeated field of a protocol buffer is never \<^verbatim>\<open>None\<close>, so the
  \<^verbatim>\<open>ValueError\<close> of the source cannot be raised).
\<close>

definition list_s :: "attr_value \<Rightarrow> string list" where
  "list_s v = (case v of AttrList l \<Rightarrow> l | _ \<Rightarrow> [])"

definition with_list_s :: "attr_value \<Rightarrow> string list \<Rightarrow> attr_value" where
  "with_list_s v l = (case v of AttrList l0 \<Rightarrow> AttrList l | _ \<Rightarrow> v)"

text \<open>
  The loop over the colocation groups: each entry loses its first five characters, the
  rest goes through \<^verbatim>\<open>info.new_name\<close>, and the prefix is put back.
\<close>

fun transform_colocation :: "tmp_info \<Rightarrow> string list \<Rightarrow> error + string list" where
  "transform_colocation info [] = Inr []"
| "transform_colocation info (old_cg_str # rest) =
     (let old_node_name = drop_chars (length COLOCATION_PREFIX) old_cg_str
      in case new_name info old_node_name of
           Inl e \<Rightarrow> Inl e
         | Inr new_node_name \<Rightarrow>
             (case transform_colocation info rest of
                Inl e \<Rightarrow> Inl e
              | Inr rest' \<Rightarrow> Inr ((COLOCATION_PREFIX @ new_node_name) # rest')))"

text \<open>
  \<^verbatim>\<open>copy_op_handler\<close>.  The name of the copy is the translated name made unique in the
  destination graph; the names in the colocation groups are translated only.
\<close>

definition copy_op_handler ::
  "env \<Rightarrow> bool \<Rightarrow> (node_def \<Rightarrow> node_def) option \<Rightarrow>
   tmp_info \<Rightarrow> node_ref \<Rightarrow> tensor_ref list \<Rightarrow> store \<Rightarrow>
   (error + node_ref \<times> tensor_ref list) \<times> store" where
  "copy_op_handler env copy_shape_and_dtype nodedef_fn info op new_inputs st =
     (let node_def0 = to_node_def env (node_of st op)
      in case new_name info (node_name (node_of st op)) of
           Inl e \<Rightarrow> (Inl e, st)
         | Inr name0 \<Rightarrow>
             (let name' = unique_name (str_lower env) (graph_of st (info_graph_dst info)) name0;
                  node_def1 = node_def0\<lparr>nd_name := name'\<rparr>
              in case (case map_of (nd_attr node_def1) COLOCATION_ATTR_NAME of
                         None \<Rightarrow> Inr node_def1
                       | Some cg_attr \<Rightarrow>
                           (case transform_colocation info (list_s cg_attr) of
                              Inl e \<Rightarrow> Inl e
                            | Inr cg_attr_list \<Rightarrow>
                                Inr (node_def1\<lparr>nd_attr :=
                                       AList.update COLOCATION_ATTR_NAME
                                         (with_list_s cg_attr cg_attr_list)
                                         (nd_attr node_def1)\<rparr>))) of
                   Inl e \<Rightarrow> (Inl e, st)
                 | Inr node_def2 \<Rightarrow>
                     (let node_def3 = (case nodedef_fn of
                                         None \<Rightarrow> node_def2
                                       | Some f \<Rightarrow> f node_def2)
                      in case add_node_from_node_def (str_lower env) (set_inputs_from_strings env)
                                (graph_of st (info_graph_dst info)) node_def3 False False of
                           (Inl e, g') \<Rightarrow> (Inl e, put_graph st (info_graph_dst info) g')
                         | (Inr n', g') \<Rightarrow>
                             (let op' = (info_graph_dst info, node_name n')
                              in bind_action (set_inputs env op' new_inputs)
                                   (\<lambda>u. bind_action
                                      (\<lambda>s. if copy_shape_and_dtype
                                            then set_outputs_from_pairs env op'
                                                   (outputs (node_of s op)) s
                                            else infer_outputs env op' s)
                                      (\<lambda>u s. (Inr (op', op_outputs s op'), s)))
                                   (put_graph st (info_graph_dst info) g')))))"

text \<open>The handlers of \<^verbatim>\<open>Transformer()\<close>.\<close>

definition Transformer :: "env \<Rightarrow> transformer" where
  "Transformer env =
     \<lparr>transform_op_handler = copy_op_handler env False None,
      transform_control_input_handler = transform_op_if_inside_handler True,
      assign_collections_handler = assign_renamed_collections_handler env,
      transform_external_input_handler = replace_t_with_placeholder_handler env,
      transform_external_hidden_input_handler = keep_t_if_possible_handler env,
      transform_original_op_handler = transform_op_if_inside_handler True\<rparr>"

subsection \<open>Copying the nodes of a view\<close>

text \<open>
  \<^verbatim>\<open>_transformed_t\<close>.  The method calls itself for a cyclic input of a \<^verbatim>\<open>Merge\<close> and
  for the output of an \<^verbatim>\<open>Enter\<close>; the first argument is the depth of recursion that
  Python still allows, and running out of it is Python's \<^verbatim>\<open>RecursionError\<close>, a
  \<^verbatim>\<open>RuntimeError\<close>.  The state is the temporary data and the store.
\<close>

fun transformed_t ::
  "nat \<Rightarrow> env \<Rightarrow> transformer \<Rightarrow> tensor_ref \<Rightarrow> node_ref \<Rightarrow> tmp_info \<times> store \<Rightarrow>
   (error + tensor_ref) \<times> (tmp_info \<times> store)" where
  "transformed_t 0 env self t consumer_op s =
     (Inl (RuntimeError ''maximum recursion depth exceeded''), s)"
| "transformed_t (Suc depth) env self t consumer_op (info, st) =
     (case map_of (transformed_ts info) t of
        Some t' \<Rightarrow> (Inr t', (info, st))
      | None \<Rightarrow>
          if t \<in> sgv_inputs_set info then
            (case transform_external_input_handler self info t st of
               (r, st') \<Rightarrow> (r, (info, st')))
          else if fst t \<in> info_ops info then
            (case (if op_type (node_of st consumer_op) = ''Merge'' then
                     (case op_inputs st consumer_op of
                        [] \<Rightarrow> (Inl (IndexError ''list index out of range''), (info, st))
                      | first_input # rest \<Rightarrow>
                          transformed_t depth env self first_input consumer_op (info, st))
                   else if op_type (node_of st (fst t)) = ''Enter'' then
                     (case op_inputs st (fst t) of
                        [] \<Rightarrow> (Inl (IndexError ''list index out of range''), (info, st))
                      | enter_input # rest \<Rightarrow>
                          transformed_t depth env self enter_input consumer_op (info, st))
                   else
                     (case make_placeholder_from_tensor env (info_graph_dst info) t
                             (info_scope_dst info) (Some ''geph_tmp'') st of
                        (r, st') \<Rightarrow> (r, (info, st')))) of
               (Inl e, s') \<Rightarrow> (Inl e, s')
             | (Inr tmp_t', (info', st')) \<Rightarrow>
                 (Inr tmp_t',
                  (info'\<lparr>tmp_cyclic_ts := tmp_cyclic_ts info' @ [(t, tmp_t', consumer_op)]\<rparr>,
                   st')))
          else
            (case transform_external_hidden_input_handler self info t st of
               (r, st') \<Rightarrow> (r, (info, st'))))"

text \<open>
  The body of the loop of \<^verbatim>\<open>_copy_ops\<close> for one node, in three parts: the new inputs,
  the handler with the test that forbids an in-place transformation, and the records.
\<close>

definition record_outputs ::
  "transformer \<Rightarrow> (tensor_ref \<times> tensor_ref) list \<Rightarrow> tmp_info \<times> store \<Rightarrow>
   (error + unit) \<times> (tmp_info \<times> store)" where
  "record_outputs self pairs =
     for_action
       (\<lambda>(op_output, op_output') (info, st).
          (let info1 = info\<lparr>transformed_ts :=
                             AList.update op_output op_output' (transformed_ts info)\<rparr>
           in case assign_collections_handler self info1
                     (ElemTensor op_output) (ElemTensor op_output') st of
                (r, st') \<Rightarrow> (r, (info1, st'))))
       pairs"

definition record_op ::
  "transformer \<Rightarrow> node_ref \<Rightarrow> node_ref \<Rightarrow> tensor_ref list \<Rightarrow> tmp_info \<times> store \<Rightarrow>
   (error + unit) \<times> (tmp_info \<times> store)" where
  "record_op self op op' op_outputs' s =
     (case s of (info, st) \<Rightarrow>
        (let info1 = info\<lparr>transformed_ops := AList.update op op' (transformed_ops info)\<rparr>
         in case assign_collections_handler self info1 (ElemNode op) (ElemNode op') st of
              (Inl e, st1) \<Rightarrow> (Inl e, (info1, st1))
            | (Inr u, st1) \<Rightarrow>
                record_outputs self (zip (op_outputs st1 op) op_outputs') (info1, st1)))"

definition copy_op ::
  "nat \<Rightarrow> env \<Rightarrow> transformer \<Rightarrow> node_ref \<Rightarrow> tmp_info \<times> store \<Rightarrow>
   (error + unit) \<times> (tmp_info \<times> store)" where
  "copy_op depth env self op s =
     (case map_action (\<lambda>t. transformed_t depth env self t op) (op_inputs (snd s) op) s of
        (Inl e, s1) \<Rightarrow> (Inl e, s1)
      | (Inr new_inputs, (info1, st1)) \<Rightarrow>
          (case transform_op_handler self info1 op new_inputs st1 of
             (Inl e, st2) \<Rightarrow> (Inl e, (info1, st2))
           | (Inr (op', op_outputs'), st2) \<Rightarrow>
               if op = op'
               then (Inl (ValueError ''In-place transformation not allowed.''), (info1, st2))
               else record_op self op op' op_outputs' (info1, st2)))"

text \<open>\<^verbatim>\<open>_copy_ops\<close>: the nodes of the view in the order of their identities.\<close>

definition sorted_ops :: "tmp_info \<Rightarrow> store \<Rightarrow> node_ref list" where
  "sorted_ops info st =
     sort_key (\<lambda>n. id_in_graph (node_of st n)) (sgv_ops (info_sgv info))"

definition copy_ops ::
  "nat \<Rightarrow> env \<Rightarrow> transformer \<Rightarrow> tmp_info \<times> store \<Rightarrow> (error + unit) \<times> (tmp_info \<times> store)" where
  "copy_ops depth env self s =
     for_action (copy_op depth env self) (sorted_ops (fst s) (snd s)) s"

subsection \<open>The rest of a call\<close>

text \<open>\<^verbatim>\<open>list(xs).index(x)\<close>: the first position, or \<^verbatim>\<open>ValueError\<close>.\<close>

fun index_of :: "'a list \<Rightarrow> 'a \<Rightarrow> error + nat" where
  "index_of [] x = Inl (ValueError ''is not in list'')"
| "index_of (y # ys) x =
     (if y = x then Inr 0
      else (case index_of ys x of Inl e \<Rightarrow> Inl e | Inr i \<Rightarrow> Inr (Suc i)))"

text \<open>\<^verbatim>\<open>_finalize_cycles\<close>\<close>

definition finalize_cycles ::
  "env \<Rightarrow> tmp_info \<times> store \<Rightarrow> (error + unit) \<times> (tmp_info \<times> store)" where
  "finalize_cycles env s =
     for_action
       (\<lambda>(t, tmp_t', consumer_op) (info, st).
          (case map_of (transformed_ts info) t of
             None \<Rightarrow> (Inl (ValueError ''The tensor should be transformed by now.''), (info, st))
           | Some t' \<Rightarrow>
               (case map_of (transformed_ops info) consumer_op of
                  None \<Rightarrow>
                    (Inl (ValueError ''The op should be transformed by now.''), (info, st))
                | Some consumer_op' \<Rightarrow>
                    (case index_of (op_inputs st consumer_op') tmp_t' of
                       Inl e \<Rightarrow> (Inl e, (info, st))
                     | Inr t_index' \<Rightarrow>
                         (case replace_input env consumer_op' t_index' t' st of
                            (r, st') \<Rightarrow> (r, (info, st')))))))
       (tmp_cyclic_ts (fst s)) s"

text \<open>\<^verbatim>\<open>_connect_control_inputs\<close>\<close>

definition connect_control_inputs ::
  "env \<Rightarrow> transformer \<Rightarrow> tmp_info \<times> store \<Rightarrow> (error + unit) \<times> (tmp_info \<times> store)" where
  "connect_control_inputs env self s =
     for_action
       (\<lambda>op (info, st).
          (case map_of (transformed_ops info) op of
             None \<Rightarrow> (Inl (KeyError (snd op)), (info, st))
           | Some op' \<Rightarrow>
               (case map_action (\<lambda>ci. transform_control_input_handler self info ci)
                       (op_control_inputs st op) st of
                  (Inl e, st1) \<Rightarrow> (Inl e, (info, st1))
                | (Inr control_inputs', st1) \<Rightarrow>
                    (case set_control_inputs env op'
                            (concat (map (\<lambda>ci. case ci of None \<Rightarrow> [] | Some c \<Rightarrow> [c])
                                       control_inputs')) st1 of
                       (r, st2) \<Rightarrow> (r, (info, st2))))))
       (sgv_ops (info_sgv (fst s))) s"

text \<open>
  \<^verbatim>\<open>_transform_sgv\<close>: the view of the copies, with its boundary tensors in the order of the
  original view where a counterpart exists.
\<close>

definition reorder :: "tmp_info \<Rightarrow> tensor_ref list \<Rightarrow> tensor_ref list \<Rightarrow> nat list" where
  "reorder info ts ts' =
     concat (map (\<lambda>t. case map_of (transformed_ts info) t of
                         None \<Rightarrow> []
                       | Some t' \<Rightarrow> (case index_of ts' t' of Inl e \<Rightarrow> [] | Inr i \<Rightarrow> [i])) ts)"

definition transform_sgv :: "env \<Rightarrow> tmp_info \<Rightarrow> sub_graph_view \<Rightarrow> store \<Rightarrow> error + sub_graph_view" where
  "transform_sgv env info sgv st =
     (let ops' = map snd (transformed_ops info)
      in case make_view env ops' st of
           Inl e \<Rightarrow> Inl e
         | Inr sgv' \<Rightarrow>
             (let input_map' = reorder info (sgv_inputs sgv) (sgv_inputs sgv');
                  output_map' = reorder info (sgv_outputs sgv) (sgv_outputs sgv')
              in remap env sgv' input_map' output_map'))"

text \<open>
  \<^verbatim>\<open>Transformer.__call__\<close>, on a view that \<^verbatim>\<open>make_view\<close> has already made (it returns
  such an argument as it is).  \<open>call_info\<close> is its first part, up to the creation of the
  temporary data.
\<close>

definition call_info ::
  "env \<Rightarrow> sub_graph_view \<Rightarrow> nat \<Rightarrow> string \<Rightarrow> string \<Rightarrow> bool \<Rightarrow> store \<Rightarrow> tmp_info" where
  "call_info env sgv dst_graph dst_scope src_scope reuse_dst_scope st =
     (let src_scope1 = scope_finalize src_scope;
          dst_scope1 = scope_finalize dst_scope;
          dst_scope2 = (if dst_scope1 \<noteq> [] \<and> \<not> reuse_dst_scope
                        then scope_finalize
                               (unique_name (str_lower env) (graph_of st dst_graph)
                                  (butlast dst_scope1))
                        else dst_scope1)
      in TmpInfo sgv dst_graph dst_scope2 src_scope1 st)"

definition call ::
  "nat \<Rightarrow> env \<Rightarrow> transformer \<Rightarrow> sub_graph_view \<Rightarrow> nat \<Rightarrow> string \<Rightarrow> string \<Rightarrow> bool \<Rightarrow> store \<Rightarrow>
   (error + sub_graph_view \<times> transformer_info) \<times> store" where
  "call depth env self sgv dst_graph dst_scope src_scope reuse_dst_scope st =
     (let info = call_info env sgv dst_graph dst_scope src_scope reuse_dst_scope st
      in case bind_action (copy_ops depth env self)
                (\<lambda>u. bind_action (finalize_cycles env)
                   (\<lambda>u. connect_control_inputs env self)) (info, st) of
           (Inl e, (info', st')) \<Rightarrow> (Inl e, st')
         | (Inr u, (info', st')) \<Rightarrow>
             (let res_info = TransformerInfo info'
              in case transform_sgv env info' sgv st' of
                   Inl e \<Rightarrow> (Inl e, st')
                 | Inr sgv' \<Rightarrow> (Inr (sgv', res_info), st')))"

text \<open>
  \<^verbatim>\<open>copy_with_input_replacements\<close> with its local handler
  \<^verbatim>\<open>replace_t_with_replacement_handler\<close>; \<open>None\<close> for the destination graph is the
  graph of the view.
\<close>

definition replace_t_with_replacement_handler ::
  "env \<Rightarrow> (tensor_ref \<times> tensor_ref) list \<Rightarrow> tmp_info \<Rightarrow> tensor_ref \<Rightarrow> store \<Rightarrow>
   (error + tensor_ref) \<times> store" where
  "replace_t_with_replacement_handler env replacement_ts info t st =
     (case map_of replacement_ts t of
        Some r \<Rightarrow> (Inr r, st)
      | None \<Rightarrow> keep_t_if_possible_handler env info t st)"

definition copy_with_input_replacements ::
  "nat \<Rightarrow> env \<Rightarrow> node_ref list \<Rightarrow> (tensor_ref \<times> tensor_ref) list \<Rightarrow> nat option \<Rightarrow>
   string \<Rightarrow> string \<Rightarrow> bool \<Rightarrow> store \<Rightarrow>
   (error + sub_graph_view \<times> transformer_info) \<times> store" where
  "copy_with_input_replacements depth env ops replacement_ts dst_graph dst_scope src_scope
       reuse_dst_scope st =
     (case make_view env ops st of
        Inl e \<Rightarrow> (Inl e, st)
      | Inr sgv \<Rightarrow>
          (let dst_graph1 = (case dst_graph of None \<Rightarrow> sgv_graph sgv | Some g \<Rightarrow> g);
               copier = (Transformer env)\<lparr>transform_external_input_handler :=
                   replace_t_with_replacement_handler env replacement_ts\<rparr>
           in call depth env copier sgv dst_graph1 dst_scope src_scope reuse_dst_scope st))"

definition copy ::
  "nat \<Rightarrow> env \<Rightarrow> node_ref list \<Rightarrow> nat option \<Rightarrow> string \<Rightarrow> string \<Rightarrow> bool \<Rightarrow> store \<Rightarrow>
   (error + sub_graph_view \<times> transformer_info) \<times> store" where
  "copy depth env ops dst_graph dst_scope src_scope reuse_dst_scope st =
     (case make_view env ops st of
        Inl e \<Rightarrow> (Inl e, st)
      | Inr sgv \<Rightarrow>
          (let dst_graph1 = (case dst_graph of None \<Rightarrow> sgv_graph sgv | Some g \<Rightarrow> g)
           in call depth env (Transformer env) sgv dst_graph1 dst_scope src_scope
                reuse_dst_scope st))"

subsection \<open>Replacing tensors\<close>

text \<open>
  Python sets are lists without repetition here; \<open>list_union\<close> adds to the first list the
  members of the second that it lacks.
\<close>

definition list_union :: "'a list \<Rightarrow> 'a list \<Rightarrow> 'a list" where
  "list_union xs ys = xs @ filter (\<lambda>y. y \<notin> set xs) (remdups ys)"

text \<open>
  One pass over the colocation groups:
  \<^verbatim>\<open>if len(all_ops.intersection(group)) > 0: all_ops.update(group)\<close>
\<close>

definition add_group :: "'a list \<Rightarrow> 'a list \<Rightarrow> 'a list" where
  "add_group grp all_ops =
     (if set all_ops \<inter> set grp \<noteq> {} then list_union all_ops grp else all_ops)"

lemma add_group_grows:
  "add_group grp xs = xs \<or> set xs \<subset> set (add_group grp xs)"
proof (cases "set xs \<inter> set grp \<noteq> {} \<and> \<not> set grp \<subseteq> set xs")
  case True
  then show ?thesis
    by (auto simp: add_group_def list_union_def)
next
  case False
  then have "filter (\<lambda>y. y \<notin> set xs) (remdups grp) = [] \<or> set xs \<inter> set grp = {}"
    by (auto simp: filter_empty_conv)
  then show ?thesis
    by (auto simp: add_group_def list_union_def)
qed

lemma add_group_bounds:
  "set xs \<subseteq> set (add_group grp xs) \<and> set (add_group grp xs) \<subseteq> set xs \<union> set grp"
  by (auto simp: add_group_def list_union_def)

lemma fold_add_group_bounds:
  "set xs \<subseteq> set (fold add_group groups xs) \<and>
   set (fold add_group groups xs) \<subseteq> set xs \<union> \<Union> (set ` set groups)"
proof (induction groups arbitrary: xs)
  case Nil
  show ?case by simp
next
  case (Cons grp groups)
  from Cons [of "add_group grp xs"] add_group_bounds [of xs grp]
  show ?case by auto
qed

lemma fold_add_group_grows:
  "fold add_group groups xs = xs \<or> set xs \<subset> set (fold add_group groups xs)"
proof (induction groups arbitrary: xs)
  case Nil
  show ?case by simp
next
  case (Cons grp groups)
  from add_group_grows [of grp xs] show ?case
  proof
    assume "add_group grp xs = xs"
    with Cons [of xs] show ?thesis by simp
  next
    assume a: "set xs \<subset> set (add_group grp xs)"
    from fold_add_group_bounds [of "add_group grp xs" groups]
    have "set (add_group grp xs) \<subseteq> set (fold add_group groups (add_group grp xs))"
      by simp
    with a show ?thesis by auto
  qed
qed

lemma colocation_closure_measure:
  "(length all_ops \<noteq> length (fold add_group groups all_ops) \<longrightarrow>
      card (\<Union> (set ` set groups) - set (fold add_group groups all_ops))
      < card (\<Union> (set ` set groups) - set all_ops)) \<and>
   2 * card (\<Union> (set ` set groups) - set (fold add_group groups all_ops))
      < Suc (2 * card (\<Union> (set ` set groups) - set all_ops))"
proof -
  let ?G = "\<Union> (set ` set groups)"
  let ?A' = "fold add_group groups all_ops"
  have fin: "finite (?G - set all_ops)" by simp
  have "?G - set ?A' \<subseteq> ?G - set all_ops"
    using fold_add_group_bounds [of all_ops groups] by auto
  then have le: "card (?G - set ?A') \<le> card (?G - set all_ops)"
    using fin by (simp add: card_mono)
  have "card (?G - set ?A') < card (?G - set all_ops)" if "length all_ops \<noteq> length ?A'"
  proof -
    from that fold_add_group_grows [of groups all_ops] have a: "set all_ops \<subset> set ?A'"
      by auto
    then obtain x where x: "x \<in> set ?A'" "x \<notin> set all_ops" by auto
    with fold_add_group_bounds [of all_ops groups] have xg: "x \<in> ?G" by auto
    have "?G - set ?A' \<subset> ?G - set all_ops"
      using a x xg by auto
    then show ?thesis
      using fin by (simp add: psubset_card_mono)
  qed
  with le show ?thesis by simp
qed

text \<open>
  The loop \<^verbatim>\<open>while num_before != len(all_ops)\<close>, which repeats the pass until the set
  stops growing.
\<close>

function colocation_closure :: "'a list list \<Rightarrow> 'a list \<Rightarrow> int \<Rightarrow> 'a list" where
  "colocation_closure groups all_ops num_before =
     (if num_before \<noteq> int (length all_ops)
      then colocation_closure groups (fold add_group groups all_ops) (int (length all_ops))
      else all_ops)"
  by pat_completeness auto
termination
  by (relation "measure (\<lambda>(groups, all_ops, num_before).
          2 * card (\<Union> (set ` set groups) - set all_ops)
          + (if num_before \<noteq> int (length all_ops) then 1 else 0))")
     (simp_all add: colocation_closure_measure)

declare colocation_closure.simps [simp del]

text \<open>
  \<^verbatim>\<open>_add_control_flow_ops\<close>: the nodes of every frame that a node of \<open>ops\<close> is in, and
  the colocation groups that the set touches, are appended to \<open>ops\<close>.  The frame
  analysis may raise, and it stores its tables in the graph.
\<close>

definition add_control_flow_ops ::
  "env \<Rightarrow> node_ref list \<Rightarrow> store \<Rightarrow> (error + node_ref list) \<times> store" where
  "add_control_flow_ops env ops st =
     (case ops of
        [] \<Rightarrow> (Inl (IndexError ''list index out of range''), st)
      | op0 # rest \<Rightarrow>
          (let gid = fst op0
           in case map_action (\<lambda>op g. node_to_frame_names g (node_of st op)) ops
                     (graph_of st gid) of
                (Inl e, g1) \<Rightarrow> (Inl e, put_graph st gid g1)
              | (Inr tuples, g1) \<Rightarrow>
                  (let frame_names = remdups (concat tuples)
                   in case map_action (\<lambda>frame_name g. frame_name_to_nodes g frame_name)
                             frame_names g1 of
                        (Inl e, g2) \<Rightarrow> (Inl e, put_graph st gid g2)
                      | (Inr node_lists, g2) \<Rightarrow>
                          (let new_ops = remdups (concat node_lists);
                               all_ops = colocation_closure (colocation_groups env g2)
                                           (list_union new_ops (map snd ops)) (- 1)
                           in (Inr (ops @ filter (\<lambda>op. op \<notin> set ops)
                                             (map (\<lambda>n. (gid, n)) all_ops)),
                               put_graph st gid g2)))))"

text \<open>
  Modelled from the spec: \<^verbatim>\<open>util.get_unique_graph\<close> returns the one graph that all the
  given tensors belong to, and fails with InvalidInput when the collection is empty or
  spans more than one graph.
\<close>

definition get_unique_graph :: "tensor_ref list \<Rightarrow> error + nat" where
  "get_unique_graph tops =
     (case tops of
        [] \<Rightarrow> Inl (ValueError ''Cannot find the unique graph of an empty list'')
      | t # ts \<Rightarrow>
          (if list_all (\<lambda>u. fst (fst u) = fst (fst t)) ts then Inr (fst (fst t))
           else Inl (ValueError ''Operation does not belong to given graph'')))"

text \<open>
  \<^verbatim>\<open>graph_replace\<close>.  The index of control outputs is built and read inside
  \<^verbatim>\<open>get_walks_intersection_ops\<close>, which only reads the graph.
\<close>

definition graph_replace ::
  "nat \<Rightarrow> env \<Rightarrow> tensor_ref tree \<Rightarrow> (tensor_ref \<times> tensor_ref) list \<Rightarrow> string \<Rightarrow> string \<Rightarrow>
   bool \<Rightarrow> store \<Rightarrow> (error + elem option tree) \<times> store" where
  "graph_replace depth env target_ts replacement_ts dst_scope src_scope reuse_dst_scope st =
     (let flatten_target_ts = flatten_tree target_ts
      in case get_unique_graph flatten_target_ts of
           Inl e \<Rightarrow> (Inl e, st)
         | Inr graph_id \<Rightarrow>
             (case get_walks_intersection_ops env (map fst replacement_ts)
                     flatten_target_ts st of
                Inl e \<Rightarrow> (Inl e, st)
              | Inr ops \<Rightarrow>
                  if ops = []
                  then (Inl (ValueError ''Targets and replacements are not connected!''), st)
                  else
                    (case add_control_flow_ops env ops st of
                       (Inl e, st1) \<Rightarrow> (Inl e, st1)
                     | (Inr ops1, st1) \<Rightarrow>
                         (case copy_with_input_replacements depth env ops1 replacement_ts
                                 None dst_scope src_scope reuse_dst_scope st1 of
                            (Inl e, st2) \<Rightarrow> (Inl e, st2)
                          | (Inr (unused_sgv', info), st2) \<Rightarrow>
                              (case transformed info (map_tree ElemTensor target_ts)
                                      (Some (\<lambda>original_t. original_t)) of
                                 Inl e \<Rightarrow> (Inl e, st2)
                               | Inr r \<Rightarrow> (Inr r, st2))))))"

subsection \<open>Invariants of the copy pass\<close>

text \<open>
  Resolving an input leaves the two tables and the view of the temporary data alone.
\<close>

definition same_tables :: "tmp_info \<Rightarrow> tmp_info \<Rightarrow> bool" where
  "same_tables info info' \<longleftrightarrow>
     transformed_ops info' = transformed_ops info \<and>
     transformed_ts info' = transformed_ts info \<and>
     info_sgv info' = info_sgv info"

text \<open>Every key of the tensor table is an output of a node of the view.\<close>

definition keys_in_view :: "sub_graph_view \<Rightarrow> tmp_info \<times> store \<Rightarrow> bool" where
  "keys_in_view sgv s \<longleftrightarrow>
     info_sgv (fst s) = sgv \<and>
     (\<forall>t \<in> fst ` set (transformed_ts (fst s)). fst t \<in> set (sgv_ops sgv))"

text \<open>
  What the step of \<^verbatim>\<open>_copy_ops\<close> for one node has in hand when it starts to record the
  tensors, run from the state \<open>s\<close>: the node \<open>op'\<close> that the handler returned, and the list
  \<^verbatim>\<open>zip(op.outputs, op_outputs_)\<close> of the outputs of the node paired with the outputs that
  the handler returned.  There is none when resolving the inputs, the handler or the
  collections handler raises.
\<close>

definition copy_step ::
  "nat \<Rightarrow> env \<Rightarrow> transformer \<Rightarrow> node_ref \<Rightarrow> tmp_info \<times> store \<Rightarrow>
   (node_ref \<times> (tensor_ref \<times> tensor_ref) list) option" where
  "copy_step depth env self op s =
     (case map_action (\<lambda>t. transformed_t depth env self t op) (op_inputs (snd s) op) s of
        (Inl e, s1) \<Rightarrow> None
      | (Inr new_inputs, (info1, st1)) \<Rightarrow>
          (case transform_op_handler self info1 op new_inputs st1 of
             (Inl e, st2) \<Rightarrow> None
           | (Inr (op', op_outputs'), st2) \<Rightarrow>
               (case assign_collections_handler self
                       (info1\<lparr>transformed_ops := AList.update op op' (transformed_ops info1)\<rparr>)
                       (ElemNode op) (ElemNode op') st2 of
                  (Inl e, st3) \<Rightarrow> None
                | (Inr u, st3) \<Rightarrow> Some (op', zip (op_outputs st3 op) op_outputs'))))"

text \<open>
  In the pass over the sorted nodes of the view that starts in the state \<open>s\<close>, the last
  step for the node \<open>op\<close> starts when the steps for the nodes before it have returned,
  and it has the copy \<open>op'\<close> and the pairs \<open>pairs\<close> in hand.
\<close>

definition copied_in_pass ::
  "nat \<Rightarrow> env \<Rightarrow> transformer \<Rightarrow> tmp_info \<times> store \<Rightarrow> node_ref \<Rightarrow> node_ref \<Rightarrow>
   (tensor_ref \<times> tensor_ref) list \<Rightarrow> bool" where
  "copied_in_pass depth env self s op op' pairs \<longleftrightarrow>
     (\<exists>pre post s1.
        sorted_ops (fst s) (snd s) = pre @ op # post \<and> op \<notin> set post \<and>
        for_action (copy_op depth env self) pre s = (Inr (), s1) \<and>
        copy_step depth env self op s1 = Some (op', pairs))"

text \<open>
  What \<^verbatim>\<open>graph_replace\<close> returns for one target: its transformed counterpart, or the
  target itself when the table has none.
\<close>

definition target_of :: "transformer_info \<Rightarrow> tensor_ref \<Rightarrow> elem option" where
  "target_of info t =
     Some (ElemTensor (case map_of (ti_transformed_ts info) t of None \<Rightarrow> t | Some t' \<Rightarrow> t'))"

section \<open>Example graphs\<close>

text \<open>A graph holding empty nodes of the given names, registered in this order.\<close>

definition graph_of_names :: "string list \<Rightarrow> graph" where
  "graph_of_names ns =
     empty_graph\<lparr>node_name_to_node := map (\<lambda>n. (n, Node 0 n ''Const'')) ns\<rparr>"

text \<open>A node given by its fields; every output is a scalar \<^verbatim>\<open>int32\<close>.\<close>

definition mk_node ::
  "int \<Rightarrow> string \<Rightarrow> string \<Rightarrow> (string \<times> attr_value) list \<Rightarrow> tensor list \<Rightarrow> string list \<Rightarrow>
   nat \<Rightarrow> node" where
  "mk_node i name op_name as ins cins n_out =
     \<lparr>id_in_graph = i, node_name = name, op_type = op_name, device = [],
      attrs = as, inputs = ins, control_inputs = cins,
      outputs = replicate n_out (''int32'', [])\<rparr>"

definition graph_of_nodes :: "node list \<Rightarrow> graph" where
  "graph_of_nodes ns =
     empty_graph\<lparr>version := int (length ns), next_id := int (length ns) + 1,
                 node_name_to_node := map (\<lambda>n. (node_name n, n)) ns\<rparr>"

text \<open>
  The graph that \<^verbatim>\<open>tf.while_loop(lambda i: i < 10, lambda i: i + 1, [tf.constant(0)])\<close>
  builds, with the frame name \<^verbatim>\<open>loop1\<close>: one \<^verbatim>\<open>Enter\<close> feeding the \<^verbatim>\<open>Merge\<close>, the loop
  condition, the \<^verbatim>\<open>Switch\<close>, the body (\<^verbatim>\<open>Identity\<close>, \<^verbatim>\<open>add\<close>, \<^verbatim>\<open>NextIteration\<close>) and
  one \<^verbatim>\<open>Exit\<close>.  The two constants of the loop have a control input only.
\<close>

definition while_loop_nodes :: "node list" where
  "while_loop_nodes =
     [mk_node 1 ''Const'' ''Const'' [] [] [] 1,
      mk_node 2 ''while/Enter'' ''Enter'' [(''frame_name'', AttrS ''loop1'')]
        [(''Const'', 0)] [] 1,
      mk_node 3 ''while/Merge'' ''Merge'' []
        [(''while/Enter'', 0), (''while/NextIteration'', 0)] [] 2,
      mk_node 4 ''while/Less/y'' ''Const'' [] [] [''while/Merge''] 1,
      mk_node 5 ''while/Less'' ''Less'' [] [(''while/Merge'', 0), (''while/Less/y'', 0)] [] 1,
      mk_node 6 ''while/LoopCond'' ''LoopCond'' [] [(''while/Less'', 0)] [] 1,
      mk_node 7 ''while/Switch'' ''Switch'' []
        [(''while/Merge'', 0), (''while/LoopCond'', 0)] [] 2,
      mk_node 8 ''while/Identity'' ''Identity'' [] [(''while/Switch'', 1)] [] 1,
      mk_node 9 ''while/add/y'' ''Const'' [] [] [''while/Identity''] 1,
      mk_node 10 ''while/add'' ''Add'' [] [(''while/Identity'', 0), (''while/add/y'', 0)] [] 1,
      mk_node 11 ''while/NextIteration'' ''NextIteration'' [] [(''while/add'', 0)] [] 1,
      mk_node 12 ''while/Exit'' ''Exit'' [] [(''while/Switch'', 0)] [] 1]"

definition while_loop_graph :: graph where
  "while_loop_graph = graph_of_nodes while_loop_nodes"

text \<open>
  A constant, a node whose only incoming edge is a control input from it, and two nodes
  that consume each other's output and nothing else.
\<close>

definition cycle_nodes :: "node list" where
  "cycle_nodes =
     [mk_node 1 ''c'' ''Const'' [] [] [] 1,
      mk_node 2 ''d'' ''NoOp'' [] [] [''c''] 0,
      mk_node 3 ''x'' ''Identity'' [] [(''y'', 0)] [] 1,
      mk_node 4 ''y'' ''Identity'' [] [(''x'', 0)] [] 1]"

definition cycle_graph :: graph where
  "cycle_graph = graph_of_nodes cycle_nodes"

text \<open>
  An \<^verbatim>\<open>Enter\<close> node without input and without \<^verbatim>\<open>frame_name\<close>, and a node that
  consumes its own output.
\<close>

definition bad_enter_nodes :: "node list" where
  "bad_enter_nodes =
     [mk_node 1 ''e'' ''Enter'' [] [] [] 1,
      mk_node 2 ''x'' ''Identity'' [] [(''x'', 0)] [] 1]"

definition bad_enter_graph :: graph where
  "bad_enter_graph = graph_of_nodes bad_enter_nodes"

subsection \<open>A lowering\<close>

text \<open>
  On a string of ASCII characters \<^verbatim>\<open>str.lower()\<close> moves the letters A to Z to a to z and
  leaves every other character.  The function that does this to every string is a lowering.
  The examples are evaluated with it and hold ASCII names only, on which it is
  \<^verbatim>\<open>str.lower()\<close>.
\<close>

definition lower_char :: "char \<Rightarrow> char" where
  "lower_char c =
     (let k = (of_char c :: nat) in if 65 \<le> k \<and> k \<le> 90 then char_of (k + 32) else c)"

lemma lower_char_digit: "d < 10 \<Longrightarrow> lower_char (char_of (48 + d)) = char_of (48 + (d::nat))"
  by (simp add: lower_char_def Let_def)

lemma lower_str_of_nat: "map lower_char (str_of_nat n) = str_of_nat n"
proof (induction n rule: str_of_nat.induct)
  case (1 n)
  show ?case
  proof (cases "n < 10")
    case True
    then show ?thesis
      by (subst (1 2) str_of_nat.simps) (simp add: lower_char_digit)
  next
    case False
    with 1 show ?thesis
      by (subst (1 2) str_of_nat.simps) (simp add: lower_char_digit)
  qed
qed

lift_definition ascii_lowering :: lowering is "map lower_char"
  by (simp add: format_name_def lower_str_of_nat str_of_nat_inj)

subsection \<open>An environment\<close>

text \<open>
  One instance of the functions that the source files do not hold, following the
  specification, for running the transformer on examples: node methods assign the fields,
  every operation is inferred to have one scalar output, a placeholder is a new node of
  the destination graph, a view has the unproduced inputs of its nodes as inputs and the
  tensors consumed outside as outputs, and the two walks follow the data edges.
\<close>

definition set_node :: "node_ref \<Rightarrow> (node \<Rightarrow> node) \<Rightarrow> store \<Rightarrow> (error + unit) \<times> store" where
  "set_node r f st =
     (Inr (), put_graph st (fst r) (update_node (graph_of st (fst r)) (snd r) f))"

definition plain_to_node_def :: "node \<Rightarrow> node_def" where
  "plain_to_node_def n =
     \<lparr>nd_name = node_name n, nd_op = op_type n, nd_device = device n, nd_attr = attrs n,
      nd_input = map (\<lambda>t. fst t @ '':'' @ str_of_nat (snd t)) (inputs n)
                 @ map (\<lambda>c. ''^'' @ c) (control_inputs n)\<rparr>"

definition plain_placeholder ::
  "lowering \<Rightarrow> nat \<Rightarrow> tensor_ref \<Rightarrow> string \<Rightarrow> string option \<Rightarrow> store \<Rightarrow>
   (error + tensor_ref) \<times> store" where
  "plain_placeholder lw gid t scope prefix st =
     (let name = scope @ (case prefix of None \<Rightarrow> ''geph'' | Some p \<Rightarrow> p) @ ''__''
                 @ snd (fst t) @ ''_'' @ str_of_nat (snd t)
      in case add_node lw (graph_of st gid) name ''Placeholder'' True of
           (Inl e, g') \<Rightarrow> (Inl e, put_graph st gid g')
         | (Inr n, g') \<Rightarrow>
             (Inr ((gid, node_name n), 0),
              put_graph st gid
                (update_node g' (node_name n) (\<lambda>m. m\<lparr>outputs := [(''int32'', [])]\<rparr>))))"

definition keep_first :: "'a list \<Rightarrow> 'a list" where
  "keep_first xs = rev (remdups (rev xs))"

definition plain_make_view :: "node_ref list \<Rightarrow> store \<Rightarrow> error + sub_graph_view" where
  "plain_make_view ops st =
     (case ops of
        [] \<Rightarrow> Inl (ValueError ''cannot make a view of nothing'')
      | op0 # rest \<Rightarrow>
          (let produced = concat (map (op_outputs st) ops);
               consumed = keep_first (concat (map (op_inputs st) ops));
               outside = filter (\<lambda>n. (fst op0, node_name n) \<notin> set ops)
                           (nodes (graph_of st (fst op0)))
           in Inr \<lparr>sgv_graph = fst op0, sgv_ops = ops,
                   sgv_inputs = filter (\<lambda>t. t \<notin> set produced) consumed,
                   sgv_outputs = filter (\<lambda>t. list_ex (\<lambda>n. (snd (fst t), snd t) \<in> set (inputs n))
                                                outside) produced\<rparr>))"

definition plain_remap :: "sub_graph_view \<Rightarrow> nat list \<Rightarrow> nat list \<Rightarrow> error + sub_graph_view" where
  "plain_remap sgv input_map output_map =
     (if list_all (\<lambda>i. i < length (sgv_inputs sgv)) input_map
         \<and> list_all (\<lambda>i. i < length (sgv_outputs sgv)) output_map
      then Inr (sgv\<lparr>sgv_inputs := map (\<lambda>i. sgv_inputs sgv ! i) input_map,
                     sgv_outputs := map (\<lambda>i. sgv_outputs sgv ! i) output_map\<rparr>)
      else Inl (IndexError ''list index out of range''))"

definition forward_step :: "graph \<Rightarrow> string list \<Rightarrow> string list" where
  "forward_step g seen =
     list_union seen
       (map node_name (filter (\<lambda>n. list_ex (\<lambda>t. fst t \<in> set seen) (inputs n)) (nodes g)))"

definition backward_step :: "graph \<Rightarrow> string list \<Rightarrow> string list" where
  "backward_step g seen =
     list_union seen
       (concat (map (\<lambda>n. if node_name n \<in> set seen
                          then map fst (inputs n) @ control_inputs n else [])
                  (nodes g)))"

definition plain_walks ::
  "tensor_ref list \<Rightarrow> tensor_ref list \<Rightarrow> store \<Rightarrow> error + node_ref list" where
  "plain_walks seed_ts target_ts st =
     (case target_ts of
        [] \<Rightarrow> Inr []
      | t0 # rest \<Rightarrow>
          (let gid = fst (fst t0);
               g = graph_of st gid;
               k = length (nodes g);
               seeds = remdups (map node_name
                         (filter (\<lambda>n. list_ex (\<lambda>t. ((gid, fst t), snd t) \<in> set seed_ts)
                                    (inputs n)) (nodes g)));
               forward = (forward_step g ^^ k) seeds;
               backward = (backward_step g ^^ k) (remdups (map (\<lambda>t. snd (fst t)) target_ts))
           in Inr (map (\<lambda>n. (gid, n)) (filter (\<lambda>n. n \<in> set backward) forward))))"

definition plain_colocation_groups :: "graph \<Rightarrow> string list list" where
  "plain_colocation_groups g =
     (let entries = (\<lambda>n. case map_of (attrs n) ''_class'' of
                            Some (AttrList l) \<Rightarrow> l | _ \<Rightarrow> [])
      in map (\<lambda>e. map node_name (filter (\<lambda>n. e \<in> set (entries n)) (nodes g)))
           (remdups (concat (map entries (nodes g)))))"

definition plain_env :: env where
  "plain_env =
     \<lparr>str_lower = ascii_lowering,
      to_node_def = plain_to_node_def,
      set_inputs = (\<lambda>r ts. set_node r (\<lambda>n. n\<lparr>inputs := map (\<lambda>t. (snd (fst t), snd t)) ts\<rparr>)),
      set_outputs_from_pairs = (\<lambda>r ps. set_node r (\<lambda>n. n\<lparr>outputs := ps\<rparr>)),
      infer_outputs = (\<lambda>r. set_node r (\<lambda>n. n\<lparr>outputs := [(''int32'', [])]\<rparr>)),
      set_control_inputs = (\<lambda>r cs. set_node r (\<lambda>n. n\<lparr>control_inputs := map snd cs\<rparr>)),
      replace_input = (\<lambda>r i t. set_node r
                         (\<lambda>n. n\<lparr>inputs := (inputs n)[i := (snd (fst t), snd t)]\<rparr>)),
      add_to_collection = (\<lambda>el name st. (Inr (), st)),
      make_placeholder_from_tensor = plain_placeholder ascii_lowering,
      set_inputs_from_strings = (\<lambda>g name strs ctl. (Inr (), g)),
      get_predefined_collection_names = [],
      make_view = plain_make_view,
      remap = plain_remap,
      get_walks_intersection_ops = plain_walks,
      colocation_groups = plain_colocation_groups\<rparr>"

subsection \<open>Graphs for the transformer\<close>

text \<open>
  A node \<^verbatim>\<open>n\<close> that is to be colocated with the node \<^verbatim>\<open>peer\<close>; both are copied within
  their graph.
\<close>

definition colocated_nodes :: "node list" where
  "colocated_nodes =
     [mk_node 1 ''peer'' ''Const'' [] [] [] 1,
      mk_node 2 ''n'' ''Const'' [(''_class'', AttrList [''loc:@peer''])] [] [] 1]"

definition colocated_store :: store where
  "colocated_store = [(0, graph_of_nodes colocated_nodes)]"

text \<open>
  \<^verbatim>\<open>y = f(x)\<close> and \<^verbatim>\<open>z = g(y)\<close>, a second placeholder \<^verbatim>\<open>x2\<close> to put in the place of
  \<^verbatim>\<open>x\<close>, and a placeholder \<^verbatim>\<open>u\<close> that nothing consumes.
\<close>

definition replace_nodes :: "node list" where
  "replace_nodes =
     [mk_node 1 ''x'' ''Placeholder'' [] [] [] 1,
      mk_node 2 ''x2'' ''Placeholder'' [] [] [] 1,
      mk_node 3 ''f'' ''Neg'' [] [(''x'', 0)] [] 1,
      mk_node 4 ''g'' ''Neg'' [] [(''f'', 0)] [] 1,
      mk_node 5 ''u'' ''Placeholder'' [] [] [] 1]"

definition replace_store :: store where
  "replace_store = [(0, graph_of_nodes replace_nodes)]"

text \<open>
  \<^verbatim>\<open>y = f(x)\<close> and a node \<^verbatim>\<open>g\<close> on \<^verbatim>\<open>y\<close> that has been given two outputs
  (\<^verbatim>\<open>set_outputs_from_pairs\<close> takes any list), and the placeholder \<^verbatim>\<open>x2\<close>.
\<close>

definition wide_nodes :: "node list" where
  "wide_nodes =
     [mk_node 1 ''x'' ''Placeholder'' [] [] [] 1,
      mk_node 2 ''x2'' ''Placeholder'' [] [] [] 1,
      mk_node 3 ''f'' ''Neg'' [] [(''x'', 0)] [] 1,
      mk_node 4 ''g'' ''Neg'' [] [(''f'', 0)] [] 2]"

definition wide_store :: store where
  "wide_store = [(0, graph_of_nodes wide_nodes)]"

text \<open>A transformer whose node-copy handler returns the node it was given.\<close>

definition in_place_transformer :: transformer where
  "in_place_transformer =
     (Transformer plain_env)\<lparr>transform_op_handler :=
        (\<lambda>info op new_inputs st. (Inr (op, op_outputs st op), st))\<rparr>"

text \<open>The view of the two colocated nodes, and the temporary data of its copy in place.\<close>

definition colocated_view :: sub_graph_view where
  "colocated_view =
     \<lparr>sgv_graph = 0, sgv_ops = [(0, ''peer''), (0, ''n'')], sgv_inputs = [], sgv_outputs = []\<rparr>"

definition colocated_info :: tmp_info where
  "colocated_info = call_info plain_env colocated_view 0 [] [] False colocated_store"

section \<open>Unique names\<close>

lemma unique_name_loop_spec:
  "\<exists>k\<ge>i. unique_name_loop lw g name i = format_name name k
        \<and> \<not> name_in_use lw g (format_name name k)
        \<and> (\<forall>j. i \<le> j \<and> j < k \<longrightarrow> name_in_use lw g (format_name name j))"
proof (induction lw g name i rule: unique_name_loop.induct)
  case (1 lw g name i)
  show ?case
  proof (cases "name_in_use lw g (format_name name i)")
    case False
    then have "unique_name_loop lw g name i = format_name name i"
      by (simp add: unique_name_loop.simps)
    with False show ?thesis
      by (intro exI [of _ i]) auto
  next
    case True
    from 1 [OF True] obtain k where k: "i + 1 \<le> k"
      "unique_name_loop lw g name (i + 1) = format_name name k"
      "\<not> name_in_use lw g (format_name name k)"
      "\<forall>j. i + 1 \<le> j \<and> j < k \<longrightarrow> name_in_use lw g (format_name name j)"
      by blast
    have "unique_name_loop lw g name i = format_name name k"
      using True k(2) by (subst unique_name_loop.simps) simp
    moreover have "\<forall>j. i \<le> j \<and> j < k \<longrightarrow> name_in_use lw g (format_name name j)"
    proof (intro allI impI)
      fix j assume "i \<le> j \<and> j < k"
      then show "name_in_use lw g (format_name name j)"
        using True k(4) by (cases "j = i") auto
    qed
    ultimately show ?thesis
      using k(1,3) by (intro exI [of _ k]) simp
  qed
qed

text \<open>
  C5.  For every graph, every candidate name and every lowering of strings,
  \<^verbatim>\<open>str.lower()\<close> among them: \<^verbatim>\<open>unique_name\<close> returns a candidate that no node name
  equals after lowering unchanged; otherwise it returns \<^verbatim>\<open>name_i\<close> for the least
  \<open>i \<ge> 1\<close> whose \<^verbatim>\<open>name_i\<close> is not in use, again compared after lowering.  The
  function is total, so the loop always ends.
\<close>

theorem unique_name_spec:
  "(\<not> name_in_use lw g name \<longrightarrow> unique_name lw g name = name) \<and>
   (name_in_use lw g name \<longrightarrow>
      (\<exists>i\<ge>1. unique_name lw g name = format_name name i
          \<and> \<not> name_in_use lw g (format_name name i)
          \<and> (\<forall>j. 1 \<le> j \<and> j < i \<longrightarrow> name_in_use lw g (format_name name j))))"
  using unique_name_loop_spec [of 1 lw g name] by (simp add: unique_name_def)

theorem unique_name_spec_witness:
  "name_in_use ascii_lowering (graph_of_names [''foo'', ''Foo_1'']) ''Foo'' \<and>
   \<not> name_in_use ascii_lowering (graph_of_names [''foo'', ''Foo_1'']) ''Bar'' \<and>
   unique_name ascii_lowering (graph_of_names [''foo'', ''Foo_1'']) ''Bar'' = ''Bar'' \<and>
   (\<exists>i\<ge>1. unique_name ascii_lowering (graph_of_names [''foo'', ''Foo_1'']) ''Foo''
            = format_name ''Foo'' i
       \<and> \<not> name_in_use ascii_lowering (graph_of_names [''foo'', ''Foo_1''])
             (format_name ''Foo'' i)
       \<and> (\<forall>j. 1 \<le> j \<and> j < i \<longrightarrow>
            name_in_use ascii_lowering (graph_of_names [''foo'', ''Foo_1''])
              (format_name ''Foo'' j)))"
proof -
  have a: "name_in_use ascii_lowering (graph_of_names [''foo'', ''Foo_1'']) ''Foo''"
    by code_simp
  have b: "\<not> name_in_use ascii_lowering (graph_of_names [''foo'', ''Foo_1'']) ''Bar''"
    by code_simp
  show ?thesis
    using a b
      unique_name_spec [of ascii_lowering "graph_of_names [''foo'', ''Foo_1'']" "''Foo''"]
      unique_name_spec [of ascii_lowering "graph_of_names [''foo'', ''Foo_1'']" "''Bar''"]
    by blast
qed

text \<open>The two examples of the specification, computed.\<close>

lemma unique_name_Foo_1:
  "unique_name ascii_lowering (graph_of_names [''foo'']) ''Foo'' = ''Foo_1''"
  by code_simp

lemma unique_name_Foo_2:
  "unique_name ascii_lowering (graph_of_names [''foo'', ''Foo_1'']) ''Foo'' = ''Foo_2''"
  by code_simp

text \<open>
  A candidate that the lowering folds onto the name of a node is in use, whatever its
  characters (under \<^verbatim>\<open>str.lower()\<close>, a capital letter with an accent on a graph that
  holds the small one), and \<^verbatim>\<open>unique_name\<close> then returns a numbered candidate.
\<close>

lemma unique_name_folded:
  assumes "lower_of lw name = lower_of lw k" and "k \<in> fst ` set (node_name_to_node g)"
  shows "\<exists>i\<ge>1. unique_name lw g name = format_name name i
            \<and> \<not> name_in_use lw g (format_name name i)"
proof -
  have "name_in_use lw g name"
    using assms by (auto simp: name_in_use_def)
  then show ?thesis
    using unique_name_loop_spec [of 1 lw g name] by (auto simp: unique_name_def)
qed

section \<open>Frozen graphs\<close>

text \<open>
  C1, as the specification states it, fails twice.  On a frozen empty graph,
  \<^verbatim>\<open>add_node("a", "Const")\<close> raises the \<^verbatim>\<open>RuntimeError\<close> only after the node was
  registered and the identity counter advanced; and with \<^verbatim>\<open>uniquify_name=False\<close> and a
  name in use, the failure is the \<^verbatim>\<open>ValueError\<close> of the collision check.
\<close>

theorem add_node_frozen_counterexample:
  "frozen (set_frozen empty_graph True) \<and>
   map fst (node_name_to_node (set_frozen empty_graph True)) = [] \<and>
   next_id (set_frozen empty_graph True) = 1 \<and>
   fst (add_node ascii_lowering (set_frozen empty_graph True) ''a'' ''Const'' True)
     = Inl (RuntimeError ''Detected a change to a frozen graph'') \<and>
   map fst (node_name_to_node
              (snd (add_node ascii_lowering (set_frozen empty_graph True) ''a'' ''Const'' True)))
     = [''a''] \<and>
   next_id (snd (add_node ascii_lowering (set_frozen empty_graph True) ''a'' ''Const'' True)) = 2 \<and>
   frozen (set_frozen (graph_of_names [''a'']) True) \<and>
   fst (add_node ascii_lowering (set_frozen (graph_of_names [''a'']) True) ''A'' ''Const'' False)
     = Inl (ValueError ''Graph already contains a node with name'')"
  by code_simp

text \<open>
  C1, amended.  On a frozen graph every call to \<^verbatim>\<open>add_node\<close> fails and leaves the version
  counter and the frozen flag as they were, whatever the lowering of strings.  The failure
  is the \<^verbatim>\<open>RuntimeError\<close> of the version counter when \<^verbatim>\<open>uniquify_name\<close> is true or the
  name is free; it is the \<^verbatim>\<open>ValueError\<close> of the collision check, with the whole graph
  unchanged, when \<^verbatim>\<open>uniquify_name\<close> is false and the name is in use.
\<close>

theorem add_node_frozen:
  assumes "frozen g"
  shows "(uniquify_name \<or> \<not> name_in_use lw g name \<longrightarrow>
            fst (add_node lw g name op_name uniquify_name)
              = Inl (RuntimeError ''Detected a change to a frozen graph'')) \<and>
         (\<not> uniquify_name \<and> name_in_use lw g name \<longrightarrow>
            add_node lw g name op_name uniquify_name
              = (Inl (ValueError ''Graph already contains a node with name''), g)) \<and>
         version (snd (add_node lw g name op_name uniquify_name)) = version g \<and>
         frozen (snd (add_node lw g name op_name uniquify_name))"
  using assms
  by (simp add: add_node_def get_next_id_def increment_version_counter_def Let_def)

theorem add_node_frozen_witness:
  "frozen (set_frozen (graph_of_names [''a'']) True) \<and>
   name_in_use ascii_lowering (set_frozen (graph_of_names [''a'']) True) ''A'' \<and>
   fst (add_node ascii_lowering (set_frozen (graph_of_names [''a'']) True) ''A'' ''Const'' True)
     = Inl (RuntimeError ''Detected a change to a frozen graph'') \<and>
   add_node ascii_lowering (set_frozen (graph_of_names [''a'']) True) ''A'' ''Const'' False
     = (Inl (ValueError ''Graph already contains a node with name''),
        set_frozen (graph_of_names [''a'']) True) \<and>
   version (snd (add_node ascii_lowering (set_frozen (graph_of_names [''a'']) True)
                   ''A'' ''Const'' True))
     = version (set_frozen (graph_of_names [''a'']) True)"
proof -
  have a: "frozen (set_frozen (graph_of_names [''a'']) True)"
    by (simp add: set_frozen_def)
  have b: "name_in_use ascii_lowering (set_frozen (graph_of_names [''a'']) True) ''A''"
    by code_simp
  show ?thesis
    using a b
      add_node_frozen [OF a, of True ascii_lowering "''A''" "''Const''"]
      add_node_frozen [OF a, of False ascii_lowering "''A''" "''Const''"]
    by simp
qed

section \<open>The version counter\<close>

text \<open>
  C7, as the specification states it, fails in its second half: \<^verbatim>\<open>add_node\<close> is not the
  only operation that changes the version counter.  \<^verbatim>\<open>increment_version_counter\<close> is a
  public method of its own, and on the empty graph it moves the version from 0 to 1.
\<close>

theorem version_counterexample:
  "version empty_graph = 0 \<and> version (snd (increment_version_counter empty_graph)) = 1"
  by (simp add: increment_version_counter_def empty_graph_def)

text \<open>
  C7, amended.  A call to \<^verbatim>\<open>add_node\<close> that returns a node leaves a version that is
  greater by exactly one, and a failing call leaves the version as it was; so does
  \<^verbatim>\<open>add_node_from_node_def\<close> without inputs, through \<^verbatim>\<open>add_node\<close>.  The counter is moved
  by \<^verbatim>\<open>increment_version_counter\<close> alone, by one when the graph is not frozen.  The other
  operations of the graph that leave a state behind (the \<^verbatim>\<open>frozen\<close> setter,
  \<^verbatim>\<open>_get_next_id\<close>, the frame analysis and its three readers) keep the version.
\<close>

theorem version_changes:
  "(\<forall>n g'. add_node lw g name op_name uniquify_name = (Inr n, g') \<longrightarrow> version g' = version g + 1) \<and>
   (\<forall>e g'. add_node lw g name op_name uniquify_name = (Inl e, g') \<longrightarrow> version g' = version g) \<and>
   (\<forall>n g'. add_node_from_node_def lw sifs g nd False False = (Inr n, g')
        \<longrightarrow> version g' = version g + 1) \<and>
   version (snd (increment_version_counter g))
     = (if frozen g then version g else version g + 1) \<and>
   version (set_frozen g v) = version g \<and>
   version (snd (get_next_id g)) = version g \<and>
   version (snd (generate_node_to_frame_name g)) = version g \<and>
   version (snd (node_to_frame_names g m)) = version g \<and>
   version (snd (frame_name_to_nodes g f)) = version g \<and>
   version (snd (get_frame_names g)) = version g"
proof -
  have add_ok: "version g' = version h + 1"
    if "add_node lw h nm opn u = (Inr n, g')" for h nm opn u n g'
    using that
    by (auto simp: add_node_def get_next_id_def increment_version_counter_def Let_def
        split: if_splits sum.splits prod.splits)
  have c1: "\<forall>n g'. add_node lw g name op_name uniquify_name = (Inr n, g')
              \<longrightarrow> version g' = version g + 1"
    using add_ok by blast
  have add_err: "version g' = version g"
    if "add_node lw g name op_name uniquify_name = (Inl e, g')" for e g'
    using that
    by (auto simp: add_node_def get_next_id_def increment_version_counter_def Let_def
        split: if_splits sum.splits prod.splits)
  have c2: "\<forall>e g'. add_node lw g name op_name uniquify_name = (Inl e, g')
              \<longrightarrow> version g' = version g"
    using add_err by blast
  have upd: "version (update_node h k fn) = version h" for h k fn
    by (simp add: update_node_def split: option.splits)
  have from_def: "version g' = version g + 1"
    if "add_node_from_node_def lw sifs g nd False False = (Inr n, g')" for n g'
    using that add_ok
    by (auto simp: add_node_from_node_def_def Let_def upd
        split: if_splits sum.splits prod.splits option.splits)
  have c3: "\<forall>n g'. add_node_from_node_def lw sifs g nd False False = (Inr n, g')
              \<longrightarrow> version g' = version g + 1"
    using from_def by blast
  have c4: "version (snd (increment_version_counter g))
               = (if frozen g then version g else version g + 1)"
    by (simp add: increment_version_counter_def)
  have c5: "version (set_frozen g v) = version g"
    by (simp add: set_frozen_def)
  have c6: "version (snd (get_next_id g)) = version g"
    by (simp add: get_next_id_def)
  have gen: "version (snd (generate_node_to_frame_name h)) = version h" for h
    by (simp add: generate_node_to_frame_name_def split: sum.splits prod.splits)
  have ens: "version (snd (ensure_frame_tables h)) = version h" for h
    by (simp add: ensure_frame_tables_def gen)
  have ens': "version g' = version h" if "ensure_frame_tables h = (r, g')" for h r g'
    using ens [of h] that by simp
  have c8: "version (snd (node_to_frame_names g m)) = version g"
    by (auto simp: node_to_frame_names_def split: sum.splits prod.splits option.splits
        dest: ens')
  have c9: "version (snd (frame_name_to_nodes g f)) = version g"
    by (auto simp: frame_name_to_nodes_def split: sum.splits prod.splits option.splits
        dest: ens')
  have c10: "version (snd (get_frame_names g)) = version g"
    by (auto simp: get_frame_names_def split: sum.splits prod.splits option.splits
        dest: ens')
  from c1 c2 c3 c4 c5 c6 gen [of g] c8 c9 c10 show ?thesis
    by (intro conjI) assumption+
qed

theorem version_changes_witness:
  "fst (add_node ascii_lowering empty_graph ''a'' ''Const'' True) = Inr (Node 1 ''a'' ''Const'') \<and>
   version (snd (add_node ascii_lowering empty_graph ''a'' ''Const'' True)) = version empty_graph + 1 \<and>
   fst (add_node ascii_lowering (graph_of_names [''a'']) ''A'' ''Const'' False)
     = Inl (ValueError ''Graph already contains a node with name'') \<and>
   version (snd (add_node ascii_lowering (graph_of_names [''a'']) ''A'' ''Const'' False))
     = version (graph_of_names [''a'']) \<and>
   fst (add_node_from_node_def ascii_lowering (\<lambda>g n strs ctl. (Inr (), g)) empty_graph
          \<lparr>nd_name = ''a'', nd_op = ''Const'', nd_device = ''cpu'', nd_attr = [],
           nd_input = []\<rparr> False False)
     = Inr ((Node 1 ''a'' ''Const'')\<lparr>device := ''cpu''\<rparr>) \<and>
   version (snd (add_node_from_node_def ascii_lowering (\<lambda>g n strs ctl. (Inr (), g)) empty_graph
          \<lparr>nd_name = ''a'', nd_op = ''Const'', nd_device = ''cpu'', nd_attr = [],
           nd_input = []\<rparr> False False))
     = version empty_graph + 1"
proof -
  let ?nd = "\<lparr>nd_name = ''a'', nd_op = ''Const'', nd_device = ''cpu'', nd_attr = [],
             nd_input = []\<rparr>"
  let ?sifs = "\<lambda>(g :: graph) (n :: string) (strs :: string list) (ctl :: bool).
                 (Inr () :: error + unit, g)"
  have e: "fst (add_node_from_node_def ascii_lowering ?sifs empty_graph ?nd False False)
           = Inr ((Node 1 ''a'' ''Const'')\<lparr>device := ''cpu''\<rparr>)"
    by code_simp
  have e': "add_node_from_node_def ascii_lowering ?sifs empty_graph ?nd False False
            = (Inr ((Node 1 ''a'' ''Const'')\<lparr>device := ''cpu''\<rparr>),
               snd (add_node_from_node_def ascii_lowering ?sifs empty_graph ?nd False False))"
    using e by (simp add: prod_eq_iff)
  have "\<forall>n g'. add_node_from_node_def ascii_lowering ?sifs empty_graph ?nd False False = (Inr n, g')
          \<longrightarrow> version g' = version empty_graph + 1"
    using version_changes [of ascii_lowering empty_graph "''a''" "''Const''" True ?sifs ?nd]
    by (rule conjunct1 [OF conjunct2 [OF conjunct2]])
  with e' have f: "version (snd (add_node_from_node_def ascii_lowering ?sifs empty_graph ?nd False False))
                    = version empty_graph + 1"
    by blast
  have a: "fst (add_node ascii_lowering empty_graph ''a'' ''Const'' True) = Inr (Node 1 ''a'' ''Const'')"
    by code_simp
  have b: "fst (add_node ascii_lowering (graph_of_names [''a'']) ''A'' ''Const'' False)
           = Inl (ValueError ''Graph already contains a node with name'')"
    by code_simp
  have a': "add_node ascii_lowering empty_graph ''a'' ''Const'' True
            = (Inr (Node 1 ''a'' ''Const''), snd (add_node ascii_lowering empty_graph ''a'' ''Const'' True))"
    using a by (simp add: prod_eq_iff)
  have b': "add_node ascii_lowering (graph_of_names [''a'']) ''A'' ''Const'' False
            = (Inl (ValueError ''Graph already contains a node with name''),
               snd (add_node ascii_lowering (graph_of_names [''a'']) ''A'' ''Const'' False))"
    using b by (simp add: prod_eq_iff)
  have "\<forall>n g'. add_node ascii_lowering empty_graph ''a'' ''Const'' True = (Inr n, g')
          \<longrightarrow> version g' = version empty_graph + 1"
    using version_changes [of ascii_lowering empty_graph "''a''" "''Const''" True] by (rule conjunct1)
  with a' have c: "version (snd (add_node ascii_lowering empty_graph ''a'' ''Const'' True))
                    = version empty_graph + 1"
    by blast
  have "\<forall>e g'. add_node ascii_lowering (graph_of_names [''a'']) ''A'' ''Const'' False = (Inl e, g')
          \<longrightarrow> version g' = version (graph_of_names [''a''])"
    using version_changes [of ascii_lowering "graph_of_names [''a'']" "''A''" "''Const''" False]
    by (rule conjunct1 [OF conjunct2])
  with b' have d: "version (snd (add_node ascii_lowering (graph_of_names [''a'']) ''A'' ''Const'' False))
                    = version (graph_of_names [''a''])"
    by blast
  from a c b d e f show ?thesis
    by (intro conjI) assumption+
qed

section \<open>Frame analysis\<close>

lemma fold_enqueue_subset:
  "fold enqueue xs (q, v) = (q', v') \<Longrightarrow> set q' \<subseteq> set q \<union> set xs"
proof (induction xs arbitrary: q v)
  case Nil
  then show ?case by simp
next
  case (Cons x xs)
  show ?case
  proof (cases "node_name x \<in> v")
    case True
    then have "enqueue x (q, v) = (q, v)"
      by (simp add: enqueue_def)
    with Cons.prems have "fold enqueue xs (q, v) = (q', v')"
      by simp
    from Cons.IH [OF this] show ?thesis by auto
  next
    case False
    then have "enqueue x (q, v) = (q @ [x], insert (node_name x) v)"
      by (simp add: enqueue_def)
    with Cons.prems have "fold enqueue xs (q @ [x], insert (node_name x) v) = (q', v')"
      by simp
    from Cons.IH [OF this] show ?thesis by auto
  qed
qed

lemma successors_reachable:
  assumes "m \<in> set (nodes g)" "reachable g (node_name m)" "n \<in> set (successors g m)"
  shows "n \<in> set (nodes g) \<and> reachable g (node_name n)"
proof -
  from assms(3) obtain t where t: "t \<in> set (node_outputs m)" "n \<in> set (consumers g t)"
    by (auto simp: successors_def)
  then have "n \<in> set (nodes g)"
    by (simp add: consumers_def)
  moreover have "reachable g (node_name n)"
    by (rule reachable.step [OF assms(1,2) t])
  ultimately show ?thesis by simp
qed

lemma bfs_keys_reachable:
  assumes "bfs g queue visited st tp n2f f2n = Inr (n2f', f2n')"
    and "\<forall>q\<in>set queue. q \<in> set (nodes g) \<and> reachable g (node_name q)"
    and "\<forall>k\<in>fst ` set n2f. reachable g k"
  shows "\<forall>k\<in>fst ` set n2f'. reachable g k"
  using assms
proof (induction g queue visited st tp n2f f2n rule: bfs.induct)
  case (1 g visited st tp n2f f2n)
  then show ?case by (simp add: bfs.simps)
next
  case (2 g cur queue visited st tp n2f f2n)
  from "2.prems"(1) obtain st1 tp1 where u: "update_frame_stack cur st tp = Inr (st1, tp1)"
    by (subst (asm) bfs.simps) (auto split: sum.splits)
  obtain queue1 visited1 where
    f: "fold enqueue (successors g cur) (queue, visited) = (queue1, visited1)"
    by (cases "fold enqueue (successors g cur) (queue, visited)")
  have r: "bfs g queue1 visited1 st1 tp1 (AList.update (node_name cur) tp1 n2f)
             (fold (\<lambda>frame_name. setdefault_append frame_name (node_name cur)) st1 f2n)
           = Inr (n2f', f2n')"
    using "2.prems"(1) u f by (subst (asm) bfs.simps) simp
  have cur: "cur \<in> set (nodes g)" "reachable g (node_name cur)"
    using "2.prems"(2) by simp_all
  have q: "\<forall>q\<in>set queue1. q \<in> set (nodes g) \<and> reachable g (node_name q)"
  proof
    fix q assume "q \<in> set queue1"
    with fold_enqueue_subset [OF f] have "q \<in> set queue \<or> q \<in> set (successors g cur)"
      by auto
    then show "q \<in> set (nodes g) \<and> reachable g (node_name q)"
      using "2.prems"(2) successors_reachable [OF cur] by auto
  qed
  have k: "\<forall>k\<in>fst ` set (AList.update (node_name cur) tp1 n2f). reachable g k"
    using "2.prems"(3) cur(2) by (simp add: dom_update)
  show ?case
    by (rule "2.IH" [OF u refl f [symmetric] r q k])
qed

lemma frame_analysis_keys_reachable:
  assumes "frame_analysis g = Inr (n2f, f2n)" and "k \<in> fst ` set n2f"
  shows "reachable g k"
proof -
  let ?queue = "filter (\<lambda>n. 0 = length (inputs n)) (nodes g)"
  have b: "bfs g ?queue (set (map node_name ?queue)) [None] [] [] [] = Inr (n2f, f2n)"
    using assms(1) by (simp add: frame_analysis_def Let_def)
  have q: "\<forall>q\<in>set ?queue. q \<in> set (nodes g) \<and> reachable g (node_name q)"
    by (auto intro: reachable.root)
  have "\<forall>k\<in>fst ` set n2f. reachable g k"
    by (rule bfs_keys_reachable [OF b q]) simp
  with assms(2) show ?thesis by blast
qed

text \<open>
  C10, amended.  The analysis records only nodes that can be reached along data edges from
  the nodes without data input.  On a graph whose tables are not yet computed, a node that
  cannot be reached so is missing from the node-to-frame table whenever the analysis
  completes, and \<^verbatim>\<open>node_to_frame_names\<close> on it fails with the \<^verbatim>\<open>KeyError\<close> of the
  unguarded subscript, on the first call and on a later call that reads the cached table.
  When the analysis itself raises, \<^verbatim>\<open>node_to_frame_names\<close> fails with that error.
\<close>

theorem unreachable_node_lookup:
  assumes "node_to_frame_names_cache g = None" and "\<not> reachable g (node_name n)"
  shows "(\<forall>n2f f2n. frame_analysis g = Inr (n2f, f2n) \<longrightarrow>
            (\<forall>k\<in>fst ` set n2f. reachable g k) \<and>
            map_of n2f (node_name n) = None \<and>
            fst (node_to_frame_names g n) = Inl (KeyError (node_name n)) \<and>
            (\<forall>m. fst (node_to_frame_names (snd (node_to_frame_names g m)) n)
                   = Inl (KeyError (node_name n)))) \<and>
         (\<forall>e. frame_analysis g = Inl e \<longrightarrow> fst (node_to_frame_names g n) = Inl e)"
proof (intro conjI allI impI)
  fix e assume "frame_analysis g = Inl e"
  then show "fst (node_to_frame_names g n) = Inl e"
    using assms(1)
    by (simp add: node_to_frame_names_def ensure_frame_tables_def
        generate_node_to_frame_name_def)
next
  fix n2f f2n assume a: "frame_analysis g = Inr (n2f, f2n)"
  show "\<forall>k\<in>fst ` set n2f. reachable g k"
    using frame_analysis_keys_reachable [OF a] by blast
  then have "node_name n \<notin> fst ` set n2f"
    using assms(2) by blast
  then show none: "map_of n2f (node_name n) = None"
    by (simp add: map_of_eq_None_iff)
  have first: "node_to_frame_names g m
        = ((case map_of n2f (node_name m) of
              None \<Rightarrow> Inl (KeyError (node_name m)) | Some names \<Rightarrow> Inr names),
           g\<lparr>node_to_frame_names_cache := Some n2f, frame_name_to_nodes_cache := Some f2n\<rparr>)"
    for m
    using assms(1) a
    by (simp add: node_to_frame_names_def ensure_frame_tables_def
        generate_node_to_frame_name_def split: option.splits)
  show "fst (node_to_frame_names g n) = Inl (KeyError (node_name n))"
    by (simp add: first none)
  fix m
  have "snd (node_to_frame_names g m)
          = g\<lparr>node_to_frame_names_cache := Some n2f, frame_name_to_nodes_cache := Some f2n\<rparr>"
    by (simp add: first)
  moreover have "fst (node_to_frame_names
            (g\<lparr>node_to_frame_names_cache := Some n2f, frame_name_to_nodes_cache := Some f2n\<rparr>) n)
          = Inl (KeyError (node_name n))"
    by (simp add: node_to_frame_names_def ensure_frame_tables_def none)
  ultimately show "fst (node_to_frame_names (snd (node_to_frame_names g m)) n)
          = Inl (KeyError (node_name n))"
    by simp
qed

lemma cycle_graph_reachable: "reachable cycle_graph k \<Longrightarrow> k = ''c'' \<or> k = ''d''"
proof (induction rule: reachable.induct)
  case (root n)
  then show ?case
    by (auto simp: cycle_graph_def graph_of_nodes_def cycle_nodes_def nodes_def mk_node_def
        empty_graph_def)
next
  case (step m t n)
  then show ?case
    by (auto simp: cycle_graph_def graph_of_nodes_def cycle_nodes_def nodes_def mk_node_def
        empty_graph_def consumers_def node_outputs_def)
qed

lemma bad_enter_graph_reachable: "reachable bad_enter_graph k \<Longrightarrow> k = ''e''"
proof (induction rule: reachable.induct)
  case (root n)
  then show ?case
    by (auto simp: bad_enter_graph_def graph_of_nodes_def bad_enter_nodes_def nodes_def
        mk_node_def empty_graph_def)
next
  case (step m t n)
  then show ?case
    by (auto simp: bad_enter_graph_def graph_of_nodes_def bad_enter_nodes_def nodes_def
        mk_node_def empty_graph_def consumers_def node_outputs_def)
qed

theorem unreachable_node_lookup_witness:
  "node_to_frame_names_cache cycle_graph = None \<and>
   \<not> reachable cycle_graph (node_name (mk_node 3 ''x'' ''Identity'' [] [(''y'', 0)] [] 1)) \<and>
   frame_analysis cycle_graph = Inr ([(''c'', []), (''d'', [])], [(None, [''c'', ''d''])]) \<and>
   fst (node_to_frame_names cycle_graph (mk_node 3 ''x'' ''Identity'' [] [(''y'', 0)] [] 1))
     = Inl (KeyError ''x'') \<and>
   node_to_frame_names_cache bad_enter_graph = None \<and>
   \<not> reachable bad_enter_graph
       (node_name (mk_node 2 ''x'' ''Identity'' [] [(''x'', 0)] [] 1)) \<and>
   frame_analysis bad_enter_graph
     = Inl (ValueError ''Enter node does not have a value for its frame_name attribute'') \<and>
   fst (node_to_frame_names bad_enter_graph (mk_node 2 ''x'' ''Identity'' [] [(''x'', 0)] [] 1))
     = Inl (ValueError ''Enter node does not have a value for its frame_name attribute'')"
proof -
  have a2: "node_to_frame_names_cache bad_enter_graph = None"
    by (simp add: bad_enter_graph_def graph_of_nodes_def empty_graph_def)
  have nm2: "node_name (mk_node 2 ''x'' ''Identity'' [] [(''x'', 0)] [] 1) = ''x''"
    by (simp add: mk_node_def)
  have b2: "\<not> reachable bad_enter_graph
              (node_name (mk_node 2 ''x'' ''Identity'' [] [(''x'', 0)] [] 1))"
    unfolding nm2 using bad_enter_graph_reachable [of "''x''"] by auto
  have c2: "frame_analysis bad_enter_graph
     = Inl (ValueError ''Enter node does not have a value for its frame_name attribute'')"
    by code_simp
  have d2: "fst (node_to_frame_names bad_enter_graph
                   (mk_node 2 ''x'' ''Identity'' [] [(''x'', 0)] [] 1))
     = Inl (ValueError ''Enter node does not have a value for its frame_name attribute'')"
    using unreachable_node_lookup [OF a2 b2] c2 by blast
  have a: "node_to_frame_names_cache cycle_graph = None"
    by (simp add: cycle_graph_def graph_of_nodes_def empty_graph_def)
  have nm: "node_name (mk_node 3 ''x'' ''Identity'' [] [(''y'', 0)] [] 1) = ''x''"
    by (simp add: mk_node_def)
  have b: "\<not> reachable cycle_graph (node_name (mk_node 3 ''x'' ''Identity'' [] [(''y'', 0)] [] 1))"
    unfolding nm using cycle_graph_reachable [of "''x''"] by auto
  have c: "frame_analysis cycle_graph = Inr ([(''c'', []), (''d'', [])], [(None, [''c'', ''d''])])"
    by code_simp
  have "fst (node_to_frame_names cycle_graph (mk_node 3 ''x'' ''Identity'' [] [(''y'', 0)] [] 1))
     = Inl (KeyError (node_name (mk_node 3 ''x'' ''Identity'' [] [(''y'', 0)] [] 1)))"
    using unreachable_node_lookup [OF a b] c by blast
  with a b c nm have "fst (node_to_frame_names cycle_graph
                             (mk_node 3 ''x'' ''Identity'' [] [(''y'', 0)] [] 1))
     = Inl (KeyError ''x'')"
    by simp
  with a b c a2 b2 c2 d2 show ?thesis
    by (intro conjI)
qed

text \<open>
  C10, as stated, names as its example a node whose only incoming edges are control inputs.
  Such a node has no data input, so it is one of the nodes the traversal starts from: in
  the graph of \<open>cycle_nodes\<close> the node \<^verbatim>\<open>d\<close> is in the table, and the lookup returns the
  empty tuple.
\<close>

theorem control_input_only_counterexample:
  "inputs (mk_node 2 ''d'' ''NoOp'' [] [] [''c''] 0) = [] \<and>
   control_inputs (mk_node 2 ''d'' ''NoOp'' [] [] [''c''] 0) = [''c''] \<and>
   mk_node 2 ''d'' ''NoOp'' [] [] [''c''] 0 \<in> set (nodes cycle_graph) \<and>
   fst (node_to_frame_names cycle_graph (mk_node 2 ''d'' ''NoOp'' [] [] [''c''] 0)) = Inr []"
  by code_simp

text \<open>
  C3 on the graph of one \<^verbatim>\<open>tf.while_loop\<close>.  The traversal keeps one stack for the whole
  queue, so a node gets the frames that are open when it leaves the queue, not those of
  the node that led to it.  The body node \<^verbatim>\<open>while/Identity\<close> leaves the queue after
  \<^verbatim>\<open>while/Exit\<close> and is mapped to \<^verbatim>\<open>(None,)\<close>; the nodes handled between \<^verbatim>\<open>Enter\<close> and
  \<^verbatim>\<open>Exit\<close> are mapped to \<^verbatim>\<open>(None, "loop1")\<close>, with the root sentinel in the tuple; the
  constants of the loop and the constant before it are mapped to \<^verbatim>\<open>()\<close> and the
  \<^verbatim>\<open>Exit\<close> node to \<^verbatim>\<open>(None,)\<close>; and the nodes listed under \<^verbatim>\<open>loop1\<close> include the
  \<^verbatim>\<open>Enter\<close> node and leave out \<^verbatim>\<open>while/Identity\<close> and the two constants of the loop.
\<close>

theorem frame_analysis_while_loop:
  "fst (node_to_frame_names while_loop_graph
          (mk_node 8 ''while/Identity'' ''Identity'' [] [(''while/Switch'', 1)] [] 1))
     = Inr [None] \<and>
   fst (node_to_frame_names while_loop_graph
          (mk_node 3 ''while/Merge'' ''Merge'' []
             [(''while/Enter'', 0), (''while/NextIteration'', 0)] [] 2))
     = Inr [None, Some (AttrS ''loop1'')] \<and>
   fst (node_to_frame_names while_loop_graph
          (mk_node 9 ''while/add/y'' ''Const'' [] [] [''while/Identity''] 1))
     = Inr [] \<and>
   fst (node_to_frame_names while_loop_graph (mk_node 1 ''Const'' ''Const'' [] [] [] 1))
     = Inr [] \<and>
   fst (node_to_frame_names while_loop_graph
          (mk_node 12 ''while/Exit'' ''Exit'' [] [(''while/Switch'', 0)] [] 1))
     = Inr [None] \<and>
   fst (frame_name_to_nodes while_loop_graph (Some (AttrS ''loop1'')))
     = Inr [''while/Enter'', ''while/Less'', ''while/add'', ''while/Merge'',
            ''while/LoopCond'', ''while/NextIteration'', ''while/Switch'']"
  by code_simp

section \<open>Lookup in a transformation result\<close>

text \<open>
  C4 on the code.  Both \<^verbatim>\<open>_transformed_elem\<close> and \<^verbatim>\<open>_original_elem\<close> fetch the container
  with \<^verbatim>\<open>_get_transformed_map\<close> before they test for a string, and that function raises
  \<^verbatim>\<open>TypeError\<close> for everything that is neither a node nor a tensor.  So a lookup by a
  plain string never reaches the scan by name: whatever the mapping holds, it fails.
\<close>

theorem lookup_by_string_fails:
  "transformed_elem self (ElemStr s) missing_fn
     = Inl (TypeError ''Expected a gde.Tensor or a gde.Node'') \<and>
   original_elem self (ElemStr s) missing_fn
     = Inl (TypeError ''Expected a gde.Tensor or a gde.Node'') \<and>
   transformed self (Leaf (ElemStr s)) missing_fn
     = Inl (TypeError ''Expected a gde.Tensor or a gde.Node'') \<and>
   original self (Leaf (ElemStr s)) missing_fn
     = Inl (TypeError ''Expected a gde.Tensor or a gde.Node'')"
  by (simp add: transformed_elem_def original_elem_def get_transformed_map_def
      transformed_def original_def)

text \<open>Lookup by the object itself works as the claim expects of the lookup by name.\<close>

lemma lookup_by_object:
  "transformed_elem
     \<lparr>ti_graph = 0, ti_scope = [], ti_graph_dst = 0, ti_scope_dst = [],
      ti_transformed_ops = [((0, ''a''), (0, ''a_1''))], ti_transformed_ts = []\<rparr>
     (ElemNode (0, ''a'')) None = Inr (Some (ElemNode (0, ''a_1''))) \<and>
   original_elem
     \<lparr>ti_graph = 0, ti_scope = [], ti_graph_dst = 0, ti_scope_dst = [],
      ti_transformed_ops = [((0, ''a''), (0, ''a_1''))], ti_transformed_ts = []\<rparr>
     (ElemNode (0, ''a_1'')) None = Inr (Some (ElemNode (0, ''a'')))"
  by (simp add: transformed_elem_def original_elem_def get_transformed_map_def is_string_def)

section \<open>Loops that may raise\<close>

lemma for_action_invariant:
  assumes "for_action f xs s = (r, s')" and "P s"
    and "\<And>x t r t'. x \<in> set xs \<Longrightarrow> P t \<Longrightarrow> f x t = (r, t') \<Longrightarrow> P t'"
  shows "P s'"
  using assms
proof (induction xs arbitrary: s)
  case Nil
  then show ?case by simp
next
  case (Cons x xs)
  obtain r1 s1 where f: "f x s = (r1, s1)" by (cases "f x s")
  have p1: "P s1" using Cons.prems(3) [OF _ Cons.prems(2) f] by simp
  show ?case
  proof (cases r1)
    case (Inl e)
    with Cons.prems(1) f p1 show ?thesis by simp
  next
    case (Inr u)
    with Cons.prems(1) f have fa: "for_action f xs s1 = (r, s')" by simp
    show ?thesis
    proof (rule Cons.IH [OF fa p1])
      fix y t r t' assume "y \<in> set xs" "P t" "f y t = (r, t')"
      then show "P t'" using Cons.prems(3) [of y t r t'] by simp
    qed
  qed
qed

lemma map_action_invariant:
  assumes "map_action f xs s = (r, s')" and "P s"
    and "\<And>x t r t'. x \<in> set xs \<Longrightarrow> P t \<Longrightarrow> f x t = (r, t') \<Longrightarrow> P t'"
  shows "P s'"
  using assms
proof (induction xs arbitrary: s r s')
  case Nil
  then show ?case by simp
next
  case (Cons x xs)
  obtain r1 s1 where f: "f x s = (r1, s1)" by (cases "f x s")
  have p1: "P s1" using Cons.prems(3) [OF _ Cons.prems(2) f] by simp
  show ?case
  proof (cases r1)
    case (Inl e)
    with Cons.prems(1) f p1 show ?thesis by simp
  next
    case (Inr y)
    obtain r2 s2 where m: "map_action f xs s1 = (r2, s2)" by (cases "map_action f xs s1")
    have "P s2"
    proof (rule Cons.IH [OF m p1])
      fix y t r t' assume "y \<in> set xs" "P t" "f y t = (r, t')"
      then show "P t'" using Cons.prems(3) [of y t r t'] by simp
    qed
    moreover have "s' = s2"
      using Cons.prems(1) f Inr m by (cases r2) simp_all
    ultimately show ?thesis by simp
  qed
qed

lemma for_action_append:
  "for_action f (xs @ ys) s =
     (case for_action f xs s of
        (Inl e, s') \<Rightarrow> (Inl e, s')
      | (Inr u, s') \<Rightarrow> for_action f ys s')"
proof (induction xs arbitrary: s)
  case Nil
  show ?case by simp
next
  case (Cons x xs)
  show ?case
    by (cases "f x s") (auto simp: Cons split: sum.splits)
qed

section \<open>Disconnected targets\<close>

text \<open>
  C6.  When the walk forward from the keys of the replacement map and the walk backward
  from the targets share no node, \<^verbatim>\<open>graph_replace\<close> raises \<^verbatim>\<open>ValueError\<close> and leaves
  every graph as it was: no node has been created.  For targets that belong to one graph
  the error is the one of the connectivity check; for no target at all, or targets of
  several graphs, it is the \<^verbatim>\<open>ValueError\<close> of the check that comes before.
\<close>

theorem graph_replace_not_connected:
  assumes "get_walks_intersection_ops env (map fst replacement_ts) (flatten_tree target_ts) st
             = Inr []"
  shows "snd (graph_replace depth env target_ts replacement_ts dst_scope src_scope
                reuse_dst_scope st) = st \<and>
         (\<exists>msg. fst (graph_replace depth env target_ts replacement_ts dst_scope src_scope
                       reuse_dst_scope st) = Inl (ValueError msg)) \<and>
         (\<forall>g. get_unique_graph (flatten_tree target_ts) = Inr g \<longrightarrow>
            fst (graph_replace depth env target_ts replacement_ts dst_scope src_scope
                   reuse_dst_scope st)
              = Inl (ValueError ''Targets and replacements are not connected!''))"
proof (cases "get_unique_graph (flatten_tree target_ts)")
  case (Inl e)
  then obtain msg where "e = ValueError msg"
    by (auto simp: get_unique_graph_def split: list.splits if_splits)
  with Inl show ?thesis
    by (simp add: graph_replace_def Let_def)
next
  case (Inr g)
  with assms show ?thesis
    by (simp add: graph_replace_def Let_def)
qed

theorem graph_replace_not_connected_witness:
  "get_walks_intersection_ops plain_env (map fst [(((0, ''x''), 0), ((0, ''x2''), 0))])
     (flatten_tree (Leaf ((0, ''u''), 0))) replace_store = Inr [] \<and>
   get_unique_graph (flatten_tree (Leaf ((0 :: nat, ''u''), 0 :: nat))) = Inr 0 \<and>
   graph_replace 1000 plain_env (Leaf ((0, ''u''), 0)) [(((0, ''x''), 0), ((0, ''x2''), 0))]
     [] [] False replace_store
     = (Inl (ValueError ''Targets and replacements are not connected!''), replace_store)"
proof -
  have a: "get_walks_intersection_ops plain_env (map fst [(((0, ''x''), 0), ((0, ''x2''), 0))])
     (flatten_tree (Leaf ((0, ''u''), 0))) replace_store = Inr []"
    by code_simp
  have b: "get_unique_graph (flatten_tree (Leaf ((0 :: nat, ''u''), 0 :: nat))) = Inr 0"
    by (simp add: get_unique_graph_def)
  from graph_replace_not_connected [OF a, of 1000 "[]" "[]" False] b
  have "snd (graph_replace 1000 plain_env (Leaf ((0, ''u''), 0))
               [(((0, ''x''), 0), ((0, ''x2''), 0))] [] [] False replace_store) = replace_store"
    and "fst (graph_replace 1000 plain_env (Leaf ((0, ''u''), 0))
               [(((0, ''x''), 0), ((0, ''x2''), 0))] [] [] False replace_store)
         = Inl (ValueError ''Targets and replacements are not connected!'')"
    by blast+
  then have "graph_replace 1000 plain_env (Leaf ((0, ''u''), 0))
     [(((0, ''x''), 0), ((0, ''x2''), 0))] [] [] False replace_store
     = (Inl (ValueError ''Targets and replacements are not connected!''), replace_store)"
    by (simp add: prod_eq_iff)
  with a b show ?thesis by blast
qed

section \<open>The copy pass\<close>

lemma subset_union_trans: "A \<subseteq> B \<union> C \<Longrightarrow> C \<subseteq> D \<Longrightarrow> A \<subseteq> B \<union> D"
  by blast

lemma same_tables_refl [simp]: "same_tables info info"
  by (simp add: same_tables_def)

lemma same_tables_trans:
  "same_tables a b \<Longrightarrow> same_tables b c \<Longrightarrow> same_tables a c"
  by (simp add: same_tables_def)

lemma transformed_t_same_tables:
  "transformed_t depth env self t consumer_op (info, st) = (r, (info', st'))
   \<Longrightarrow> same_tables info info'"
proof (induction depth arbitrary: t info st r info' st')
  case 0
  then show ?case by simp
next
  case (Suc depth)
  show ?case
  proof (cases "map_of (transformed_ts info) t")
    case (Some t')
    with Suc.prems show ?thesis by simp
  next
    case None
    note none = this
    show ?thesis
    proof (cases "t \<in> sgv_inputs_set info")
      case True
      with none Suc.prems show ?thesis
        by (auto split: prod.splits)
    next
      case False
      note notin = this
      show ?thesis
      proof (cases "fst t \<in> info_ops info")
        case False
        with none notin Suc.prems show ?thesis
          by (auto split: prod.splits)
      next
        case True
        let ?inner = "(if op_type (node_of st consumer_op) = ''Merge'' then
                     (case op_inputs st consumer_op of
                        [] \<Rightarrow> (Inl (IndexError ''list index out of range''), (info, st))
                      | first_input # rest \<Rightarrow>
                          transformed_t depth env self first_input consumer_op (info, st))
                   else if op_type (node_of st (fst t)) = ''Enter'' then
                     (case op_inputs st (fst t) of
                        [] \<Rightarrow> (Inl (IndexError ''list index out of range''), (info, st))
                      | enter_input # rest \<Rightarrow>
                          transformed_t depth env self enter_input consumer_op (info, st))
                   else
                     (case make_placeholder_from_tensor env (info_graph_dst info) t
                             (info_scope_dst info) (Some ''geph_tmp'') st of
                        (r, st') \<Rightarrow> (r, (info, st'))))"
        obtain r1 info1 st1 where inner: "?inner = (r1, (info1, st1))"
          by (cases ?inner) auto
        have s1: "same_tables info info1"
          using inner Suc.IH
          by (auto split: if_splits list.splits prod.splits)
        have "transformed_t (Suc depth) env self t consumer_op (info, st)
              = (case (r1, (info1, st1)) of
                   (Inl e, s') \<Rightarrow> (Inl e, s')
                 | (Inr tmp_t', (info', st')) \<Rightarrow>
                     (Inr tmp_t',
                      (info'\<lparr>tmp_cyclic_ts := tmp_cyclic_ts info' @ [(t, tmp_t', consumer_op)]\<rparr>,
                       st')))"
          using none notin True inner by simp
        with Suc.prems have "same_tables info1 info'"
          by (cases r1) (auto simp: same_tables_def)
        with s1 show ?thesis by (rule same_tables_trans)
      qed
    qed
  qed
qed

lemma new_inputs_same_tables:
  assumes "map_action (\<lambda>t. transformed_t depth env self t op) ts (info, st) = (r, (info', st'))"
  shows "same_tables info info'"
proof -
  have "same_tables info (fst (info', st'))"
  proof (rule map_action_invariant [OF assms, where P = "\<lambda>s. same_tables info (fst s)"])
    fix x t r t'
    assume "same_tables info (fst t)" "transformed_t depth env self x op t = (r, t')"
    then show "same_tables info (fst t')"
      using transformed_t_same_tables [of depth env self x op "fst t" "snd t" r "fst t'" "snd t'"]
      by (auto intro: same_tables_trans)
  qed simp
  then show ?thesis by simp
qed

lemma record_outputs_tables:
  "record_outputs self pairs (info, st) = (r, (info', st')) \<Longrightarrow>
   transformed_ops info' = transformed_ops info \<and> info_sgv info' = info_sgv info \<and>
   fst ` set (transformed_ts info') \<subseteq> fst ` set (transformed_ts info) \<union> fst ` set pairs \<and>
   (r = Inr () \<longrightarrow>
      transformed_ts info' = fold (\<lambda>(t, t'). AList.update t t') pairs (transformed_ts info))"
proof (induction pairs arbitrary: info st)
  case Nil
  then show ?case by (simp add: record_outputs_def)
next
  case (Cons p pairs)
  obtain a b where p: "p = (a, b)" by (cases p)
  let ?info1 = "info\<lparr>transformed_ts := AList.update a b (transformed_ts info)\<rparr>"
  obtain r1 st1 where h: "assign_collections_handler self ?info1 (ElemTensor a) (ElemTensor b) st
      = (r1, st1)"
    by (cases "assign_collections_handler self ?info1 (ElemTensor a) (ElemTensor b) st")
  show ?case
  proof (cases r1)
    case (Inl e)
    with Cons.prems p h have "info' = ?info1" "r = Inl e"
      by (simp_all add: record_outputs_def Let_def)
    then show ?thesis by (auto simp: p dom_update)
  next
    case (Inr u)
    with Cons.prems p h have "record_outputs self pairs (?info1, st1) = (r, (info', st'))"
      by (simp add: record_outputs_def Let_def)
    from Cons.IH [OF this] show ?thesis
      by (auto simp: p dom_update)
  qed
qed

lemma copy_op_cases:
  assumes "copy_op depth env self op (info, st) = (r, (info', st'))"
  shows "same_tables info info' \<and> r \<noteq> Inr () \<or>
         (\<exists>new_inputs info1 st1 op' op_outputs' st2 st3.
            map_action (\<lambda>t. transformed_t depth env self t op) (op_inputs st op) (info, st)
              = (Inr new_inputs, (info1, st1)) \<and>
            same_tables info info1 \<and>
            transform_op_handler self info1 op new_inputs st1 = (Inr (op', op_outputs'), st2) \<and>
            op' \<noteq> op \<and>
            transformed_ops info' = AList.update op op' (transformed_ops info) \<and>
            info_sgv info' = info_sgv info \<and>
            fst ` set (transformed_ts info')
              \<subseteq> fst ` set (transformed_ts info) \<union> set (op_outputs st3 op) \<and>
            (r = Inr () \<longrightarrow>
               transformed_ts info'
                 = fold (\<lambda>(t, t'). AList.update t t') (zip (op_outputs st3 op) op_outputs')
                     (transformed_ts info)))"
proof -
  obtain r1 info1 st1 where m:
    "map_action (\<lambda>t. transformed_t depth env self t op) (op_inputs st op) (info, st)
       = (r1, (info1, st1))"
    by (cases "map_action (\<lambda>t. transformed_t depth env self t op) (op_inputs st op) (info, st)")
      auto
  have s1: "same_tables info info1"
    by (rule new_inputs_same_tables [OF m])
  show ?thesis
  proof (cases r1)
    case (Inl e)
    with assms m s1 show ?thesis
      by (auto simp: copy_op_def)
  next
    case (Inr new_inputs)
    note r1 = this
    obtain r2 st2 where h: "transform_op_handler self info1 op new_inputs st1 = (r2, st2)"
      by (cases "transform_op_handler self info1 op new_inputs st1")
    show ?thesis
    proof (cases r2)
      case (Inl e)
      with assms m r1 h s1 show ?thesis
        by (auto simp: copy_op_def)
    next
      case (Inr res)
      obtain op' op_outputs' where res: "res = (op', op_outputs')" by (cases res)
      show ?thesis
      proof (cases "op = op'")
        case True
        with assms m r1 h Inr res s1 show ?thesis
          by (auto simp: copy_op_def)
      next
        case False
        let ?info2 = "info1\<lparr>transformed_ops := AList.update op op' (transformed_ops info1)\<rparr>"
        obtain r3 st3 where c:
          "assign_collections_handler self ?info2 (ElemNode op) (ElemNode op') st2 = (r3, st3)"
          by (cases "assign_collections_handler self ?info2 (ElemNode op) (ElemNode op') st2")
        have rec: "record_op self op op' op_outputs' (info1, st2) = (r, (info', st'))"
          using assms m r1 h Inr res False by (simp add: copy_op_def)
        have "transformed_ops info' = AList.update op op' (transformed_ops info) \<and>
              info_sgv info' = info_sgv info \<and>
              fst ` set (transformed_ts info')
                \<subseteq> fst ` set (transformed_ts info) \<union> set (op_outputs st3 op) \<and>
              (r = Inr () \<longrightarrow>
                 transformed_ts info'
                   = fold (\<lambda>(t, t'). AList.update t t') (zip (op_outputs st3 op) op_outputs')
                       (transformed_ts info))"
        proof (cases r3)
          case (Inl e)
          with rec c have "info' = ?info2" "r = Inl e"
            by (simp_all add: record_op_def Let_def)
          with s1 show ?thesis by (auto simp: same_tables_def)
        next
          case (Inr u)
          with rec c have "record_outputs self (zip (op_outputs st3 op) op_outputs') (?info2, st3)
                           = (r, (info', st'))"
            by (simp add: record_op_def Let_def)
          from record_outputs_tables [OF this]
          have ro: "transformed_ops info' = transformed_ops ?info2"
            "info_sgv info' = info_sgv ?info2"
            "fst ` set (transformed_ts info')
               \<subseteq> fst ` set (transformed_ts ?info2)
                 \<union> fst ` set (zip (op_outputs st3 op) op_outputs')"
            "r = Inr () \<longrightarrow> transformed_ts info'
               = fold (\<lambda>(t, t'). AList.update t t') (zip (op_outputs st3 op) op_outputs')
                   (transformed_ts ?info2)"
            by blast+
          have z: "fst ` set (zip (op_outputs st3 op) op_outputs') \<subseteq> set (op_outputs st3 op)"
            by (auto dest: set_zip_leftD)
          have t2: "transformed_ts ?info2 = transformed_ts info"
            "transformed_ops ?info2 = AList.update op op' (transformed_ops info)"
            "info_sgv ?info2 = info_sgv info"
            using s1 by (simp_all add: same_tables_def)
          have "fst ` set (transformed_ts info')
                  \<subseteq> fst ` set (transformed_ts info) \<union> set (op_outputs st3 op)"
            using ro(3) z unfolding t2 by (rule subset_union_trans)
          with ro(1,2,4) show ?thesis
            unfolding t2 by simp
        qed
        then have "\<exists>new_inputs info1 st1 op' op_outputs' st2 st3.
            map_action (\<lambda>t. transformed_t depth env self t op) (op_inputs st op) (info, st)
              = (Inr new_inputs, (info1, st1)) \<and>
            same_tables info info1 \<and>
            transform_op_handler self info1 op new_inputs st1 = (Inr (op', op_outputs'), st2) \<and>
            op' \<noteq> op \<and>
            transformed_ops info' = AList.update op op' (transformed_ops info) \<and>
            info_sgv info' = info_sgv info \<and>
            fst ` set (transformed_ts info')
              \<subseteq> fst ` set (transformed_ts info) \<union> set (op_outputs st3 op) \<and>
            (r = Inr () \<longrightarrow>
               transformed_ts info'
                 = fold (\<lambda>(t, t'). AList.update t t') (zip (op_outputs st3 op) op_outputs')
                     (transformed_ts info))"
          using m r1 h Inr res False s1
          by (intro exI [of _ new_inputs] exI [of _ info1] exI [of _ st1] exI [of _ op']
              exI [of _ op_outputs'] exI [of _ st2] exI [of _ st3]) auto
        then show ?thesis ..
      qed
    qed
  qed
qed

lemma op_outputs_fst: "t \<in> set (op_outputs st op) \<Longrightarrow> fst t = op"
  by (auto simp: op_outputs_def)

lemma copy_op_keys_in_view:
  assumes "copy_op depth env self op s = (r, s')" and "keys_in_view sgv s"
    and "op \<in> set (sgv_ops sgv)"
  shows "keys_in_view sgv s'"
proof -
  obtain info st info' st' where s: "s = (info, st)" "s' = (info', st')"
    by (cases s, cases s') auto
  from copy_op_cases [OF assms(1) [unfolded s]]
  have "info_sgv info' = info_sgv info \<and>
        (\<exists>st3. fst ` set (transformed_ts info')
                 \<subseteq> fst ` set (transformed_ts info) \<union> set (op_outputs st3 op))"
    by (auto simp: same_tables_def)
  then obtain st3 where a: "info_sgv info' = info_sgv info"
    "fst ` set (transformed_ts info') \<subseteq> fst ` set (transformed_ts info) \<union> set (op_outputs st3 op)"
    by blast
  show ?thesis
    unfolding keys_in_view_def s
  proof (intro conjI ballI)
    show "info_sgv (fst (info', st')) = sgv"
      using a(1) assms(2) by (simp add: keys_in_view_def s)
    fix t assume "t \<in> fst ` set (transformed_ts (fst (info', st')))"
    with a(2) have "t \<in> fst ` set (transformed_ts info) \<or> t \<in> set (op_outputs st3 op)"
      by auto
    then show "fst t \<in> set (sgv_ops sgv)"
      using assms(2,3) op_outputs_fst [of t st3 op] by (auto simp: keys_in_view_def s)
  qed
qed

lemma set_sorted_ops: "set (sorted_ops info st) = set (sgv_ops (info_sgv info))"
  by (simp add: sorted_ops_def)

lemma copy_ops_keys_in_view:
  assumes "copy_ops depth env self s = (r, s')" and "keys_in_view sgv s"
  shows "keys_in_view sgv s'"
proof (rule for_action_invariant [where P = "keys_in_view sgv",
      OF assms(1) [unfolded copy_ops_def] assms(2)])
  fix x t r t'
  assume "x \<in> set (sorted_ops (fst s) (snd s))" "keys_in_view sgv t"
    "copy_op depth env self x t = (r, t')"
  moreover have "info_sgv (fst s) = sgv" using assms(2) by (simp add: keys_in_view_def)
  ultimately show "keys_in_view sgv t'"
    using copy_op_keys_in_view [of depth env self x t r t' sgv] by (simp add: set_sorted_ops)
qed

lemma finalize_cycles_info: "finalize_cycles env s = (r, s') \<Longrightarrow> fst s' = fst s"
proof -
  assume a: "finalize_cycles env s = (r, s')"
  show "fst s' = fst s"
    by (rule for_action_invariant [OF a [unfolded finalize_cycles_def],
          where P = "\<lambda>t. fst t = fst s"])
      (auto split: option.splits sum.splits prod.splits)
qed

lemma connect_control_inputs_info:
  "connect_control_inputs env self s = (r, s') \<Longrightarrow> fst s' = fst s"
proof -
  assume a: "connect_control_inputs env self s = (r, s')"
  show "fst s' = fst s"
    by (rule for_action_invariant [OF a [unfolded connect_control_inputs_def],
          where P = "\<lambda>t. fst t = fst s"])
      (auto split: option.splits sum.splits prod.splits)
qed

text \<open>What a call that returns has gone through.\<close>

lemma call_returns:
  assumes "call depth env self sgv dst_graph dst_scope src_scope reuse_dst_scope st
             = (Inr (sgv', res_info), st')"
  shows "\<exists>info0 info1 st1.
           info0 = call_info env sgv dst_graph dst_scope src_scope reuse_dst_scope st \<and>
           info_sgv info0 = sgv \<and> transformed_ops info0 = [] \<and> transformed_ts info0 = [] \<and>
           copy_ops depth env self (info0, st) = (Inr (), (info1, st1)) \<and>
           res_info = TransformerInfo info1"
proof -
  let ?info0 = "call_info env sgv dst_graph dst_scope src_scope reuse_dst_scope st"
  obtain r1 s1 where c: "copy_ops depth env self (?info0, st) = (r1, s1)"
    by (cases "copy_ops depth env self (?info0, st)")
  obtain info1 st1 where s1: "s1 = (info1, st1)" by (cases s1)
  show ?thesis
  proof (cases r1)
    case (Inl e)
    with assms c s1 show ?thesis
      by (simp add: call_def Let_def bind_action_def)
  next
    case (Inr u)
    note r1 = this
    obtain r2 s2 where f: "finalize_cycles env s1 = (r2, s2)"
      by (cases "finalize_cycles env s1")
    have s2: "fst s2 = info1" using finalize_cycles_info [OF f] s1 by simp
    show ?thesis
    proof (cases r2)
      case (Inl e)
      with assms c s1 r1 f show ?thesis
        by (cases s2) (simp add: call_def Let_def bind_action_def)
    next
      case (Inr u2)
      note r2 = this
      obtain r3 s3 where k: "connect_control_inputs env self s2 = (r3, s3)"
        by (cases "connect_control_inputs env self s2")
      have s3: "fst s3 = info1" using connect_control_inputs_info [OF k] s2 by simp
      have "res_info = TransformerInfo info1"
        using assms c s1 r1 f r2 k s3
        by (cases s3; cases r3)
          (auto simp: call_def Let_def bind_action_def split: sum.splits)
      moreover have "r1 = Inr ()" using r1 by simp
      ultimately show ?thesis
        using c s1 by (intro exI [of _ ?info0] exI [of _ info1] exI [of _ st1])
          (simp add: TmpInfo_def call_info_def Let_def)
    qed
  qed
qed

lemma call_keys_in_view:
  assumes "call depth env self sgv dst_graph dst_scope src_scope reuse_dst_scope st
             = (Inr (sgv', res_info), st')"
  shows "\<forall>t. fst t \<notin> set (sgv_ops sgv) \<longrightarrow> map_of (ti_transformed_ts res_info) t = None"
proof -
  from call_returns [OF assms] obtain info0 info1 st1 where
    a: "info_sgv info0 = sgv" "transformed_ts info0 = []"
      "copy_ops depth env self (info0, st) = (Inr (), (info1, st1))"
      "res_info = TransformerInfo info1"
    by blast
  have "keys_in_view sgv (info0, st)"
    using a(1,2) by (simp add: keys_in_view_def)
  from copy_ops_keys_in_view [OF a(3) this]
  have "\<forall>t \<in> fst ` set (transformed_ts info1). fst t \<in> set (sgv_ops sgv)"
    by (simp add: keys_in_view_def)
  then show ?thesis
    by (auto simp: a(4) TransformerInfo_def map_of_eq_None_iff)
qed

section \<open>Mapping the targets\<close>

lemma map_of_ElemTensor:
  "map_of (map (\<lambda>(a, b). (ElemTensor a, ElemTensor b)) m) (ElemTensor t)
     = map_option ElemTensor (map_of m t)"
  by (induction m) auto

lemma transformed_elem_tensor:
  "transformed_elem info (ElemTensor t) (Some (\<lambda>original_t. original_t)) = Inr (target_of info t)"
  by (simp add: transformed_elem_def get_transformed_map_def is_string_def map_of_ElemTensor
      missing_def target_of_def split: option.splits)

lemma transform_trees_map:
  assumes "\<And>t. t \<in> set ts \<Longrightarrow> transform_tree fn (g t) = Inr (h t)"
  shows "transform_trees fn (map g ts) = Inr (map h ts)"
  using assms by (induction ts) simp_all

lemma transform_items_map:
  assumes "\<And>k t. (k, t) \<in> set kvs \<Longrightarrow> transform_tree fn (g t) = Inr (h t)"
  shows "transform_items fn (map (map_prod id g) kvs) = Inr (map (map_prod id h) kvs)"
  using assms
proof (induction kvs)
  case Nil
  show ?case by simp
next
  case (Cons kv kvs)
  obtain k t where kv: "kv = (k, t)" by (cases kv)
  have "transform_tree fn (g t) = Inr (h t)"
    using Cons.prems [of k t] by (simp add: kv)
  moreover have "transform_items fn (map (map_prod id g) kvs) = Inr (map (map_prod id h) kvs)"
  proof (rule Cons.IH)
    fix k' t' assume "(k', t') \<in> set kvs"
    then show "transform_tree fn (g t') = Inr (h t')"
      using Cons.prems [of k' t'] by simp
  qed
  ultimately show ?case by (simp add: kv id_def)
qed

lemma transform_tree_targets:
  "transform_tree (\<lambda>leaf. transformed_elem info leaf (Some (\<lambda>original_t. original_t)))
      (map_tree ElemTensor t) = Inr (map_tree (target_of info) t)"
proof (induction t)
  case (Leaf x)
  show ?case by (simp add: transformed_elem_tensor)
next
  case (Seq ts)
  then show ?case by (simp add: transform_trees_map)
next
  case (Dict kvs)
  have "transform_items (\<lambda>leaf. transformed_elem info leaf (Some (\<lambda>original_t. original_t)))
          (map (map_prod id (map_tree ElemTensor)) kvs)
        = Inr (map (map_prod id (map_tree (target_of info))) kvs)"
  proof (rule transform_items_map)
    fix k t assume "(k, t) \<in> set kvs"
    then show "transform_tree (\<lambda>leaf. transformed_elem info leaf (Some (\<lambda>original_t. original_t)))
                 (map_tree ElemTensor t) = Inr (map_tree (target_of info) t)"
      using Dict.IH [of "(k, t)" t] by simp
  qed
  then show ?case by simp
qed

section \<open>What the copy pass records\<close>

lemma for_action_split:
  assumes "for_action f xs s = (Inr (), s')" and "x \<in> set xs"
  shows "\<exists>pre post s1 s2. xs = pre @ x # post \<and> x \<notin> set post \<and>
           for_action f pre s = (Inr (), s1) \<and> f x s1 = (Inr (), s2) \<and>
           for_action f post s2 = (Inr (), s')"
proof -
  from split_list_last [OF assms(2)] obtain pre post where
    xs: "xs = pre @ x # post" "x \<notin> set post"
    by blast
  obtain r1 s1 where p: "for_action f pre s = (r1, s1)" by (cases "for_action f pre s")
  have r1: "r1 = Inr ()"
    using assms(1) p by (cases r1) (simp_all add: xs for_action_append)
  obtain r2 s2 where q: "f x s1 = (r2, s2)" by (cases "f x s1")
  have r2: "r2 = Inr ()"
    using assms(1) p r1 q by (cases r2) (simp_all add: xs for_action_append)
  have "for_action f post s2 = (Inr (), s')"
    using assms(1) p r1 q r2 by (simp add: xs for_action_append)
  with xs p r1 q r2 show ?thesis by blast
qed

lemma fold_update_other:
  "k \<notin> fst ` set pairs \<Longrightarrow>
   map_of (fold (\<lambda>(t, t'). AList.update t t') pairs al) k = map_of al k"
  by (induction pairs arbitrary: al) (auto simp: update_conv')

lemma fold_update_recorded:
  "distinct (map fst pairs) \<Longrightarrow> p \<in> set pairs \<Longrightarrow>
   map_of (fold (\<lambda>(t, t'). AList.update t t') pairs al) (fst p) = Some (snd p)"
proof (induction pairs arbitrary: al)
  case Nil
  then show ?case by simp
next
  case (Cons q pairs)
  obtain a b where q: "q = (a, b)" by (cases q)
  show ?case
  proof (cases "p \<in> set pairs")
    case True
    with Cons show ?thesis by (simp add: q)
  next
    case False
    with Cons.prems have p: "p = (a, b)" and "a \<notin> fst ` set pairs"
      by (auto simp: q)
    then show ?thesis
      by (simp add: q fold_update_other update_conv')
  qed
qed

lemma record_outputs_other:
  "record_outputs self pairs (info, st) = (r, (info', st')) \<Longrightarrow> k \<notin> fst ` set pairs \<Longrightarrow>
   map_of (transformed_ts info') k = map_of (transformed_ts info) k"
proof (induction pairs arbitrary: info st)
  case Nil
  then show ?case by (simp add: record_outputs_def)
next
  case (Cons p pairs)
  obtain a b where p: "p = (a, b)" by (cases p)
  let ?info1 = "info\<lparr>transformed_ts := AList.update a b (transformed_ts info)\<rparr>"
  obtain r1 st1 where h: "assign_collections_handler self ?info1 (ElemTensor a) (ElemTensor b) st
      = (r1, st1)"
    by (cases "assign_collections_handler self ?info1 (ElemTensor a) (ElemTensor b) st")
  have ka: "k \<noteq> a" using Cons.prems(2) by (auto simp: p)
  show ?case
  proof (cases r1)
    case (Inl e)
    with Cons.prems p h have "info' = ?info1"
      by (simp_all add: record_outputs_def Let_def)
    then show ?thesis using ka by (simp add: update_conv')
  next
    case (Inr u)
    with Cons.prems p h have "record_outputs self pairs (?info1, st1) = (r, (info', st'))"
      by (simp add: record_outputs_def Let_def)
    from Cons.IH [OF this] Cons.prems(2) ka show ?thesis
      by (simp add: update_conv')
  qed
qed

lemma distinct_op_outputs: "distinct (op_outputs st op)"
  by (simp add: op_outputs_def distinct_map inj_on_def)

lemma copy_step_pairs:
  assumes "copy_step depth env self op s = Some (op', pairs)"
  shows "distinct (map fst pairs)" and "\<forall>p\<in>set pairs. fst (fst p) = op"
proof -
  from assms obtain st3 outs where pairs: "pairs = zip (op_outputs st3 op) outs"
    by (auto simp: copy_step_def split: prod.splits sum.splits)
  show "distinct (map fst pairs)"
    by (simp add: pairs map_fst_zip_take distinct_op_outputs)
  show "\<forall>p\<in>set pairs. fst (fst p) = op"
  proof
    fix p assume pp: "p \<in> set pairs"
    obtain a b where p: "p = (a, b)" by (cases p)
    from pp have "a \<in> set (op_outputs st3 op)"
      unfolding p pairs by (rule set_zip_leftD)
    then show "fst (fst p) = op" by (simp add: p op_outputs_fst)
  qed
qed

lemma copy_op_tables:
  assumes "copy_op depth env self op (info, st) = (r, (info', st'))"
  shows "(\<forall>y. y \<noteq> op \<longrightarrow> map_of (transformed_ops info') y = map_of (transformed_ops info) y) \<and>
         (\<forall>k. fst k \<noteq> op \<longrightarrow> map_of (transformed_ts info') k = map_of (transformed_ts info) k) \<and>
         (r = Inr () \<longrightarrow>
            (\<exists>op' pairs.
               copy_step depth env self op (info, st) = Some (op', pairs) \<and> op' \<noteq> op \<and>
               transformed_ops info' = AList.update op op' (transformed_ops info) \<and>
               transformed_ts info'
                 = fold (\<lambda>(t, t'). AList.update t t') pairs (transformed_ts info)))"
proof -
  obtain r1 info1 st1 where m:
    "map_action (\<lambda>t. transformed_t depth env self t op) (op_inputs st op) (info, st)
       = (r1, (info1, st1))"
    by (cases "map_action (\<lambda>t. transformed_t depth env self t op) (op_inputs st op) (info, st)")
      auto
  have s1: "same_tables info info1"
    by (rule new_inputs_same_tables [OF m])
  then have e1: "transformed_ops info1 = transformed_ops info"
    "transformed_ts info1 = transformed_ts info"
    by (simp_all add: same_tables_def)
  show ?thesis
  proof (cases r1)
    case (Inl e)
    with assms m e1 show ?thesis
      by (auto simp: copy_op_def)
  next
    case (Inr new_inputs)
    note r1 = this
    obtain r2 st2 where h: "transform_op_handler self info1 op new_inputs st1 = (r2, st2)"
      by (cases "transform_op_handler self info1 op new_inputs st1")
    show ?thesis
    proof (cases r2)
      case (Inl e)
      with assms m r1 h e1 show ?thesis
        by (auto simp: copy_op_def)
    next
      case (Inr res)
      obtain op' op_outputs' where res: "res = (op', op_outputs')" by (cases res)
      show ?thesis
      proof (cases "op = op'")
        case True
        with assms m r1 h Inr res e1 show ?thesis
          by (auto simp: copy_op_def)
      next
        case False
        let ?info2 = "info1\<lparr>transformed_ops := AList.update op op' (transformed_ops info1)\<rparr>"
        obtain r3 st3 where c:
          "assign_collections_handler self ?info2 (ElemNode op) (ElemNode op') st2 = (r3, st3)"
          by (cases "assign_collections_handler self ?info2 (ElemNode op) (ElemNode op') st2")
        have rec: "record_op self op op' op_outputs' (info1, st2) = (r, (info', st'))"
          using assms m r1 h Inr res False by (simp add: copy_op_def)
        show ?thesis
        proof (cases r3)
          case (Inl e)
          with rec c have "info' = ?info2" "r = Inl e"
            by (simp_all add: record_op_def Let_def)
          then show ?thesis by (simp add: e1 update_conv')
        next
          case (Inr u)
          let ?pairs = "zip (op_outputs st3 op) op_outputs'"
          from Inr rec c have ro: "record_outputs self ?pairs (?info2, st3) = (r, (info', st'))"
            by (simp add: record_op_def Let_def)
          from record_outputs_tables [OF ro]
          have ops: "transformed_ops info' = AList.update op op' (transformed_ops info)"
            and ts: "r = Inr () \<longrightarrow> transformed_ts info'
               = fold (\<lambda>(t, t'). AList.update t t') ?pairs (transformed_ts info)"
            by (simp_all add: e1)
          have step: "copy_step depth env self op (info, st) = Some (op', ?pairs)"
            using m r1 h \<open>r2 = Inr res\<close> res c Inr by (simp add: copy_step_def)
          have other: "map_of (transformed_ts info') k = map_of (transformed_ts info) k"
            if "fst k \<noteq> op" for k
          proof -
            have "k \<notin> fst ` set ?pairs"
              using that op_outputs_fst [of k st3 op] by (auto dest: set_zip_leftD)
            from record_outputs_other [OF ro this] show ?thesis by (simp add: e1)
          qed
          have "\<forall>y. y \<noteq> op \<longrightarrow> map_of (transformed_ops info') y = map_of (transformed_ops info) y"
            by (simp add: ops update_conv')
          moreover have "\<forall>k. fst k \<noteq> op
              \<longrightarrow> map_of (transformed_ts info') k = map_of (transformed_ts info) k"
            using other by blast
          moreover have "r = Inr () \<longrightarrow>
            (\<exists>op' pairs.
               copy_step depth env self op (info, st) = Some (op', pairs) \<and> op' \<noteq> op \<and>
               transformed_ops info' = AList.update op op' (transformed_ops info) \<and>
               transformed_ts info'
                 = fold (\<lambda>(t, t'). AList.update t t') pairs (transformed_ts info))"
            using step False ops ts by blast
          ultimately show ?thesis by (intro conjI)
        qed
      qed
    qed
  qed
qed

lemma for_copy_op_untouched:
  assumes "for_action (copy_op depth env self) xs s = (r, s')" and "op \<notin> set xs"
  shows "map_of (transformed_ops (fst s')) op = map_of (transformed_ops (fst s)) op \<and>
         (\<forall>k. fst k = op \<longrightarrow>
            map_of (transformed_ts (fst s')) k = map_of (transformed_ts (fst s)) k)"
proof (rule for_action_invariant [OF assms(1), where
      P = "\<lambda>t. map_of (transformed_ops (fst t)) op = map_of (transformed_ops (fst s)) op \<and>
         (\<forall>k. fst k = op \<longrightarrow>
            map_of (transformed_ts (fst t)) k = map_of (transformed_ts (fst s)) k)"])
  show "map_of (transformed_ops (fst s)) op = map_of (transformed_ops (fst s)) op \<and>
         (\<forall>k. fst k = op \<longrightarrow>
            map_of (transformed_ts (fst s)) k = map_of (transformed_ts (fst s)) k)"
    by simp
next
  fix x t r t'
  assume x: "x \<in> set xs"
    and p: "map_of (transformed_ops (fst t)) op = map_of (transformed_ops (fst s)) op \<and>
         (\<forall>k. fst k = op \<longrightarrow>
            map_of (transformed_ts (fst t)) k = map_of (transformed_ts (fst s)) k)"
    and c: "copy_op depth env self x t = (r, t')"
  from x assms(2) have ne: "op \<noteq> x" by auto
  from c have "copy_op depth env self x (fst t, snd t) = (r, (fst t', snd t'))" by simp
  note T = copy_op_tables [OF this]
  have a: "map_of (transformed_ops (fst t')) op = map_of (transformed_ops (fst t)) op"
    using T [THEN conjunct1, rule_format, of op] ne by simp
  have b: "\<forall>k. fst k = op
             \<longrightarrow> map_of (transformed_ts (fst t')) k = map_of (transformed_ts (fst t)) k"
  proof (intro allI impI)
    fix k :: tensor_ref
    assume "fst k = op"
    then have "fst k \<noteq> x" using ne by simp
    then show "map_of (transformed_ts (fst t')) k = map_of (transformed_ts (fst t)) k"
      by (rule T [THEN conjunct2, THEN conjunct1, rule_format])
  qed
  from a b p show "map_of (transformed_ops (fst t')) op = map_of (transformed_ops (fst s)) op \<and>
         (\<forall>k. fst k = op \<longrightarrow>
            map_of (transformed_ts (fst t')) k = map_of (transformed_ts (fst s)) k)"
    by simp
qed

lemma for_copy_op_records:
  assumes "for_action (copy_op depth env self) xs s = (Inr (), s')" and "op \<in> set xs"
  shows "\<exists>pre post s1 op' pairs.
           xs = pre @ op # post \<and> op \<notin> set post \<and>
           for_action (copy_op depth env self) pre s = (Inr (), s1) \<and>
           copy_step depth env self op s1 = Some (op', pairs) \<and> op' \<noteq> op \<and>
           map_of (transformed_ops (fst s')) op = Some op' \<and>
           (\<forall>k. fst k = op \<longrightarrow>
              map_of (transformed_ts (fst s')) k
                = map_of (fold (\<lambda>(t, t'). AList.update t t') pairs (transformed_ts (fst s1))) k)"
proof -
  from for_action_split [OF assms] obtain pre post s1 s2 where
    xs: "xs = pre @ op # post" "op \<notin> set post"
    and p: "for_action (copy_op depth env self) pre s = (Inr (), s1)"
    and c: "copy_op depth env self op s1 = (Inr (), s2)"
    and q: "for_action (copy_op depth env self) post s2 = (Inr (), s')"
    by blast
  from c have "copy_op depth env self op (fst s1, snd s1) = (Inr (), (fst s2, snd s2))" by simp
  from copy_op_tables [OF this] obtain op' pairs where
    step: "copy_step depth env self op s1 = Some (op', pairs)" "op' \<noteq> op"
    and ops: "transformed_ops (fst s2) = AList.update op op' (transformed_ops (fst s1))"
    and ts: "transformed_ts (fst s2)
               = fold (\<lambda>(t, t'). AList.update t t') pairs (transformed_ts (fst s1))"
    by auto
  from for_copy_op_untouched [OF q xs(2)]
  have u: "map_of (transformed_ops (fst s')) op = map_of (transformed_ops (fst s2)) op"
    "\<forall>k. fst k = op \<longrightarrow> map_of (transformed_ts (fst s')) k = map_of (transformed_ts (fst s2)) k"
    by simp_all
  have "map_of (transformed_ops (fst s')) op = Some op'"
    using u(1) by (simp add: ops update_conv')
  moreover have "\<forall>k. fst k = op \<longrightarrow>
              map_of (transformed_ts (fst s')) k
                = map_of (fold (\<lambda>(t, t'). AList.update t t') pairs (transformed_ts (fst s1))) k"
    using u(2) by (simp add: ts)
  ultimately show ?thesis
    using xs p step by blast
qed

lemma copy_ops_records:
  assumes "copy_ops depth env self s = (Inr (), s')"
    and "op \<in> set (sgv_ops (info_sgv (fst s)))"
  shows "\<exists>op' pairs.
           copied_in_pass depth env self s op op' pairs \<and> op' \<noteq> op \<and>
           map_of (transformed_ops (fst s')) op = Some op' \<and>
           (\<forall>(t, t')\<in>set pairs. map_of (transformed_ts (fst s')) t = Some t') \<and>
           (distinct (sgv_ops (info_sgv (fst s))) \<and> transformed_ts (fst s) = [] \<longrightarrow>
              (\<forall>k. fst k = op \<and> k \<notin> fst ` set pairs
                   \<longrightarrow> map_of (transformed_ts (fst s')) k = None))"
proof -
  let ?xs = "sorted_ops (fst s) (snd s)"
  have "op \<in> set ?xs" using assms(2) by (simp add: set_sorted_ops)
  from for_copy_op_records [OF assms(1) [unfolded copy_ops_def] this]
  obtain pre post s1 op' pairs where
    xs: "?xs = pre @ op # post" "op \<notin> set post"
    and p: "for_action (copy_op depth env self) pre s = (Inr (), s1)"
    and step: "copy_step depth env self op s1 = Some (op', pairs)" "op' \<noteq> op"
    and ops: "map_of (transformed_ops (fst s')) op = Some op'"
    and ts: "\<forall>k. fst k = op \<longrightarrow>
              map_of (transformed_ts (fst s')) k
                = map_of (fold (\<lambda>(t, t'). AList.update t t') pairs (transformed_ts (fst s1))) k"
    by blast
  have cp: "copied_in_pass depth env self s op op' pairs"
    unfolding copied_in_pass_def using xs p step(1) by blast
  note sp = copy_step_pairs [OF step(1)]
  have pos: "\<forall>(t, t')\<in>set pairs. map_of (transformed_ts (fst s')) t = Some t'"
  proof (clarify)
    fix t t' assume m: "(t, t') \<in> set pairs"
    then have ft: "fst t = op" using sp(2) by auto
    have "map_of (transformed_ts (fst s')) t
        = map_of (fold (\<lambda>(t, t'). AList.update t t') pairs (transformed_ts (fst s1))) t"
      by (rule ts [rule_format, OF ft])
    also have "\<dots> = Some t'"
      using fold_update_recorded [OF sp(1) m] by simp
    finally show "map_of (transformed_ts (fst s')) t = Some t'" .
  qed
  have neg: "\<forall>k. fst k = op \<and> k \<notin> fst ` set pairs
                   \<longrightarrow> map_of (transformed_ts (fst s')) k = None"
    if d: "distinct (sgv_ops (info_sgv (fst s)))" and e: "transformed_ts (fst s) = []"
  proof (intro allI impI)
    fix k assume k: "fst k = op \<and> k \<notin> fst ` set pairs"
    have "distinct ?xs" using d by (simp add: sorted_ops_def)
    then have "op \<notin> set pre" by (simp add: xs(1))
    then have "map_of (transformed_ts (fst s1)) k = None"
      using for_copy_op_untouched [OF p, THEN conjunct2, rule_format, OF _ conjunct1 [OF k]] e
      by simp
    moreover have "map_of (transformed_ts (fst s')) k
        = map_of (fold (\<lambda>(t, t'). AList.update t t') pairs (transformed_ts (fst s1))) k"
      by (rule ts [rule_format, OF conjunct1 [OF k]])
    ultimately show "map_of (transformed_ts (fst s')) k = None"
      using k by (simp add: fold_update_other)
  qed
  from cp step(2) ops pos neg show ?thesis by blast
qed

lemma call_records:
  assumes "call depth env self sgv dst_graph dst_scope src_scope reuse_dst_scope st
             = (Inr (sgv', res_info), st')"
    and "op \<in> set (sgv_ops sgv)"
  shows "\<exists>op' pairs.
           copied_in_pass depth env self
             (call_info env sgv dst_graph dst_scope src_scope reuse_dst_scope st, st)
             op op' pairs \<and>
           op' \<noteq> op \<and>
           map_of (ti_transformed_ops res_info) op = Some op' \<and>
           (\<forall>(t, t')\<in>set pairs. map_of (ti_transformed_ts res_info) t = Some t') \<and>
           (distinct (sgv_ops sgv) \<longrightarrow>
              (\<forall>k. fst k = op \<and> k \<notin> fst ` set pairs
                   \<longrightarrow> map_of (ti_transformed_ts res_info) k = None))"
proof -
  from call_returns [OF assms(1)] obtain info0 info1 st1 where
    a: "info0 = call_info env sgv dst_graph dst_scope src_scope reuse_dst_scope st"
      "info_sgv info0 = sgv" "transformed_ts info0 = []"
      "copy_ops depth env self (info0, st) = (Inr (), (info1, st1))"
      "res_info = TransformerInfo info1"
    by blast
  have "op \<in> set (sgv_ops (info_sgv (fst (info0, st))))"
    using assms(2) a(2) by simp
  from copy_ops_records [OF a(4) this]
  show ?thesis
    using a(2,3) by (simp add: a(1) [symmetric] a(5) TransformerInfo_def)
qed

lemma copy_op_handler_outputs:
  "copy_op_handler env copy_shape_and_dtype nodedef_fn info op new_inputs st
     = (Inr (op', outs), st2) \<Longrightarrow> outs = op_outputs st2 op'"
  by (auto simp: copy_op_handler_def Let_def bind_action_def
      split: sum.splits prod.splits option.splits if_splits)

lemma copy_step_copy_handler:
  assumes "transform_op_handler self = copy_op_handler env copy_shape_and_dtype nodedef_fn"
    and "copy_step depth env self op s = Some (op', pairs)"
  shows "\<forall>i<length pairs. pairs ! i = ((op, i), (op', i))"
proof -
  from assms(2) obtain info1 new_inputs st1 outs st2 st3 where
    h: "transform_op_handler self info1 op new_inputs st1 = (Inr (op', outs), st2)"
    and pairs: "pairs = zip (op_outputs st3 op) outs"
    by (auto simp: copy_step_def split: prod.splits sum.splits)
  from h have "outs = op_outputs st2 op'"
    unfolding assms(1) by (rule copy_op_handler_outputs)
  then show ?thesis
    by (simp add: pairs op_outputs_def)
qed
section \<open>The targets of a replacement\<close>

lemma target_of_recorded:
  "map_of (ti_transformed_ts info) t = Some t' \<Longrightarrow> target_of info t = Some (ElemTensor t')"
  by (simp add: target_of_def)

lemma target_of_missing:
  "map_of (ti_transformed_ts info) t = None \<Longrightarrow> target_of info t = Some (ElemTensor t)"
  by (simp add: target_of_def)

text \<open>
  C8, as the specification states it, fails for a target whose node is copied while the
  copy has no output of the target's index.  In \<open>wide_store\<close> the node \<^verbatim>\<open>g\<close> holds two
  outputs.  \<^verbatim>\<open>graph_replace\<close> of the target \<^verbatim>\<open>g:1\<close> with \<^verbatim>\<open>x\<close> replaced by \<^verbatim>\<open>x2\<close>
  copies \<^verbatim>\<open>f\<close> and \<^verbatim>\<open>g\<close> to \<^verbatim>\<open>f_1\<close> and \<^verbatim>\<open>g_1\<close>; the copy \<^verbatim>\<open>g_1\<close> is inferred to have
  one output, \<^verbatim>\<open>zip\<close> pairs \<^verbatim>\<open>g:0\<close> with \<^verbatim>\<open>g_1:0\<close> only, and the call returns the target
  \<^verbatim>\<open>g:1\<close> itself although its node was copied.
\<close>

theorem graph_replace_copied_target_counterexample:
  "op_outputs wide_store (0, ''g'') = [((0, ''g''), 0), ((0, ''g''), 1)] \<and>
   get_walks_intersection_ops plain_env (map fst [(((0, ''x''), 0), ((0, ''x2''), 0))])
       (flatten_tree (Leaf ((0, ''g''), 1))) wide_store
     = Inr [(0, ''f''), (0, ''g'')] \<and>
   fst (graph_replace 1000 plain_env (Leaf ((0, ''g''), 1))
          [(((0, ''x''), 0), ((0, ''x2''), 0))] [] [] False wide_store)
     = Inr (Leaf (Some (ElemTensor ((0, ''g''), 1)))) \<and>
   (case fst (copy_with_input_replacements 1000 plain_env [(0, ''f''), (0, ''g'')]
                [(((0, ''x''), 0), ((0, ''x2''), 0))] None [] [] False wide_store) of
      Inl e \<Rightarrow> ([], [])
    | Inr (sgv', info) \<Rightarrow> (ti_transformed_ops info, ti_transformed_ts info))
     = ([((0, ''f''), (0, ''f_1'')), ((0, ''g''), (0, ''g_1''))],
        [(((0, ''f''), 0), ((0, ''f_1''), 0)), (((0, ''g''), 0), ((0, ''g_1''), 0))]) \<and>
   op_outputs (snd (graph_replace 1000 plain_env (Leaf ((0, ''g''), 1))
                      [(((0, ''x''), 0), ((0, ''x2''), 0))] [] [] False wide_store))
       (0, ''g_1'')
     = [((0, ''g_1''), 0)] \<and>
   op_inputs (snd (graph_replace 1000 plain_env (Leaf ((0, ''g''), 1))
                     [(((0, ''x''), 0), ((0, ''x2''), 0))] [] [] False wide_store))
       (0, ''g_1'')
     = [((0, ''f_1''), 0)]"
  by code_simp

text \<open>
  C8, amended.  A call to \<^verbatim>\<open>graph_replace\<close> that returns has copied the nodes of the view
  made of the nodes between the replaced tensors and the targets, and it returns the tree
  of the targets, in its shape, each target as \<^verbatim>\<open>Some\<close> tensor and not as \<^verbatim>\<open>None\<close> or
  an error: its transformed counterpart where the tensor table has one, the target itself
  otherwise.  A target whose node is not among the copied nodes is returned as it is.
  Every copied node \<open>op\<close> has its copy \<open>op'\<close> on record; for every index \<open>i\<close> below the
  number of pairs that the copy pass made of the outputs of \<open>op\<close> and the outputs of
  \<open>op'\<close>, the target \<open>op:i\<close> is returned as \<open>op':i\<close>, and, the nodes of the view being
  distinct, for every other index \<open>op:i\<close> is returned as it is.
\<close>

theorem graph_replace_targets:
  assumes "graph_replace depth env target_ts replacement_ts dst_scope src_scope
             reuse_dst_scope st = (Inr res, st')"
  shows "\<exists>ops0 ops st1 view unused_sgv info.
           get_walks_intersection_ops env (map fst replacement_ts) (flatten_tree target_ts) st
             = Inr ops0 \<and>
           add_control_flow_ops env ops0 st = (Inr ops, st1) \<and>
           make_view env ops st1 = Inr view \<and>
           copy_with_input_replacements depth env ops replacement_ts None dst_scope src_scope
             reuse_dst_scope st1 = (Inr (unused_sgv, info), st') \<and>
           res = map_tree (target_of info) target_ts \<and>
           (\<forall>t. fst t \<notin> set (sgv_ops view) \<longrightarrow> target_of info t = Some (ElemTensor t)) \<and>
           (\<forall>t t'. map_of (ti_transformed_ts info) t = Some t'
                \<longrightarrow> target_of info t = Some (ElemTensor t')) \<and>
           (\<forall>op \<in> set (sgv_ops view).
              \<exists>op' pairs.
                copied_in_pass depth env
                  ((Transformer env)\<lparr>transform_external_input_handler :=
                      replace_t_with_replacement_handler env replacement_ts\<rparr>)
                  (call_info env view (sgv_graph view) dst_scope src_scope reuse_dst_scope st1,
                   st1)
                  op op' pairs \<and>
                op' \<noteq> op \<and>
                map_of (ti_transformed_ops info) op = Some op' \<and>
                (\<forall>i<length pairs.
                   pairs ! i = ((op, i), (op', i)) \<and>
                   target_of info (op, i) = Some (ElemTensor (op', i))) \<and>
                (distinct (sgv_ops view) \<longrightarrow>
                   (\<forall>i\<ge>length pairs. target_of info (op, i) = Some (ElemTensor (op, i)))))"
proof -
  from assms obtain g where g: "get_unique_graph (flatten_tree target_ts) = Inr g"
    by (cases "get_unique_graph (flatten_tree target_ts)")
      (auto simp: graph_replace_def Let_def)
  from assms g obtain ops where ops:
    "get_walks_intersection_ops env (map fst replacement_ts) (flatten_tree target_ts) st = Inr ops"
    by (cases "get_walks_intersection_ops env (map fst replacement_ts) (flatten_tree target_ts) st")
      (auto simp: graph_replace_def Let_def)
  from assms g ops have ne: "ops \<noteq> []"
    by (auto simp: graph_replace_def Let_def)
  obtain r1 st1 where a: "add_control_flow_ops env ops st = (r1, st1)"
    by (cases "add_control_flow_ops env ops st")
  from assms g ops ne a obtain ops1 where r1: "r1 = Inr ops1"
    by (cases r1) (auto simp: graph_replace_def Let_def)
  obtain r2 st2 where c: "copy_with_input_replacements depth env ops1 replacement_ts None
      dst_scope src_scope reuse_dst_scope st1 = (r2, st2)"
    by (cases "copy_with_input_replacements depth env ops1 replacement_ts None
      dst_scope src_scope reuse_dst_scope st1")
  from assms g ops ne a r1 c obtain unused_sgv info where r2: "r2 = Inr (unused_sgv, info)"
    by (cases r2) (auto simp: graph_replace_def Let_def)
  have tr: "transformed info (map_tree ElemTensor target_ts) (Some (\<lambda>original_t. original_t))
            = Inr (map_tree (target_of info) target_ts)"
    by (simp add: transformed_def transform_tree_targets)
  from assms g ops ne a r1 c r2 tr have res: "res = map_tree (target_of info) target_ts"
    and st': "st' = st2"
    by (simp_all add: graph_replace_def Let_def)
  from c r2 obtain view where view: "make_view env ops1 st1 = Inr view"
    by (cases "make_view env ops1 st1") (auto simp: copy_with_input_replacements_def)
  let ?copier = "(Transformer env)\<lparr>transform_external_input_handler :=
                   replace_t_with_replacement_handler env replacement_ts\<rparr>"
  let ?s0 = "(call_info env view (sgv_graph view) dst_scope src_scope reuse_dst_scope st1, st1)"
  have call: "call depth env ?copier view (sgv_graph view) dst_scope src_scope
                reuse_dst_scope st1 = (Inr (unused_sgv, info), st2)"
    using c r2 view by (simp add: copy_with_input_replacements_def Let_def)
  from call_keys_in_view [OF call]
  have keys: "\<forall>t. fst t \<notin> set (sgv_ops view) \<longrightarrow> map_of (ti_transformed_ts info) t = None" .
  have handler: "transform_op_handler ?copier = copy_op_handler env False None"
    by (simp add: Transformer_def)
  have copied: "\<forall>op \<in> set (sgv_ops view).
              \<exists>op' pairs.
                copied_in_pass depth env ?copier ?s0 op op' pairs \<and>
                op' \<noteq> op \<and>
                map_of (ti_transformed_ops info) op = Some op' \<and>
                (\<forall>i<length pairs.
                   pairs ! i = ((op, i), (op', i)) \<and>
                   target_of info (op, i) = Some (ElemTensor (op', i))) \<and>
                (distinct (sgv_ops view) \<longrightarrow>
                   (\<forall>i\<ge>length pairs. target_of info (op, i) = Some (ElemTensor (op, i))))"
  proof
    fix op assume "op \<in> set (sgv_ops view)"
    from call_records [OF call this] obtain op' pairs where
      cp: "copied_in_pass depth env ?copier ?s0 op op' pairs"
      and ne': "op' \<noteq> op"
      and rec: "map_of (ti_transformed_ops info) op = Some op'"
      and pos: "\<forall>(t, t')\<in>set pairs. map_of (ti_transformed_ts info) t = Some t'"
      and neg: "distinct (sgv_ops view) \<longrightarrow>
              (\<forall>k. fst k = op \<and> k \<notin> fst ` set pairs
                   \<longrightarrow> map_of (ti_transformed_ts info) k = None)"
      by blast
    from cp obtain s1 where "copy_step depth env ?copier op s1 = Some (op', pairs)"
      by (auto simp: copied_in_pass_def)
    from copy_step_copy_handler [OF handler this]
    have nth: "\<forall>i<length pairs. pairs ! i = ((op, i), (op', i))" .
    have p1: "\<forall>i<length pairs.
                pairs ! i = ((op, i), (op', i)) \<and>
                target_of info (op, i) = Some (ElemTensor (op', i))"
    proof (intro allI impI)
      fix i assume i: "i < length pairs"
      with nth have e: "pairs ! i = ((op, i), (op', i))" by simp
      from i have "pairs ! i \<in> set pairs" by simp
      with e have "((op, i), (op', i)) \<in> set pairs" by simp
      with pos have "map_of (ti_transformed_ts info) (op, i) = Some (op', i)" by auto
      then have "target_of info (op, i) = Some (ElemTensor (op', i))"
        by (rule target_of_recorded)
      with e show "pairs ! i = ((op, i), (op', i)) \<and>
                target_of info (op, i) = Some (ElemTensor (op', i))" by simp
    qed
    have p2: "\<forall>i\<ge>length pairs. target_of info (op, i) = Some (ElemTensor (op, i))"
      if d: "distinct (sgv_ops view)"
    proof (intro allI impI)
      fix i assume i: "length pairs \<le> i"
      have "(op, i) \<notin> fst ` set pairs"
      proof
        assume "(op, i) \<in> fst ` set pairs"
        then obtain p where p: "p \<in> set pairs" "fst p = (op, i)" by auto
        from p(1) obtain j where j: "j < length pairs" "pairs ! j = p"
          by (auto simp: in_set_conv_nth)
        with nth have "p = ((op, j), (op', j))" by auto
        with p(2) j(1) i show False by simp
      qed
      then have "map_of (ti_transformed_ts info) (op, i) = None"
        using neg [rule_format, OF d, of "(op, i)"] by simp
      then show "target_of info (op, i) = Some (ElemTensor (op, i))"
        by (rule target_of_missing)
    qed
    from cp ne' rec p1 p2
    show "\<exists>op' pairs.
                copied_in_pass depth env ?copier ?s0 op op' pairs \<and>
                op' \<noteq> op \<and>
                map_of (ti_transformed_ops info) op = Some op' \<and>
                (\<forall>i<length pairs.
                   pairs ! i = ((op, i), (op', i)) \<and>
                   target_of info (op, i) = Some (ElemTensor (op', i))) \<and>
                (distinct (sgv_ops view) \<longrightarrow>
                   (\<forall>i\<ge>length pairs. target_of info (op, i) = Some (ElemTensor (op, i))))"
      by blast
  qed
  have pass: "\<forall>t. fst t \<notin> set (sgv_ops view) \<longrightarrow> target_of info t = Some (ElemTensor t)"
    using keys by (simp add: target_of_def)
  have recd: "\<forall>t t'. map_of (ti_transformed_ts info) t = Some t'
                \<longrightarrow> target_of info t = Some (ElemTensor t')"
    by (simp add: target_of_def)
  have c': "copy_with_input_replacements depth env ops1 replacement_ts None dst_scope src_scope
             reuse_dst_scope st1 = (Inr (unused_sgv, info), st')"
    using c r2 st' by simp
  have a': "add_control_flow_ops env ops st = (Inr ops1, st1)"
    using a r1 by simp
  from ops a' view c' res pass recd copied show ?thesis
    by (intro exI [of _ ops] exI [of _ ops1] exI [of _ st1] exI [of _ view]
        exI [of _ unused_sgv] exI [of _ info] conjI)
qed

theorem graph_replace_targets_witness:
  "graph_replace 1000 plain_env
     (Seq [Leaf ((0, ''g''), 0), Leaf ((0, ''g''), 1), Leaf ((0, ''x2''), 0)])
     [(((0, ''x''), 0), ((0, ''x2''), 0))] [] [] False wide_store
   = (Inr (Seq [Leaf (Some (ElemTensor ((0, ''g_1''), 0))),
                Leaf (Some (ElemTensor ((0, ''g''), 1))),
                Leaf (Some (ElemTensor ((0, ''x2''), 0)))]),
      snd (graph_replace 1000 plain_env
             (Seq [Leaf ((0, ''g''), 0), Leaf ((0, ''g''), 1), Leaf ((0, ''x2''), 0)])
             [(((0, ''x''), 0), ((0, ''x2''), 0))] [] [] False wide_store)) \<and>
   (\<exists>view info (pairs :: (tensor_ref \<times> tensor_ref) list).
      make_view plain_env [(0, ''f''), (0, ''g'')]
        (snd (add_control_flow_ops plain_env [(0, ''f''), (0, ''g'')] wide_store))
        = Inr view \<and>
      (0, ''g'') \<in> set (sgv_ops view) \<and> (0, ''x2'') \<notin> set (sgv_ops view) \<and>
      distinct (sgv_ops view) \<and>
      Seq [Leaf (Some (ElemTensor ((0, ''g_1''), 0))),
           Leaf (Some (ElemTensor ((0, ''g''), 1))),
           Leaf (Some (ElemTensor ((0, ''x2''), 0)))]
        = map_tree (target_of info)
            (Seq [Leaf ((0, ''g''), 0), Leaf ((0, ''g''), 1), Leaf ((0, ''x2''), 0)]) \<and>
      target_of info ((0, ''x2''), 0) = Some (ElemTensor ((0, ''x2''), 0)) \<and>
      map_of (ti_transformed_ops info) (0, ''g'') = Some (0, ''g_1'') \<and>
      length pairs = 1 \<and>
      pairs ! 0 = (((0, ''g''), 0), ((0, ''g_1''), 0)) \<and>
      map_of (ti_transformed_ts info) ((0, ''g''), 0) = Some ((0, ''g_1''), 0) \<and>
      target_of info ((0, ''g''), 0) = Some (ElemTensor ((0, ''g_1''), 0)) \<and>
      target_of info ((0, ''g''), 1) = Some (ElemTensor ((0, ''g''), 1)))"
proof -
  let ?targets = "Seq [Leaf ((0 :: nat, ''g''), 0 :: nat), Leaf ((0, ''g''), 1),
                       Leaf ((0, ''x2''), 0)]"
  let ?repl = "[(((0 :: nat, ''x''), 0 :: nat), ((0 :: nat, ''x2''), 0 :: nat))]"
  let ?res = "Seq [Leaf (Some (ElemTensor ((0, ''g_1''), 0))),
                   Leaf (Some (ElemTensor ((0, ''g''), 1))),
                   Leaf (Some (ElemTensor ((0, ''x2''), 0)))]"
  have a: "graph_replace 1000 plain_env ?targets ?repl [] [] False wide_store
   = (Inr ?res, snd (graph_replace 1000 plain_env ?targets ?repl [] [] False wide_store))"
    by code_simp
  have w: "get_walks_intersection_ops plain_env (map fst ?repl) (flatten_tree ?targets)
             wide_store = Inr [(0, ''f''), (0, ''g'')]"
    by code_simp
  let ?st1 = "snd (add_control_flow_ops plain_env [(0, ''f''), (0, ''g'')] wide_store)"
  have f: "add_control_flow_ops plain_env [(0, ''f''), (0, ''g'')] wide_store
           = (Inr [(0, ''f''), (0, ''g'')], ?st1)"
    by code_simp
  have v: "case make_view plain_env [(0, ''f''), (0, ''g'')] ?st1 of
             Inl e \<Rightarrow> False
           | Inr view \<Rightarrow> sgv_ops view = [(0, ''f''), (0, ''g'')]"
    by code_simp
  from graph_replace_targets [OF a] obtain ops0 ops st1 view unused_sgv info where
    T: "get_walks_intersection_ops plain_env (map fst ?repl) (flatten_tree ?targets)
          wide_store = Inr ops0 \<and>
        add_control_flow_ops plain_env ops0 wide_store = (Inr ops, st1) \<and>
        make_view plain_env ops st1 = Inr view \<and>
        copy_with_input_replacements 1000 plain_env ops ?repl None [] [] False st1
          = (Inr (unused_sgv, info),
             snd (graph_replace 1000 plain_env ?targets ?repl [] [] False wide_store)) \<and>
        ?res = map_tree (target_of info) ?targets \<and>
        (\<forall>t. fst t \<notin> set (sgv_ops view) \<longrightarrow> target_of info t = Some (ElemTensor t)) \<and>
        (\<forall>t t'. map_of (ti_transformed_ts info) t = Some t'
             \<longrightarrow> target_of info t = Some (ElemTensor t')) \<and>
        (\<forall>op \<in> set (sgv_ops view).
           \<exists>op' pairs.
             copied_in_pass 1000 plain_env
               ((Transformer plain_env)\<lparr>transform_external_input_handler :=
                   replace_t_with_replacement_handler plain_env ?repl\<rparr>)
               (call_info plain_env view (sgv_graph view) [] [] False st1, st1)
               op op' pairs \<and>
             op' \<noteq> op \<and>
             map_of (ti_transformed_ops info) op = Some op' \<and>
             (\<forall>i<length pairs.
                pairs ! i = ((op, i), (op', i)) \<and>
                target_of info (op, i) = Some (ElemTensor (op', i))) \<and>
             (distinct (sgv_ops view) \<longrightarrow>
                (\<forall>i\<ge>length pairs. target_of info (op, i) = Some (ElemTensor (op, i)))))"
    by (elim exE) (rule that)
  note t1 = T [THEN conjunct1]
  note t2 = T [THEN conjunct2, THEN conjunct1]
  note t3 = T [THEN conjunct2, THEN conjunct2, THEN conjunct1]
  note t5 = T [THEN conjunct2, THEN conjunct2, THEN conjunct2, THEN conjunct2, THEN conjunct1]
  note t6 = T [THEN conjunct2, THEN conjunct2, THEN conjunct2, THEN conjunct2, THEN conjunct2,
      THEN conjunct1]
  note t7 = T [THEN conjunct2, THEN conjunct2, THEN conjunct2, THEN conjunct2, THEN conjunct2,
      THEN conjunct2, THEN conjunct1]
  note t8 = T [THEN conjunct2, THEN conjunct2, THEN conjunct2, THEN conjunct2, THEN conjunct2,
      THEN conjunct2, THEN conjunct2]
  from t1 w have "ops0 = [(0, ''f''), (0, ''g'')]" by simp
  with t2 f have o: "ops = [(0, ''f''), (0, ''g'')]" "st1 = ?st1" by simp_all
  from t3 v have vo: "sgv_ops view = [(0, ''f''), (0, ''g'')]"
    by (simp add: o)
  have mv: "make_view plain_env [(0, ''f''), (0, ''g'')] ?st1 = Inr view"
    using t3 by (simp add: o)
  have g: "(0, ''g'') \<in> set (sgv_ops view)" and x2: "(0, ''x2'') \<notin> set (sgv_ops view)"
    and d: "distinct (sgv_ops view)"
    by (simp_all add: vo)
  have px: "target_of info ((0, ''x2''), 0) = Some (ElemTensor ((0, ''x2''), 0))"
    using t6 [rule_format, of "((0, ''x2''), 0)"] x2 by simp
  from t5 have r0: "target_of info ((0, ''g''), 0) = Some (ElemTensor ((0, ''g_1''), 0))"
    and r1: "target_of info ((0, ''g''), 1) = Some (ElemTensor ((0, ''g''), 1))"
    by simp_all
  from t8 [rule_format, OF g] obtain op' pairs where
    C: "copied_in_pass 1000 plain_env
               ((Transformer plain_env)\<lparr>transform_external_input_handler :=
                   replace_t_with_replacement_handler plain_env ?repl\<rparr>)
               (call_info plain_env view (sgv_graph view) [] [] False st1, st1)
               (0, ''g'') op' pairs \<and>
        op' \<noteq> (0, ''g'') \<and>
        map_of (ti_transformed_ops info) (0, ''g'') = Some op' \<and>
        (\<forall>i<length pairs.
           pairs ! i = (((0, ''g''), i), (op', i)) \<and>
           target_of info ((0, ''g''), i) = Some (ElemTensor (op', i))) \<and>
        (distinct (sgv_ops view) \<longrightarrow>
           (\<forall>i\<ge>length pairs.
              target_of info ((0, ''g''), i) = Some (ElemTensor ((0, ''g''), i))))"
    by (elim exE) (rule that)
  have c2: "map_of (ti_transformed_ops info) (0, ''g'') = Some op'"
    using C by simp
  note c3 = C [THEN conjunct2, THEN conjunct2, THEN conjunct2, THEN conjunct1, rule_format]
  note c4 = C [THEN conjunct2, THEN conjunct2, THEN conjunct2, THEN conjunct2, rule_format,
      OF d]
  have pos: "0 < length pairs"
  proof (rule ccontr)
    assume "\<not> 0 < length pairs"
    then have "length pairs \<le> 0" by simp
    from c4 [OF this] r0 show False by simp
  qed
  from c3 [OF pos] r0 have op': "op' = (0, ''g_1'')"
    and p0: "pairs ! 0 = (((0, ''g''), 0), ((0, ''g_1''), 0))"
    by simp_all
  have le: "length pairs \<le> 1"
  proof (rule ccontr)
    assume "\<not> length pairs \<le> 1"
    then have "1 < length pairs" by simp
    from c3 [OF this] r1 show False by (simp add: op')
  qed
  from pos le have len: "length pairs = 1" by arith
  have m0: "map_of (ti_transformed_ts info) ((0, ''g''), 0) = Some ((0, ''g_1''), 0)"
    using r0 by (auto simp: target_of_def split: option.splits)
  have q0: "target_of info ((0, ''g''), 0) = Some (ElemTensor ((0, ''g_1''), 0))"
    by (rule t7 [rule_format, OF m0])
  have q1: "target_of info ((0, ''g''), 1) = Some (ElemTensor ((0, ''g''), 1))"
    by (rule c4) (simp add: len)
  have "make_view plain_env [(0, ''f''), (0, ''g'')] ?st1 = Inr view \<and>
      (0, ''g'') \<in> set (sgv_ops view) \<and> (0, ''x2'') \<notin> set (sgv_ops view) \<and>
      distinct (sgv_ops view) \<and>
      ?res = map_tree (target_of info) ?targets \<and>
      target_of info ((0, ''x2''), 0) = Some (ElemTensor ((0, ''x2''), 0)) \<and>
      map_of (ti_transformed_ops info) (0, ''g'') = Some (0, ''g_1'') \<and>
      length pairs = 1 \<and>
      pairs ! 0 = (((0, ''g''), 0), ((0, ''g_1''), 0)) \<and>
      map_of (ti_transformed_ts info) ((0, ''g''), 0) = Some ((0, ''g_1''), 0) \<and>
      target_of info ((0, ''g''), 0) = Some (ElemTensor ((0, ''g_1''), 0)) \<and>
      target_of info ((0, ''g''), 1) = Some (ElemTensor ((0, ''g''), 1))"
    using mv g x2 d t5 px c2 [unfolded op'] len p0 m0 q0 q1 by (intro conjI)
  then have "\<exists>view info (pairs :: (tensor_ref \<times> tensor_ref) list).
      make_view plain_env [(0, ''f''), (0, ''g'')] ?st1 = Inr view \<and>
      (0, ''g'') \<in> set (sgv_ops view) \<and> (0, ''x2'') \<notin> set (sgv_ops view) \<and>
      distinct (sgv_ops view) \<and>
      ?res = map_tree (target_of info) ?targets \<and>
      target_of info ((0, ''x2''), 0) = Some (ElemTensor ((0, ''x2''), 0)) \<and>
      map_of (ti_transformed_ops info) (0, ''g'') = Some (0, ''g_1'') \<and>
      length pairs = 1 \<and>
      pairs ! 0 = (((0, ''g''), 0), ((0, ''g_1''), 0)) \<and>
      map_of (ti_transformed_ts info) ((0, ''g''), 0) = Some ((0, ''g_1''), 0) \<and>
      target_of info ((0, ''g''), 0) = Some (ElemTensor ((0, ''g_1''), 0)) \<and>
      target_of info ((0, ''g''), 1) = Some (ElemTensor ((0, ''g''), 1))"
    by (intro exI)
  with a show ?thesis by (intro conjI)
qed
section \<open>In-place transformation\<close>

lemma copy_op_in_place:
  assumes "map_action (\<lambda>t. transformed_t depth env self t op) (op_inputs (snd s1) op) s1
             = (Inr new_inputs, (info1, st1))"
    and "transform_op_handler self info1 op new_inputs st1 = (Inr (op, op_outputs'), st2)"
  shows "copy_op depth env self op s1
           = (Inl (ValueError ''In-place transformation not allowed.''), (info1, st2))"
  using assms by (simp add: copy_op_def)

lemma copy_ops_in_place:
  assumes "sorted_ops (fst s) (snd s) = pre @ op # post"
    and "for_action (copy_op depth env self) pre s = (Inr (), s1)"
    and "map_action (\<lambda>t. transformed_t depth env self t op) (op_inputs (snd s1) op) s1
           = (Inr new_inputs, (info1, st1))"
    and "transform_op_handler self info1 op new_inputs st1 = (Inr (op, op_outputs'), st2)"
  shows "copy_ops depth env self s
           = (Inl (ValueError ''In-place transformation not allowed.''), (info1, st2))"
  using assms(2) copy_op_in_place [OF assms(3,4)]
  by (simp add: copy_ops_def assms(1) for_action_append)

lemma call_copy_ops_fails:
  assumes "copy_ops depth env self
             (call_info env sgv dst_graph dst_scope src_scope reuse_dst_scope st, st)
           = (Inl e, (info', st'))"
  shows "call depth env self sgv dst_graph dst_scope src_scope reuse_dst_scope st = (Inl e, st')"
  using assms by (simp add: call_def Let_def bind_action_def)

text \<open>
  C9.  In \<^verbatim>\<open>_copy_ops\<close>, when the nodes before \<open>op\<close> have been copied and the node-copy
  handler returns \<open>op\<close> itself, the pass fails with the \<^verbatim>\<open>ValueError\<close> of the in-place
  test, and so does the call.  After a pass that returns, every node of the view has on
  record, in \<open>transformed_ops\<close>, the node that the handler returned in the last step for
  it, which is not the node itself, and in \<open>transformed_ts\<close> every pair of
  \<^verbatim>\<open>zip(op.outputs, op_outputs_)\<close> of that step; a call that returns gives these records
  in its \<^verbatim>\<open>TransformerInfo\<close>.  One step that returns changes the two tables by exactly
  these entries.
\<close>

theorem in_place_transformation_not_allowed:
  "(\<forall>pre op post s1 new_inputs info1 st1 op_outputs' st2.
      sorted_ops (fst s) (snd s) = pre @ op # post \<and>
      for_action (copy_op depth env self) pre s = (Inr (), s1) \<and>
      map_action (\<lambda>t. transformed_t depth env self t op) (op_inputs (snd s1) op) s1
        = (Inr new_inputs, (info1, st1)) \<and>
      transform_op_handler self info1 op new_inputs st1 = (Inr (op, op_outputs'), st2)
      \<longrightarrow> copy_ops depth env self s
            = (Inl (ValueError ''In-place transformation not allowed.''), (info1, st2))) \<and>
   (\<forall>sgv dst_graph dst_scope src_scope reuse_dst_scope st e info' st'.
      copy_ops depth env self
        (call_info env sgv dst_graph dst_scope src_scope reuse_dst_scope st, st)
        = (Inl e, (info', st'))
      \<longrightarrow> call depth env self sgv dst_graph dst_scope src_scope reuse_dst_scope st
            = (Inl e, st')) \<and>
   (\<forall>s'. copy_ops depth env self s = (Inr (), s') \<longrightarrow>
      (\<forall>op \<in> set (sgv_ops (info_sgv (fst s))).
         \<exists>op' pairs.
           copied_in_pass depth env self s op op' pairs \<and> op' \<noteq> op \<and>
           map_of (transformed_ops (fst s')) op = Some op' \<and>
           (\<forall>(t, t')\<in>set pairs. map_of (transformed_ts (fst s')) t = Some t'))) \<and>
   (\<forall>sgv dst_graph dst_scope src_scope reuse_dst_scope st sgv' res_info st'.
      call depth env self sgv dst_graph dst_scope src_scope reuse_dst_scope st
        = (Inr (sgv', res_info), st') \<longrightarrow>
      (\<forall>op \<in> set (sgv_ops sgv).
         \<exists>op' pairs.
           copied_in_pass depth env self
             (call_info env sgv dst_graph dst_scope src_scope reuse_dst_scope st, st)
             op op' pairs \<and>
           op' \<noteq> op \<and>
           map_of (ti_transformed_ops res_info) op = Some op' \<and>
           (\<forall>(t, t')\<in>set pairs. map_of (ti_transformed_ts res_info) t = Some t'))) \<and>
   (\<forall>op s1 s2.
      copy_op depth env self op s1 = (Inr (), s2) \<longrightarrow>
      (\<exists>op' pairs.
         copy_step depth env self op s1 = Some (op', pairs) \<and> op' \<noteq> op \<and>
         transformed_ops (fst s2) = AList.update op op' (transformed_ops (fst s1)) \<and>
         transformed_ts (fst s2)
           = fold (\<lambda>(t, t'). AList.update t t') pairs (transformed_ts (fst s1))))"
proof -
  have c1: "\<forall>pre op post s1 new_inputs info1 st1 op_outputs' st2.
      sorted_ops (fst s) (snd s) = pre @ op # post \<and>
      for_action (copy_op depth env self) pre s = (Inr (), s1) \<and>
      map_action (\<lambda>t. transformed_t depth env self t op) (op_inputs (snd s1) op) s1
        = (Inr new_inputs, (info1, st1)) \<and>
      transform_op_handler self info1 op new_inputs st1 = (Inr (op, op_outputs'), st2)
      \<longrightarrow> copy_ops depth env self s
            = (Inl (ValueError ''In-place transformation not allowed.''), (info1, st2))"
  proof (intro allI impI)
    fix pre op post s1 new_inputs info1 st1 op_outputs' st2
    assume "sorted_ops (fst s) (snd s) = pre @ op # post \<and>
      for_action (copy_op depth env self) pre s = (Inr (), s1) \<and>
      map_action (\<lambda>t. transformed_t depth env self t op) (op_inputs (snd s1) op) s1
        = (Inr new_inputs, (info1, st1)) \<and>
      transform_op_handler self info1 op new_inputs st1 = (Inr (op, op_outputs'), st2)"
    then show "copy_ops depth env self s
            = (Inl (ValueError ''In-place transformation not allowed.''), (info1, st2))"
      by (elim conjE) (rule copy_ops_in_place)
  qed
  have c2: "\<forall>sgv dst_graph dst_scope src_scope reuse_dst_scope st e info' st'.
      copy_ops depth env self
        (call_info env sgv dst_graph dst_scope src_scope reuse_dst_scope st, st)
        = (Inl e, (info', st'))
      \<longrightarrow> call depth env self sgv dst_graph dst_scope src_scope reuse_dst_scope st
            = (Inl e, st')"
    using call_copy_ops_fails by blast
  have c3: "\<forall>s'. copy_ops depth env self s = (Inr (), s') \<longrightarrow>
      (\<forall>op \<in> set (sgv_ops (info_sgv (fst s))).
         \<exists>op' pairs.
           copied_in_pass depth env self s op op' pairs \<and> op' \<noteq> op \<and>
           map_of (transformed_ops (fst s')) op = Some op' \<and>
           (\<forall>(t, t')\<in>set pairs. map_of (transformed_ts (fst s')) t = Some t'))"
  proof (intro allI impI ballI)
    fix s' op
    assume a: "copy_ops depth env self s = (Inr (), s')"
      and b: "op \<in> set (sgv_ops (info_sgv (fst s)))"
    from copy_ops_records [OF a b]
    show "\<exists>op' pairs.
           copied_in_pass depth env self s op op' pairs \<and> op' \<noteq> op \<and>
           map_of (transformed_ops (fst s')) op = Some op' \<and>
           (\<forall>(t, t')\<in>set pairs. map_of (transformed_ts (fst s')) t = Some t')"
      by blast
  qed
  have c4: "\<forall>sgv dst_graph dst_scope src_scope reuse_dst_scope st sgv' res_info st'.
      call depth env self sgv dst_graph dst_scope src_scope reuse_dst_scope st
        = (Inr (sgv', res_info), st') \<longrightarrow>
      (\<forall>op \<in> set (sgv_ops sgv).
         \<exists>op' pairs.
           copied_in_pass depth env self
             (call_info env sgv dst_graph dst_scope src_scope reuse_dst_scope st, st)
             op op' pairs \<and>
           op' \<noteq> op \<and>
           map_of (ti_transformed_ops res_info) op = Some op' \<and>
           (\<forall>(t, t')\<in>set pairs. map_of (ti_transformed_ts res_info) t = Some t'))"
  proof (intro allI impI ballI)
    fix sgv dst_graph dst_scope src_scope reuse_dst_scope st sgv' res_info st' op
    assume a: "call depth env self sgv dst_graph dst_scope src_scope reuse_dst_scope st
        = (Inr (sgv', res_info), st')"
      and b: "op \<in> set (sgv_ops sgv)"
    from call_records [OF a b]
    show "\<exists>op' pairs.
           copied_in_pass depth env self
             (call_info env sgv dst_graph dst_scope src_scope reuse_dst_scope st, st)
             op op' pairs \<and>
           op' \<noteq> op \<and>
           map_of (ti_transformed_ops res_info) op = Some op' \<and>
           (\<forall>(t, t')\<in>set pairs. map_of (ti_transformed_ts res_info) t = Some t')"
      by blast
  qed
  have c5: "\<forall>op s1 s2.
      copy_op depth env self op s1 = (Inr (), s2) \<longrightarrow>
      (\<exists>op' pairs.
         copy_step depth env self op s1 = Some (op', pairs) \<and> op' \<noteq> op \<and>
         transformed_ops (fst s2) = AList.update op op' (transformed_ops (fst s1)) \<and>
         transformed_ts (fst s2)
           = fold (\<lambda>(t, t'). AList.update t t') pairs (transformed_ts (fst s1)))"
  proof (intro allI impI)
    fix op s1 s2
    assume "copy_op depth env self op s1 = (Inr (), s2)"
    then have "copy_op depth env self op (fst s1, snd s1) = (Inr (), (fst s2, snd s2))"
      by simp
    from copy_op_tables [OF this, THEN conjunct2, THEN conjunct2]
    show "\<exists>op' pairs.
         copy_step depth env self op s1 = Some (op', pairs) \<and> op' \<noteq> op \<and>
         transformed_ops (fst s2) = AList.update op op' (transformed_ops (fst s1)) \<and>
         transformed_ts (fst s2)
           = fold (\<lambda>(t, t'). AList.update t t') pairs (transformed_ts (fst s1))"
      by simp
  qed
  from c1 c2 c3 c4 c5 show ?thesis by (intro conjI)
qed

theorem in_place_transformation_not_allowed_witness:
  "copy_ops 1000 plain_env in_place_transformer (colocated_info, colocated_store)
     = (Inl (ValueError ''In-place transformation not allowed.''),
        (colocated_info, colocated_store)) \<and>
   call 1000 plain_env in_place_transformer colocated_view 0 [] [] False colocated_store
     = (Inl (ValueError ''In-place transformation not allowed.''), colocated_store) \<and>
   copy_ops 1000 plain_env (Transformer plain_env) (colocated_info, colocated_store)
     = (Inr (), snd (copy_ops 1000 plain_env (Transformer plain_env)
                       (colocated_info, colocated_store))) \<and>
   (0, ''n'') \<in> set (sgv_ops (info_sgv (fst (colocated_info, colocated_store)))) \<and>
   (\<exists>op' pairs.
      copied_in_pass 1000 plain_env (Transformer plain_env) (colocated_info, colocated_store)
        (0, ''n'') op' pairs \<and>
      op' \<noteq> (0, ''n'') \<and>
      map_of (transformed_ops (fst (snd (copy_ops 1000 plain_env (Transformer plain_env)
                (colocated_info, colocated_store))))) (0, ''n'') = Some op' \<and>
      (\<forall>(t, t')\<in>set pairs.
         map_of (transformed_ts (fst (snd (copy_ops 1000 plain_env (Transformer plain_env)
                   (colocated_info, colocated_store))))) t = Some t')) \<and>
   transformed_ts (fst (snd (copy_ops 1000 plain_env (Transformer plain_env)
                               (colocated_info, colocated_store))))
     = [(((0, ''peer''), 0), ((0, ''peer_1''), 0)), (((0, ''n''), 0), ((0, ''n_1''), 0))] \<and>
   (\<exists>sgv' res_info st' op' pairs.
      call 1000 plain_env (Transformer plain_env) colocated_view 0 [] [] False colocated_store
        = (Inr (sgv', res_info), st') \<and>
      op' \<noteq> (0, ''n'') \<and>
      map_of (ti_transformed_ops res_info) (0, ''n'') = Some op' \<and>
      (\<forall>(t, t')\<in>set pairs. map_of (ti_transformed_ts res_info) t = Some t')) \<and>
   copy_op 1000 plain_env (Transformer plain_env) (0, ''peer'') (colocated_info, colocated_store)
     = (Inr (), snd (copy_op 1000 plain_env (Transformer plain_env) (0, ''peer'')
                       (colocated_info, colocated_store))) \<and>
   copy_step 1000 plain_env (Transformer plain_env) (0, ''peer'')
       (colocated_info, colocated_store)
     = Some ((0, ''peer_1''), [(((0, ''peer''), 0), ((0, ''peer_1''), 0))]) \<and>
   transformed_ops (fst (snd (copy_op 1000 plain_env (Transformer plain_env) (0, ''peer'')
                                (colocated_info, colocated_store))))
     = AList.update (0, ''peer'') (0, ''peer_1'') (transformed_ops colocated_info) \<and>
   transformed_ts (fst (snd (copy_op 1000 plain_env (Transformer plain_env) (0, ''peer'')
                               (colocated_info, colocated_store))))
     = fold (\<lambda>(t, t'). AList.update t t') [(((0, ''peer''), 0), ((0, ''peer_1''), 0))]
         (transformed_ts colocated_info)"
proof -
  let ?s = "(colocated_info, colocated_store)"
  let ?T = "Transformer plain_env"
  have so: "sorted_ops (fst ?s) (snd ?s) = [] @ (0, ''peer'') # [(0, ''n'')]"
    by code_simp
  have pre: "for_action (copy_op 1000 plain_env in_place_transformer) [] ?s = (Inr (), ?s)"
    by simp
  have ins: "op_inputs colocated_store (0, ''peer'') = []"
    by code_simp
  have ma: "map_action (\<lambda>t. transformed_t 1000 plain_env in_place_transformer t (0, ''peer''))
              (op_inputs (snd ?s) (0, ''peer'')) ?s = (Inr [], ?s)"
    by (simp add: ins)
  have h: "transform_op_handler in_place_transformer colocated_info (0, ''peer'') []
             colocated_store
           = (Inr ((0, ''peer''), op_outputs colocated_store (0, ''peer'')), colocated_store)"
    by (simp add: in_place_transformer_def)
  have 1: "copy_ops 1000 plain_env in_place_transformer ?s
           = (Inl (ValueError ''In-place transformation not allowed.''), ?s)"
    by (rule in_place_transformation_not_allowed
          [of ?s 1000 plain_env in_place_transformer, THEN conjunct1, rule_format,
            of "[]" "(0, ''peer'')" "[(0, ''n'')]" ?s "[]" colocated_info colocated_store
              "op_outputs colocated_store (0, ''peer'')" colocated_store])
      (intro conjI so pre ma h)
  have 2: "call 1000 plain_env in_place_transformer colocated_view 0 [] [] False
             colocated_store
           = (Inl (ValueError ''In-place transformation not allowed.''), colocated_store)"
    by (rule in_place_transformation_not_allowed
          [of ?s 1000 plain_env in_place_transformer, THEN conjunct2, THEN conjunct1,
            rule_format, OF 1 [unfolded colocated_info_def]])
  let ?p = "copy_ops 1000 plain_env ?T ?s"
  have ok: "?p = (Inr (), snd ?p)"
    by code_simp
  have m: "(0, ''n'') \<in> set (sgv_ops (info_sgv (fst ?s)))"
    by code_simp
  have 3: "\<exists>op' pairs.
      copied_in_pass 1000 plain_env ?T ?s (0, ''n'') op' pairs \<and>
      op' \<noteq> (0, ''n'') \<and>
      map_of (transformed_ops (fst (snd ?p))) (0, ''n'') = Some op' \<and>
      (\<forall>(t, t')\<in>set pairs. map_of (transformed_ts (fst (snd ?p))) t = Some t')"
    by (rule in_place_transformation_not_allowed
          [of ?s 1000 plain_env ?T,
            THEN conjunct2, THEN conjunct2, THEN conjunct1, rule_format, OF ok m])
  have t3: "transformed_ts (fst (snd ?p))
     = [(((0, ''peer''), 0), ((0, ''peer_1''), 0)), (((0, ''n''), 0), ((0, ''n_1''), 0))]"
    by code_simp
  let ?r = "call 1000 plain_env ?T colocated_view 0 [] [] False colocated_store"
  have "case fst ?r of Inl e \<Rightarrow> False | Inr v \<Rightarrow> True"
    by code_simp
  then obtain sgv' res_info where "fst ?r = Inr (sgv', res_info)"
    by (cases "fst ?r") auto
  then have r: "?r = (Inr (sgv', res_info), snd ?r)"
    by (simp add: prod_eq_iff)
  have mv: "(0, ''n'') \<in> set (sgv_ops colocated_view)"
    by (simp add: colocated_view_def)
  have "\<exists>op' pairs.
           copied_in_pass 1000 plain_env ?T
             (call_info plain_env colocated_view 0 [] [] False colocated_store, colocated_store)
             (0, ''n'') op' pairs \<and>
           op' \<noteq> (0, ''n'') \<and>
           map_of (ti_transformed_ops res_info) (0, ''n'') = Some op' \<and>
           (\<forall>(t, t')\<in>set pairs. map_of (ti_transformed_ts res_info) t = Some t')"
    by (rule in_place_transformation_not_allowed
          [of ?s 1000 plain_env ?T,
            THEN conjunct2, THEN conjunct2, THEN conjunct2, THEN conjunct1, rule_format,
            OF r mv])
  with r have 4: "\<exists>sgv' res_info st' op' pairs.
      ?r = (Inr (sgv', res_info), st') \<and>
      op' \<noteq> (0, ''n'') \<and>
      map_of (ti_transformed_ops res_info) (0, ''n'') = Some op' \<and>
      (\<forall>(t, t')\<in>set pairs. map_of (ti_transformed_ts res_info) t = Some t')"
    by blast
  let ?c = "copy_op 1000 plain_env ?T (0, ''peer'') ?s"
  have cok: "?c = (Inr (), snd ?c)"
    by code_simp
  have cs: "copy_step 1000 plain_env ?T (0, ''peer'') ?s
            = Some ((0, ''peer_1''), [(((0, ''peer''), 0), ((0, ''peer_1''), 0))])"
    by code_simp
  have "\<exists>op' pairs.
         copy_step 1000 plain_env ?T (0, ''peer'') ?s = Some (op', pairs) \<and>
         op' \<noteq> (0, ''peer'') \<and>
         transformed_ops (fst (snd ?c))
           = AList.update (0, ''peer'') op' (transformed_ops (fst ?s)) \<and>
         transformed_ts (fst (snd ?c))
           = fold (\<lambda>(t, t'). AList.update t t') pairs (transformed_ts (fst ?s))"
    by (rule in_place_transformation_not_allowed
          [of ?s 1000 plain_env ?T,
            THEN conjunct2, THEN conjunct2, THEN conjunct2, THEN conjunct2, rule_format,
            OF cok])
  then have 5: "transformed_ops (fst (snd ?c))
           = AList.update (0, ''peer'') (0, ''peer_1'') (transformed_ops colocated_info)"
    and 6: "transformed_ts (fst (snd ?c))
           = fold (\<lambda>(t, t'). AList.update t t') [(((0, ''peer''), 0), ((0, ''peer_1''), 0))]
               (transformed_ts colocated_info)"
    unfolding cs by auto
  from 1 2 ok m 3 t3 4 cok cs 5 6 show ?thesis by (intro conjI)
qed

section \<open>Colocation groups\<close>

lemma transform_colocation_translates:
  "transform_colocation info l = Inr l' \<Longrightarrow>
   l' = map (\<lambda>s. COLOCATION_PREFIX @ info_scope_dst info
                 @ drop (length (info_scope info))
                     (drop_chars (length COLOCATION_PREFIX) s)) l"
proof (induction l arbitrary: l')
  case Nil
  then show ?case by simp
next
  case (Cons s l)
  then show ?case
    by (auto simp: new_name_def Let_def split: sum.splits if_splits)
qed

text \<open>
  C2 on the code.  Copying \<^verbatim>\<open>peer\<close> and \<^verbatim>\<open>n\<close> within their graph gives the copies the
  names \<^verbatim>\<open>peer_1\<close> and \<^verbatim>\<open>n_1\<close>, because the translated names are taken.  The
  colocation entry of \<^verbatim>\<open>n_1\<close> is still \<^verbatim>\<open>loc:@peer\<close>: \<^verbatim>\<open>copy_op_handler\<close> makes the
  name of a copy unique but only translates the names in \<^verbatim>\<open>_class\<close>.
\<close>

theorem colocation_keeps_translated_name:
  "(case fst (copy 1000 plain_env [(0, ''peer''), (0, ''n'')] None [] [] False colocated_store) of
      Inl e \<Rightarrow> []
    | Inr (sgv', info) \<Rightarrow> ti_transformed_ops info)
     = [((0, ''peer''), (0, ''peer_1'')), ((0, ''n''), (0, ''n_1''))] \<and>
   attrs (node_of colocated_store (0, ''n'')) = [(''_class'', AttrList [''loc:@peer''])] \<and>
   attrs (node_of (snd (copy 1000 plain_env [(0, ''peer''), (0, ''n'')] None [] [] False
                          colocated_store)) (0, ''n_1''))
     = [(''_class'', AttrList [''loc:@peer''])]"
  by code_simp


end
